(* ===== verification/Erp_Prelude.thy ===== *)
theory Erp_Prelude
  imports Complex_Main "HOL-Library.Word" "HOL-Library.Finite_Map"
    "HOL-Library.List_Lexorder" "HOL-Library.Char_ord" "HOL-Library.Sublist" "HOL-Library.Multiset"
begin

text \<open>
  The vocabulary the components share: Go's \<open>int\<close> and \<open>time.Duration\<close> as 64-bit words read
  with \<open>sint\<close>, Go strings as byte lists, \<open>strings.TrimSpace\<close> on UTF-8 encoded bytes,
  timestamps with their zone offset, sums over finite maps, and the collections of rewrite
  rules that the component proofs use.
\<close>

named_theorems erp_defs \<open>definitions of operations, unfolded to evaluate them\<close>
named_theorems repo_rules \<open>facts on the in-memory inventory repository\<close>

section \<open>Machine integers\<close>

type_synonym go_int = "64 word"
type_synonym go_int32 = "32 word"
type_synonym duration = "64 word"

abbreviation max_int64 :: int where
  "max_int64 \<equiv> 9223372036854775807"

lemma sint_range [simp]:
  fixes a :: go_int
  shows "- 9223372036854775808 \<le> sint a" and "sint a \<le> max_int64"
  using sint_range_size [of a] by (simp_all add: word_size)

lemma sint_plus_exact:
  fixes a b :: go_int
  assumes "- 9223372036854775808 \<le> sint a + sint b" and "sint a + sint b \<le> max_int64"
  shows "sint (a + b) = sint a + sint b"
  using assms by (simp add: sint_word_ariths signed_take_bit_int_eq_self)

lemma sint_minus_exact:
  fixes a b :: go_int
  assumes "- 9223372036854775808 \<le> sint a - sint b" and "sint a - sint b \<le> max_int64"
  shows "sint (a - b) = sint a - sint b"
  using assms by (simp add: sint_word_ariths signed_take_bit_int_eq_self)

section \<open>White space and \<open>strings.TrimSpace\<close>\<close>

text \<open>
  A Go string is a sequence of bytes. \<open>strings.TrimSpace\<close> removes the leading and trailing
  code points for which \<open>unicode.IsSpace\<close> holds: six ASCII characters, U+0085 and U+00A0 (two
  bytes in UTF-8) and U+1680, U+2000 to U+200A, U+2028, U+2029, U+202F, U+205F and U+3000
  (three bytes). A byte that does not decode is not a space, so the scan stops there.
\<close>

definition space1 :: "char \<Rightarrow> bool" where
  "space1 a \<longleftrightarrow> a \<in> {CHR 0x09, CHR 0x0A, CHR 0x0B, CHR 0x0C, CHR 0x0D, CHR 0x20}"

definition space2 :: "char \<Rightarrow> char \<Rightarrow> bool" where
  "space2 a b \<longleftrightarrow> a = CHR 0xC2 \<and> b \<in> {CHR 0x85, CHR 0xA0}"

definition space3 :: "char \<Rightarrow> char \<Rightarrow> char \<Rightarrow> bool" where
  "space3 a b c \<longleftrightarrow>
     a = CHR 0xE1 \<and> b = CHR 0x9A \<and> c = CHR 0x80 \<or>
     a = CHR 0xE2 \<and> b = CHR 0x80 \<and>
       c \<in> {CHR 0x80, CHR 0x81, CHR 0x82, CHR 0x83, CHR 0x84, CHR 0x85, CHR 0x86, CHR 0x87,
            CHR 0x88, CHR 0x89, CHR 0x8A, CHR 0xA8, CHR 0xA9, CHR 0xAF} \<or>
     a = CHR 0xE2 \<and> b = CHR 0x81 \<and> c = CHR 0x9F \<or>
     a = CHR 0xE3 \<and> b = CHR 0x80 \<and> c = CHR 0x80"

fun strip_while :: "('a \<Rightarrow> bool) \<Rightarrow> ('a \<Rightarrow> 'a \<Rightarrow> bool) \<Rightarrow> ('a \<Rightarrow> 'a \<Rightarrow> 'a \<Rightarrow> bool) \<Rightarrow> 'a list \<Rightarrow> 'a list"
where
  "strip_while p q r [] = []"
| "strip_while p q r [a] = (if p a then [] else [a])"
| "strip_while p q r [a, b] =
     (if p a then strip_while p q r [b] else if q a b then [] else [a, b])"
| "strip_while p q r (a # b # c # s) =
     (if p a then strip_while p q r (b # c # s)
      else if q a b then strip_while p q r (c # s)
      else if r a b c then strip_while p q r s
      else a # b # c # s)"

definition trim_left :: "string \<Rightarrow> string" where
  "trim_left s = strip_while space1 space2 space3 s"

definition trim_right :: "string \<Rightarrow> string" where
  "trim_right s =
     rev (strip_while space1 (\<lambda>a b. space2 b a) (\<lambda>a b c. space3 c b a) (rev s))"

definition TrimSpace :: "string \<Rightarrow> string" where
  "TrimSpace s = trim_right (trim_left s)"

lemmas space_defs = space1_def space2_def space3_def
lemmas trim_defs = TrimSpace_def trim_left_def trim_right_def space_defs

definition blank :: "string \<Rightarrow> bool" where
  "blank s \<longleftrightarrow> TrimSpace s = []"

lemma strip_while_suffix: "suffix (strip_while p q r s) s"
  by (induction p q r s rule: strip_while.induct) (auto intro: suffix_ConsI)

lemma strip_while_length: "length (strip_while p q r s) \<le> length s"
  by (rule suffix_length_le [OF strip_while_suffix])

lemma strip_while_idem [simp]:
  "strip_while p q r (strip_while p q r s) = strip_while p q r s"
  by (induction p q r s rule: strip_while.induct) auto

text \<open>
  The scan stops exactly at the lists that start with no space, and cutting off the tail of
  such a list gives another one. So the right trim never exposes a new space on the left, and
  trimming twice is trimming once: the repository and the service both trim identifiers and
  agree on the key.
\<close>

fun starts_space :: "('a \<Rightarrow> bool) \<Rightarrow> ('a \<Rightarrow> 'a \<Rightarrow> bool) \<Rightarrow> ('a \<Rightarrow> 'a \<Rightarrow> 'a \<Rightarrow> bool) \<Rightarrow> 'a list \<Rightarrow> bool"
where
  "starts_space p q r [] = False"
| "starts_space p q r [a] = p a"
| "starts_space p q r [a, b] = (p a \<or> q a b)"
| "starts_space p q r (a # b # c # s) = (p a \<or> q a b \<or> r a b c)"

lemma not_starts_space_strip_while [simp]: "\<not> starts_space p q r (strip_while p q r s)"
  by (induction p q r s rule: strip_while.induct) auto

lemma strip_while_id: "\<not> starts_space p q r s \<Longrightarrow> strip_while p q r s = s"
  by (induction p q r s rule: strip_while.induct) auto

lemma starts_space_append: "starts_space p q r x \<Longrightarrow> starts_space p q r (x @ y)"
proof (induction p q r x rule: starts_space.induct)
  case (2 p q r a)
  then show ?case by (cases y rule: list.exhaust; cases "tl y") auto
next
  case (3 p q r a b)
  then show ?case by (cases y) auto
qed auto

lemma trim_left_prefix_fixed:
  assumes "prefix t u" and "trim_left u = u"
  shows "trim_left t = t"
  using assms not_starts_space_strip_while [of space1 space2 space3 u]
  by (auto simp: trim_left_def prefix_def intro!: strip_while_id dest: starts_space_append)

lemma trim_right_prefix: "prefix (trim_right s) s"
  using strip_while_suffix [of _ _ _ "rev s"] by (simp add: trim_right_def suffix_to_prefix)

lemma TrimSpace_idem [simp]: "TrimSpace (TrimSpace s) = TrimSpace s"
proof -
  have "trim_left (TrimSpace s) = TrimSpace s"
    unfolding TrimSpace_def
    by (rule trim_left_prefix_fixed [OF trim_right_prefix]) (simp add: trim_left_def)
  then show ?thesis by (simp add: TrimSpace_def trim_right_def)
qed

lemma TrimSpace_Nil [simp]: "TrimSpace [] = []"
  by (simp add: TrimSpace_def trim_left_def trim_right_def)

section \<open>Time and floating point\<close>

text \<open>
  A \<open>time.Time\<close> is an instant and the zone it is shown in; \<open>UTC()\<close> keeps the instant and
  sets the zone. The zero \<open>time.Time\<close> is the first of January of year 1. Of \<open>float64\<close> the
  sources use the comparisons only, which are false whenever an operand is not a number.
\<close>

record go_time =
  unix_nanos :: int
  zone_offset :: int

definition UTC :: "go_time \<Rightarrow> go_time" where
  "UTC t = t\<lparr>zone_offset := 0\<rparr>"

definition zero_time :: go_time where
  "zero_time = \<lparr>unix_nanos = - 62135596800000000000, zone_offset = 0\<rparr>"

datatype float64 = Finite rat | PosInf | NegInf | NaN

fun float_less :: "float64 \<Rightarrow> float64 \<Rightarrow> bool" where
  "float_less NaN y = False"
| "float_less x NaN = False"
| "float_less (Finite a) (Finite b) = (a < b)"
| "float_less PosInf y = False"
| "float_less x NegInf = False"
| "float_less NegInf y = True"
| "float_less x PosInf = True"

definition float_le :: "float64 \<Rightarrow> float64 \<Rightarrow> bool" where
  "float_le x y \<longleftrightarrow> x \<noteq> NaN \<and> y \<noteq> NaN \<and> (float_less x y \<or> x = y)"

section \<open>Finite maps\<close>

text \<open>
  A Go map is a finite map. Ranging over it visits every key once in an order the language
  leaves open, so an operation that ranges takes the order as an argument.
\<close>

definition range_order :: "('k, 'v) fmap \<Rightarrow> 'k list \<Rightarrow> bool" where
  "range_order m ks \<longleftrightarrow> distinct ks \<and> set ks = fmdom' m"

definition range_values :: "('k, 'v) fmap \<Rightarrow> 'k list \<Rightarrow> 'v list" where
  "range_values m ks = List.map_filter (fmlookup m) ks"

lemma range_values_map:
  assumes "range_order m ks"
  shows "range_values m ks = map (\<lambda>k. the (fmlookup m k)) ks"
proof -
  have "\<forall>k \<in> set ks. fmlookup m k \<noteq> None"
    using assms by (auto simp: range_order_def fmlookup_dom'_iff)
  then show ?thesis
    unfolding range_values_def by (induction ks) (auto simp: List.map_filter_simps)
qed

lemma set_range_values:
  "range_order m ks \<Longrightarrow> set (range_values m ks) = {v. \<exists>k. fmlookup m k = Some v}"
  by (force simp: range_values_map range_order_def fmlookup_dom'_iff)

text \<open>Sorting the values by an injective key gives one result for every order of ranging.\<close>

lemma sort_range_values_unique:
  assumes "range_order m ks" and "range_order m ks'"
    and key: "\<And>k v. fmlookup m k = Some v \<Longrightarrow> f v = k"
  shows "sort_key f (range_values m ks) = sort_key f (range_values m ks')"
proof (rule sort_key_inj_key_eq)
  have "mset ks = mset ks'"
    using assms(1,2) by (simp add: range_order_def flip: set_eq_iff_mset_eq_distinct)
  then show "mset (range_values m ks) = mset (sort_key f (range_values m ks'))"
    using assms(1,2) by (simp add: range_values_map)
  show "inj_on f (set (range_values m ks))"
    using key by (auto simp: set_range_values [OF assms(1)] inj_on_def)
qed simp

definition fmsum :: "('v \<Rightarrow> 'a::comm_monoid_add) \<Rightarrow> ('k, 'v) fmap \<Rightarrow> 'a" where
  "fmsum f m = (\<Sum>k\<in>fmdom' m. case fmlookup m k of None \<Rightarrow> 0 | Some v \<Rightarrow> f v)"

lemma fmsum_empty [simp]: "fmsum f fmempty = 0"
  by (simp add: fmsum_def)

lemma fmsum_upd:
  fixes f :: "'v \<Rightarrow> 'a::ab_group_add"
  shows "fmsum f (fmupd k v m) =
    fmsum f m - (case fmlookup m k of None \<Rightarrow> 0 | Some w \<Rightarrow> f w) + f v"
proof -
  let ?g = "\<lambda>m k. case fmlookup m k of None \<Rightarrow> 0 | Some v \<Rightarrow> f v"
  have "fmsum f m = (\<Sum>j\<in>insert k (fmdom' m). ?g m j)"
    unfolding fmsum_def
    by (rule sum.mono_neutral_left) (auto simp: fmlookup_dom'_iff split: option.splits)
  also have "\<dots> = ?g m k + (\<Sum>j\<in>fmdom' m - {k}. ?g m j)"
    by (simp add: sum.insert_remove)
  also have "(\<Sum>j\<in>fmdom' m - {k}. ?g m j) = (\<Sum>j\<in>fmdom' m - {k}. ?g (fmupd k v m) j)"
    by (rule sum.cong) auto
  finally show ?thesis
    by (simp add: fmsum_def sum.insert_remove fmdom'_fmupd)
qed

lemma fmsum_nonneg:
  fixes f :: "'v \<Rightarrow> int"
  assumes "\<And>k v. fmlookup m k = Some v \<Longrightarrow> 0 \<le> f v"
  shows "0 \<le> fmsum f m"
  unfolding fmsum_def using assms by (intro sum_nonneg) (auto split: option.splits)

lemma fmsum_member_le:
  fixes f :: "'v \<Rightarrow> int"
  assumes "\<And>k v. fmlookup m k = Some v \<Longrightarrow> 0 \<le> f v" and "fmlookup m k = Some v"
  shows "f v \<le> fmsum f m"
proof -
  have "f v = (case fmlookup m k of None \<Rightarrow> 0 | Some v \<Rightarrow> f v)" using assms(2) by simp
  also have "\<dots> \<le> fmsum f m"
    unfolding fmsum_def using assms
    by (intro member_le_sum) (auto simp: fmlookup_dom'_iff split: option.splits)
  finally show ?thesis .
qed


text \<open>
  A string that ends in a byte no white space ends in is not blank.
\<close>

definition ends_solid :: "string \<Rightarrow> bool" where
  "ends_solid s \<longleftrightarrow> s \<noteq> [] \<and> \<not> space1 (last s) \<and> of_char (last s) < (128 :: nat)"

lemma strip_while_last:
  assumes "s \<noteq> []" and "\<not> p (last s)" and "\<And>a. \<not> q a (last s)" and "\<And>a b. \<not> r a b (last s)"
  shows "strip_while p q r s \<noteq> [] \<and> last (strip_while p q r s) = last s"
  using assms
proof (induction p q r s rule: strip_while.induct)
  case (4 p q r a b c s)
  then show ?case by (cases s) (auto split: if_splits)
qed (auto split: if_splits)

lemma TrimSpace_ends_solid:
  assumes "ends_solid s"
  shows "TrimSpace s \<noteq> []"
proof -
  have "\<not> space2 a (last s)" "\<not> space3 a b (last s)" for a b
    using assms by (auto simp: ends_solid_def space2_def space3_def)
  then have l: "trim_left s \<noteq> []" "last (trim_left s) = last s"
    using assms strip_while_last [of s space1 space2 space3] by (auto simp: ends_solid_def trim_left_def)
  then obtain t where t: "trim_left s = t @ [last s]" by (metis append_butlast_last_id)
  have "\<not> starts_space space1 (\<lambda>a b. space2 b a) (\<lambda>a b c. space3 c b a) (last s # rev t)"
    using assms by (cases "rev t"; cases "tl (rev t)")
      (auto simp: ends_solid_def space2_def space3_def)
  then show ?thesis by (simp add: TrimSpace_def trim_right_def t strip_while_id)
qed

end
