(* ===== verification/Erp_Errors.thy ===== *)
theory Erp_Errors
  imports Erp_Prelude
begin

text \<open>
  Go errors: the sentinel values of the packages (errors.go, dead_letter.go,
  inventory_reservation.go, idempotency_store.go, reservation_requested.go,
  failure_simulation_publisher.go and the ones of the standard library and of the AMQP client
  that the code compares with), the wrapping done by \<open>fmt.Errorf\<close> with a \<open>%w\<close> verb, the
  structured \<open>InsufficientStockError\<close>, and \<open>errors.Is\<close>. A formatted message is kept as the
  list of its pieces, so an error value carries everything its text is made from. Results are
  sums with the error on the left, and a \<open>context.Context\<close> is the sequence of answers that its
  successive \<open>Err()\<close> calls give.
\<close>

datatype sentinel =
    ErrInvalidArgument
  | ErrInsufficientStock
  | ErrReservationAlreadyExists
  | ErrReservationNotFound
  | ErrReservationNotActive
  | ErrStockItemNotFound
  | ErrStockInvariantViolation
  | ErrInvalidIdempotencyKey
  | ErrIdempotencyConflict
  | ErrInvalidDeadLetterQueue
  | ErrInvalidRequeueLimit
  | ErrInvalidMessage
  | ErrSimulatedPublishFailure
  | ContextCanceled
  | ContextDeadlineExceeded
  | AmqpErrClosed
  | HttpErrServerClosed

text \<open>
  The pieces of a format string: literal text, a \<open>%q\<close> or \<open>%s\<close> string, a \<open>%d\<close> number, and a
  \<open>%v\<close> error, which is printed but not wrapped.
\<close>

datatype go_error =
    Sentinel sentinel
  | Errorf "frag list"
  | Wrapf "frag list" go_error "frag list"
  | InsufficientStockError string go_int go_int
  | ForeignError string
and frag = Lit string | Quoted string | Num go_int | Shown go_error

text \<open>A failed \<open>nil\<close> dereference, which Go answers with a panic.\<close>

definition nil_dereference :: go_error where
  "nil_dereference = ForeignError ''invalid memory address or nil pointer dereference''"

text \<open>\<open>errors.Is\<close> follows the chain of wrapped errors; \<open>InsufficientStockError\<close> unwraps to
  its sentinel.\<close>

fun InsufficientStockError_Unwrap :: "go_error \<Rightarrow> go_error option" where
  "InsufficientStockError_Unwrap (InsufficientStockError sku n a) = Some (Sentinel ErrInsufficientStock)"
| "InsufficientStockError_Unwrap e = None"

fun errors_Is :: "go_error \<Rightarrow> sentinel \<Rightarrow> bool" where
  "errors_Is (Sentinel s) t = (s = t)"
| "errors_Is (Errorf fs) t = False"
| "errors_Is (Wrapf pre e post) t = errors_Is e t"
| "errors_Is (InsufficientStockError sku n a) t =
     (case InsufficientStockError_Unwrap (InsufficientStockError sku n a) of
        Some (Sentinel s) \<Rightarrow> s = t | _ \<Rightarrow> False)"
| "errors_Is (ForeignError m) t = False"

text \<open>\<open>fmt.Errorf("%w: text", sentinel)\<close>, the form most call sites use.\<close>

abbreviation wrap_text :: "sentinel \<Rightarrow> string \<Rightarrow> go_error" where
  "wrap_text s msg \<equiv> Wrapf [] (Sentinel s) [Lit '': '', Lit msg]"

type_synonym 'a result = "go_error + 'a"
type_synonym ('a, 's) op = "'s \<Rightarrow> 'a result \<times> 's"

section \<open>Contexts\<close>

text \<open>
  Cancellation comes from outside, so a context is modelled by what it answers: entry \<open>i\<close> is
  the value the \<open>i\<close>-th call of \<open>ctx.Err()\<close> on the path returns. A cancelled context stays
  cancelled; a function that checks once hands the rest of the answers on.
\<close>

type_synonym go_context = "nat \<Rightarrow> go_error option"

definition Background :: go_context where
  "Background = (\<lambda>_. None)"

definition ctx_Err :: "go_context \<Rightarrow> go_error option" where
  "ctx_Err ctx = ctx 0"

definition ctx_next :: "go_context \<Rightarrow> go_context" where
  "ctx_next ctx = (\<lambda>i. ctx (Suc i))"

lemma ctx_Err_Background [simp]: "ctx_Err Background = None"
  by (simp add: ctx_Err_def Background_def)

lemma ctx_next_Background [simp]: "ctx_next Background = Background"
  by (simp add: ctx_next_def Background_def)


text \<open>\<open>Err\<close> answers nothing else than the two errors its documentation names.\<close>

definition standard_context :: "go_context \<Rightarrow> bool" where
  "standard_context ctx \<longleftrightarrow>
     (\<forall>i. ctx i \<in> {None, Some (Sentinel ContextCanceled), Some (Sentinel ContextDeadlineExceeded)})"

lemma standard_context_Background [simp]: "standard_context Background"
  by (simp add: standard_context_def Background_def)

lemma standard_context_next: "standard_context ctx \<Longrightarrow> standard_context (ctx_next ctx)"
  by (simp add: standard_context_def ctx_next_def)

lemma standard_context_Err:
  "standard_context ctx \<Longrightarrow> ctx_Err ctx = Some e \<Longrightarrow>
     e = Sentinel ContextCanceled \<or> e = Sentinel ContextDeadlineExceeded"
  by (auto simp: standard_context_def ctx_Err_def dest: spec [of _ 0])

end
