(* ===== verification/Idempotency_Store.thy ===== *)
theory Idempotency_Store
  imports Erp_Errors
begin

text \<open>
  The idempotency store (internal/storage/memory/idempotency_store.go) as one caller sees it,
  and the contract the handlers use. \<open>Execute\<close> runs its operation outside the lock, so the
  operation's own state travels beside the store. Two callers meet only through the in-flight
  map; what an awaited call of another goroutine answers is the argument \<open>await\<close>. The
  interleaved view, with many callers, is the theory \<open>Idempotency_Concurrent\<close>.
\<close>

record 'v IdempotencyStore =
  entries :: "(string, 'v) fmap"
  inFlight :: "string fset"

definition NewIdempotencyStore :: "'v IdempotencyStore" where
  "NewIdempotencyStore = \<lparr>entries = fmempty, inFlight = {||}\<rparr>"

text \<open>
  The select of a joined call returns the answer of the call when it closes \<open>done\<close>, and the
  error of the context when that is cancelled first; the flag is true in both cases and an
  error drops the value. The in-flight mark of an owner is set while its operation runs.
\<close>

definition IdempotencyStore_Execute ::
  "(go_context \<Rightarrow> string \<Rightarrow> 'v result) \<Rightarrow> go_context \<Rightarrow> string \<Rightarrow> ('v, 's) op \<Rightarrow>
   ('v \<times> bool, 'v IdempotencyStore \<times> 's) op" where
  "IdempotencyStore_Execute await ctx key operation = (\<lambda>(store, s).
     let key = TrimSpace key in
     if key = '''' then (Inl (Sentinel ErrInvalidIdempotencyKey), (store, s))
     else case ctx_Err ctx of
       Some err \<Rightarrow> (Inl err, (store, s))
     | None \<Rightarrow>
         (case fmlookup (entries store) key of
            Some result \<Rightarrow> (Inr (result, True), (store, s))
          | None \<Rightarrow>
              if key |\<in>| inFlight store
              then (case await (ctx_next ctx) key of
                      Inl err \<Rightarrow> (Inl err, (store, s))
                    | Inr result \<Rightarrow> (Inr (result, True), (store, s)))
              else
                let store = store\<lparr>inFlight := finsert key (inFlight store)\<rparr> in
                (case operation s of
                   (Inl err, s') \<Rightarrow>
                     (Inl err, (store\<lparr>inFlight := inFlight store |-| {|key|}\<rparr>, s'))
                 | (Inr result, s') \<Rightarrow>
                     (Inr (result, False),
                      (store\<lparr>entries := fmupd key result (entries store),
                             inFlight := inFlight store |-| {|key|}\<rparr>, s')))))"

section \<open>The contract of the store interfaces\<close>

text \<open>
  \<open>recorded\<close> is what the store remembers under a trimmed key and \<open>idle\<close> says that no call is
  in flight, which holds between the deliveries of a single consumer goroutine. A remembered
  value is returned without running the operation; otherwise the operation runs once and its
  value is remembered, while an error is passed on and leaves no trace in the store.
\<close>

locale idempotent_execution =
  fixes execute :: "go_context \<Rightarrow> string \<Rightarrow> ('v, 's) op \<Rightarrow> ('v \<times> bool, 'st \<times> 's) op"
    and recorded :: "'st \<Rightarrow> string \<Rightarrow> 'v option"
    and idle :: "'st \<Rightarrow> bool"
  assumes blank_key: "TrimSpace key = '''' \<Longrightarrow>
      execute ctx key operation (st, s) = (Inl (Sentinel ErrInvalidIdempotencyKey), (st, s))"
    and cancelled: "TrimSpace key \<noteq> '''' \<Longrightarrow> ctx_Err ctx = Some e \<Longrightarrow>
      execute ctx key operation (st, s) = (Inl e, (st, s))"
    and hit: "TrimSpace key \<noteq> '''' \<Longrightarrow> ctx_Err ctx = None \<Longrightarrow>
      recorded st (TrimSpace key) = Some v \<Longrightarrow>
      execute ctx key operation (st, s) = (Inr (v, True), (st, s))"
    and miss_error: "TrimSpace key \<noteq> '''' \<Longrightarrow> ctx_Err ctx = None \<Longrightarrow> idle st \<Longrightarrow>
      recorded st (TrimSpace key) = None \<Longrightarrow> operation s = (Inl e, s') \<Longrightarrow>
      execute ctx key operation (st, s) = (Inl e, (st, s'))"
    and miss_value: "TrimSpace key \<noteq> '''' \<Longrightarrow> ctx_Err ctx = None \<Longrightarrow> idle st \<Longrightarrow>
      recorded st (TrimSpace key) = None \<Longrightarrow> operation s = (Inr v, s') \<Longrightarrow>
      \<exists>st'. execute ctx key operation (st, s) = (Inr (v, False), (st', s')) \<and> idle st' \<and>
        recorded st' = (recorded st)(TrimSpace key \<mapsto> v)"
begin

text \<open>
  The ways a call can go: it is refused before anything runs, the value was remembered, the
  operation ran and failed, or it ran and made the value that is remembered from then on.
\<close>

lemma execute_cases:
  assumes "idle st" and "execute ctx key operation (st, s) = (res, (st', s'))"
  obtains (refused) e where "res = Inl e" "st' = st" "s' = s"
    | (remembered) v where "res = Inr (v, True)" "TrimSpace key \<noteq> ''''" "ctx_Err ctx = None"
      "recorded st (TrimSpace key) = Some v" "st' = st" "s' = s"
    | (failed) e where "res = Inl e" "st' = st" "operation s = (Inl e, s')"
    | (computed) v where "res = Inr (v, False)" "TrimSpace key \<noteq> ''''" "ctx_Err ctx = None"
      "recorded st (TrimSpace key) = None" "operation s = (Inr v, s')"
      "recorded st' = (recorded st)(TrimSpace key \<mapsto> v)" "idle st'"
proof (cases "TrimSpace key = ''''")
  case True
  with assms(2) blank_key [OF True, of ctx operation st s] show thesis by (auto intro: refused)
next
  case key: False
  show thesis
  proof (cases "ctx_Err ctx")
    case (Some e)
    with assms(2) cancelled [OF key Some, of operation st s] show thesis by (auto intro: refused)
  next
    case live: None
    show thesis
    proof (cases "recorded st (TrimSpace key)")
      case (Some v)
      with assms(2) hit [OF key live Some, of operation s] key live show thesis
        by (auto intro: remembered)
    next
      case new: None
      obtain out s2 where op: "operation s = (out, s2)" by fastforce
      show thesis
      proof (cases out)
        case (Inl e)
        with op have "operation s = (Inl e, s2)" by simp
        with assms(2) miss_error [OF key live assms(1) new, of operation s e s2] show thesis
          by (auto intro: failed)
      next
        case (Inr v)
        with op have op: "operation s = (Inr v, s2)" by simp
        from miss_value [where operation = operation, OF key live assms(1) new op] obtain st2 where
          "execute ctx key operation (st, s) = (Inr (v, False), (st2, s2))" "idle st2"
          "recorded st2 = (recorded st)(TrimSpace key \<mapsto> v)" by blast
        with assms(2) op key live new show thesis by (auto intro: computed)
      qed
    qed
  qed
qed

lemma execute_value_cases:
  assumes "idle st" and "execute ctx key operation (st, s) = (Inr (v, h), (st', s'))"
  obtains (remembered) "h" "TrimSpace key \<noteq> ''''" "ctx_Err ctx = None"
      "recorded st (TrimSpace key) = Some v" "st' = st" "s' = s"
    | (computed) "\<not> h" "TrimSpace key \<noteq> ''''" "ctx_Err ctx = None"
      "recorded st (TrimSpace key) = None" "operation s = (Inr v, s')"
      "recorded st' = (recorded st)(TrimSpace key \<mapsto> v)" "idle st'"
  using assms by (cases rule: execute_cases) (simp_all add: that)

lemma execute_idle:
  assumes "idle st" and "execute ctx key operation (st, s) = (res, (st', s'))"
  shows "idle st'"
  using assms by (cases rule: execute_cases) (use assms(1) in simp_all)

text \<open>An error leaves the store as it was; the operation's state is its own affair.\<close>

lemma execute_error_cases:
  assumes "idle st" and "execute ctx key operation (st, s) = (Inl e, (st', s'))"
  shows "st' = st \<and> (s' = s \<or> operation s = (Inl e, s'))"
  using assms by (cases rule: execute_cases) simp_all

lemma execute_state:
  assumes "idle st" and "execute ctx key operation (st, s) = (res, (st', s'))"
  shows "s' = s \<or> s' = snd (operation s)"
  using assms by (cases rule: execute_cases) simp_all

text \<open>A value, once returned, is what every later call with that key gets: nothing runs again.\<close>

lemma execute_again:
  assumes "idle st" and "execute ctx key operation (st, s) = (Inr (v, h), (st', s'))"
    and "TrimSpace key' = TrimSpace key" and "ctx_Err ctx' = None"
  shows "execute ctx' key' operation' (st', t) = (Inr (v, True), (st', t))"
  using assms(1,2)
proof (cases rule: execute_value_cases)
  case remembered
  with assms(3,4) show ?thesis by (simp add: hit)
next
  case computed
  with assms(3,4) show ?thesis by (simp add: hit)
qed

text \<open>What is remembered under a key never changes.\<close>

lemma execute_keeps_recorded:
  assumes "idle st" and "recorded st k = Some w"
    and "execute ctx key operation (st, s) = (res, (st', s'))"
  shows "recorded st' k = Some w"
  using assms(1,3) by (cases rule: execute_cases) (use assms(2) in auto)

end

interpretation memory_store: idempotent_execution
  "IdempotencyStore_Execute await" "\<lambda>st. fmlookup (entries st)" "\<lambda>st. inFlight st = {||}"
  for await
proof (unfold_locales, goal_cases)
  case (4 key ctx st operation s e s')
  then show ?case by (cases st) (simp add: IdempotencyStore_Execute_def Let_def)
next
  case (5 key ctx st operation s v s')
  then show ?case by (simp add: IdempotencyStore_Execute_def Let_def fun_eq_iff)
qed (simp_all add: IdempotencyStore_Execute_def Let_def)

lemma NewIdempotencyStore_idle [simp]:
  "inFlight NewIdempotencyStore = {||}" "entries NewIdempotencyStore = fmempty"
  by (simp_all add: NewIdempotencyStore_def)

end
