(* ===== verification/Idempotency_Concurrent.thy ===== *)
theory Idempotency_Concurrent
  imports Idempotency_Store
begin

text \<open>
  \<open>IdempotencyStore.Execute\<close> under concurrency. Any number of goroutines call \<open>Execute\<close>, each
  with its own key; a step is one critical section of one of them: the checks before the lock,
  the section that looks the key up and joins or opens a call, the end of the operation with
  the section that publishes its answer, and the two ways out of the \<open>select\<close>. The operation
  itself runs between two steps of its owner, so operations of different goroutines
  interleave freely; its answer is arbitrary. The theorems hold in every reachable state:
  operations of one key never overlap, at most one of them succeeds, all callers of a key that
  get a value get the same one, and a waiting caller is never forgotten.
\<close>

datatype 'v exec_pc =
    Calling
  | Owning nat
  | Waiting nat
  | Returned "('v \<times> bool) result"

text \<open>
  Calls are allocated at fresh addresses; the outcome of a call is \<open>None\<close> until its \<open>done\<close>
  channel is closed. The log is a history of finished operations, for the statements only.
\<close>

record 'v exec_state =
  x_entries :: "(string, 'v) fmap"
  x_inFlight :: "(string, nat) fmap"
  x_calls :: "nat \<Rightarrow> 'v result option"
  x_fresh :: nat
  x_pc :: "nat \<Rightarrow> 'v exec_pc"
  x_log :: "(string \<times> 'v result) list"

definition exec_init :: "'v exec_state" where
  "exec_init = \<lparr>x_entries = fmempty, x_inFlight = fmempty, x_calls = (\<lambda>_. None), x_fresh = 0,
     x_pc = (\<lambda>_. Calling), x_log = []\<rparr>"

definition set_pc :: "nat \<Rightarrow> 'v exec_pc \<Rightarrow> 'v exec_state \<Rightarrow> 'v exec_state" where
  "set_pc t p x = x\<lparr>x_pc := (x_pc x)(t := p)\<rparr>"

definition open_call :: "string \<Rightarrow> 'v exec_state \<Rightarrow> 'v exec_state" where
  "open_call k x = x\<lparr>x_inFlight := fmupd k (x_fresh x) (x_inFlight x),
     x_calls := (x_calls x)(x_fresh x := None), x_fresh := Suc (x_fresh x)\<rparr>"

definition close_call :: "string \<Rightarrow> nat \<Rightarrow> 'v result \<Rightarrow> 'v exec_state \<Rightarrow> 'v exec_state" where
  "close_call k c res x = x\<lparr>
     x_entries := (case res of Inr v \<Rightarrow> fmupd k v (x_entries x) | Inl _ \<Rightarrow> x_entries x),
     x_calls := (x_calls x)(c := Some res),
     x_inFlight := fmdrop k (x_inFlight x),
     x_log := x_log x @ [(k, res)]\<rparr>"

inductive exec_step :: "(nat \<Rightarrow> string) \<Rightarrow> 'v exec_state \<Rightarrow> 'v exec_state \<Rightarrow> bool" for key where
  refuse_key: "x_pc x t = Calling \<Longrightarrow> TrimSpace (key t) = '''' \<Longrightarrow>
    exec_step key x (set_pc t (Returned (Inl (Sentinel ErrInvalidIdempotencyKey))) x)"
| refuse_ctx: "x_pc x t = Calling \<Longrightarrow> TrimSpace (key t) \<noteq> '''' \<Longrightarrow>
    exec_step key x (set_pc t (Returned (Inl err)) x)"
| found: "x_pc x t = Calling \<Longrightarrow> TrimSpace (key t) \<noteq> '''' \<Longrightarrow>
    fmlookup (x_entries x) (TrimSpace (key t)) = Some v \<Longrightarrow>
    exec_step key x (set_pc t (Returned (Inr (v, True))) x)"
| join: "x_pc x t = Calling \<Longrightarrow> TrimSpace (key t) \<noteq> '''' \<Longrightarrow>
    fmlookup (x_entries x) (TrimSpace (key t)) = None \<Longrightarrow>
    fmlookup (x_inFlight x) (TrimSpace (key t)) = Some c \<Longrightarrow>
    exec_step key x (set_pc t (Waiting c) x)"
| own: "x_pc x t = Calling \<Longrightarrow> TrimSpace (key t) \<noteq> '''' \<Longrightarrow>
    fmlookup (x_entries x) (TrimSpace (key t)) = None \<Longrightarrow>
    fmlookup (x_inFlight x) (TrimSpace (key t)) = None \<Longrightarrow>
    exec_step key x (set_pc t (Owning (x_fresh x)) (open_call (TrimSpace (key t)) x))"
| finish: "x_pc x t = Owning c \<Longrightarrow>
    exec_step key x (set_pc t (Returned (map_sum id (\<lambda>v. (v, False)) res))
      (close_call (TrimSpace (key t)) c res x))"
| wake: "x_pc x t = Waiting c \<Longrightarrow> x_calls x c = Some res \<Longrightarrow>
    exec_step key x (set_pc t (Returned (map_sum id (\<lambda>v. (v, True)) res)) x)"
| give_up: "x_pc x t = Waiting c \<Longrightarrow> exec_step key x (set_pc t (Returned (Inl err)) x)"

inductive exec_reachable :: "(nat \<Rightarrow> string) \<Rightarrow> 'v exec_state \<Rightarrow> bool" for key where
  exec_start: "exec_reachable key exec_init"
| exec_more: "exec_reachable key x \<Longrightarrow> exec_step key x y \<Longrightarrow> exec_reachable key y"

section \<open>The invariant\<close>

text \<open>
  Owners and in-flight entries correspond one to one; a key in flight has no entry yet and its
  call is open; a waiter's call is open with an owner for its key, or closed with a logged
  answer; entries are the logged successes, and there is at most one per key.
\<close>

definition successes :: "string \<Rightarrow> (string \<times> 'v result) list \<Rightarrow> 'v list" where
  "successes k hist = List.map_filter (\<lambda>(j, res). case res of Inr v \<Rightarrow> if j = k then Some v else None | Inl _ \<Rightarrow> None) hist"

lemma successes_simps [simp]:
  "successes k [] = []"
  "successes k (hist @ [(j, Inr v)]) = successes k hist @ (if j = k then [v] else [])"
  "successes k (hist @ [(j, Inl e)]) = successes k hist"
  by (simp_all add: successes_def List.map_filter_def)

definition owner_inv :: "(nat \<Rightarrow> string) \<Rightarrow> 'v exec_state \<Rightarrow> bool" where
  "owner_inv key x \<longleftrightarrow>
     (\<forall>t c. x_pc x t = Owning c \<longrightarrow> fmlookup (x_inFlight x) (TrimSpace (key t)) = Some c) \<and>
     (\<forall>t u c. x_pc x t = Owning c \<and> x_pc x u = Owning c \<longrightarrow> t = u) \<and>
     (\<forall>k c. fmlookup (x_inFlight x) k = Some c \<longrightarrow>
        c < x_fresh x \<and> x_calls x c = None \<and> fmlookup (x_entries x) k = None \<and>
        (\<exists>t. x_pc x t = Owning c \<and> TrimSpace (key t) = k))"

definition waiter_inv :: "(nat \<Rightarrow> string) \<Rightarrow> 'v exec_state \<Rightarrow> bool" where
  "waiter_inv key x \<longleftrightarrow>
     (\<forall>t c. x_pc x t = Waiting c \<longrightarrow> c < x_fresh x \<and>
        (fmlookup (x_inFlight x) (TrimSpace (key t)) = Some c \<or>
         (\<exists>res. x_calls x c = Some res \<and> (TrimSpace (key t), res) \<in> set (x_log x))))"

definition entry_inv :: "(nat \<Rightarrow> string) \<Rightarrow> 'v exec_state \<Rightarrow> bool" where
  "entry_inv key x \<longleftrightarrow>
     (\<forall>k. successes k (x_log x) = (case fmlookup (x_entries x) k of None \<Rightarrow> [] | Some v \<Rightarrow> [v])) \<and>
     (\<forall>t v h. x_pc x t = Returned (Inr (v, h)) \<longrightarrow>
        fmlookup (x_entries x) (TrimSpace (key t)) = Some v)"

definition exec_inv :: "(nat \<Rightarrow> string) \<Rightarrow> 'v exec_state \<Rightarrow> bool" where
  "exec_inv key x \<longleftrightarrow> owner_inv key x \<and> waiter_inv key x \<and> entry_inv key x"

lemmas exec_inv_defs = exec_inv_def owner_inv_def waiter_inv_def entry_inv_def
lemmas exec_state_defs = set_pc_def open_call_def close_call_def

lemma exec_inv_init: "exec_inv key exec_init"
  by (simp add: exec_inv_defs exec_init_def)

lemma in_successes: "(k, Inr v) \<in> set hist \<Longrightarrow> v \<in> set (successes k hist)"
  by (force simp: successes_def List.map_filter_def)

lemma logged_entry: "entry_inv key x \<Longrightarrow> (k, Inr v) \<in> set (x_log x) \<Longrightarrow> fmlookup (x_entries x) k = Some v"
  by (drule in_successes) (auto simp: entry_inv_def split: option.splits)

lemma owner_in_flight:
  "owner_inv key x \<Longrightarrow> x_pc x t = Owning c \<Longrightarrow> fmlookup (x_inFlight x) (TrimSpace (key t)) = Some c"
  by (simp add: owner_inv_def)

lemma owner_unique: "owner_inv key x \<Longrightarrow> x_pc x t = Owning c \<Longrightarrow> x_pc x u = Owning c \<Longrightarrow> t = u"
  by (simp add: owner_inv_def)

lemma in_flight_open:
  "owner_inv key x \<Longrightarrow> fmlookup (x_inFlight x) k = Some c \<Longrightarrow>
     c < x_fresh x \<and> x_calls x c = None \<and> fmlookup (x_entries x) k = None"
  by (simp add: owner_inv_def)

lemma in_flight_owner:
  "owner_inv key x \<Longrightarrow> fmlookup (x_inFlight x) k = Some c \<Longrightarrow>
     \<exists>t. x_pc x t = Owning c \<and> TrimSpace (key t) = k"
  by (simp add: owner_inv_def)

lemma owner_invI:
  assumes "\<And>t c. x_pc x t = Owning c \<Longrightarrow> fmlookup (x_inFlight x) (TrimSpace (key t)) = Some c"
    and "\<And>t u c. x_pc x t = Owning c \<Longrightarrow> x_pc x u = Owning c \<Longrightarrow> t = u"
    and "\<And>k c. fmlookup (x_inFlight x) k = Some c \<Longrightarrow>
      c < x_fresh x \<and> x_calls x c = None \<and> fmlookup (x_entries x) k = None"
    and "\<And>k c. fmlookup (x_inFlight x) k = Some c \<Longrightarrow> \<exists>t. x_pc x t = Owning c \<and> TrimSpace (key t) = k"
  shows "owner_inv key x"
  using assms by (simp add: owner_inv_def)

text \<open>A goroutine that owns nothing, before and after, does not matter to the owners.\<close>

lemma owner_inv_set_pc:
  assumes "owner_inv key x" and "\<And>c. x_pc x t \<noteq> Owning c" and "\<And>c. p \<noteq> Owning c"
  shows "owner_inv key (set_pc t p x)"
proof (rule owner_invI, goal_cases)
  case (1 u c) then show ?case
    using assms owner_in_flight [OF assms(1)] by (auto simp: set_pc_def split: if_splits)
next
  case (2 u w c) then show ?case
    using assms owner_unique [OF assms(1)] by (auto simp: set_pc_def split: if_splits)
next
  case (3 k c) then show ?case using in_flight_open [OF assms(1)] by (auto simp: set_pc_def)
next
  case (4 k c) then show ?case
    using in_flight_owner [OF assms(1)] assms(2) by (fastforce simp: set_pc_def)
qed

lemma owner_inv_own:
  assumes "owner_inv key x" and "x_pc x t = Calling"
    and "fmlookup (x_entries x) (TrimSpace (key t)) = None"
    and "fmlookup (x_inFlight x) (TrimSpace (key t)) = None"
  shows "owner_inv key (set_pc t (Owning (x_fresh x)) (open_call (TrimSpace (key t)) x))"
proof (rule owner_invI, goal_cases)
  case (1 u c) then show ?case
    using assms(4) owner_in_flight [OF assms(1), of u c]
    by (auto simp: exec_state_defs split: if_splits)
next
  case (2 u w c) then show ?case
    using owner_unique [OF assms(1), of u c w] in_flight_open [OF assms(1)]
      owner_in_flight [OF assms(1), of u] owner_in_flight [OF assms(1), of w]
    by (fastforce simp: exec_state_defs split: if_splits)
next
  case (3 k c) then show ?case
    using assms(3) in_flight_open [OF assms(1), of k c]
    by (auto simp: exec_state_defs split: if_splits)
next
  case (4 k c) then show ?case
    using assms(2) in_flight_owner [OF assms(1), of k c]
    by (fastforce simp: exec_state_defs split: if_splits)
qed

lemma owner_inv_finish:
  assumes "owner_inv key x" and "x_pc x t = Owning c"
  shows "owner_inv key (set_pc t (Returned p) (close_call (TrimSpace (key t)) c res x))"
proof -
  have other: "d \<noteq> c \<and> TrimSpace (key u) \<noteq> TrimSpace (key t)" if "x_pc x u = Owning d" "u \<noteq> t" for u d
    using that owner_unique [OF assms, of u] owner_in_flight [OF assms(1) that(1)]
      owner_in_flight [OF assms] by auto
  show ?thesis
  proof (rule owner_invI, goal_cases)
    case (1 u d) then show ?case
      using other [of u d] owner_in_flight [OF assms(1), of u d]
      by (auto simp: exec_state_defs split: if_splits)
  next
    case (2 u w d) then show ?case
      using owner_unique [OF assms(1), of u d w] by (auto simp: exec_state_defs split: if_splits)
  next
    case (3 k d)
    then have k: "k \<noteq> TrimSpace (key t)" "fmlookup (x_inFlight x) k = Some d"
      by (auto simp: exec_state_defs split: if_splits)
    then obtain u where "x_pc x u = Owning d" "TrimSpace (key u) = k"
      using in_flight_owner [OF assms(1)] by blast
    then have "d \<noteq> c" using k(1) other [of u d] by auto
    then show ?case
      using k in_flight_open [OF assms(1) k(2)] by (auto simp: exec_state_defs split: sum.splits)
  next
    case (4 k d) then show ?case
      using in_flight_owner [OF assms(1), of k d] by (fastforce simp: exec_state_defs split: if_splits)
  qed
qed

lemma owner_step: "exec_step key x y \<Longrightarrow> owner_inv key x \<Longrightarrow> owner_inv key y"
  by (induction rule: exec_step.induct)
    (auto intro: owner_inv_set_pc owner_inv_own owner_inv_finish)

lemma waiter_cases:
  assumes "waiter_inv key x" and "x_pc x t = Waiting c"
  obtains (running) "c < x_fresh x" "fmlookup (x_inFlight x) (TrimSpace (key t)) = Some c"
    | (closed) res where "c < x_fresh x" "x_calls x c = Some res"
      "(TrimSpace (key t), res) \<in> set (x_log x)"
  using assms unfolding waiter_inv_def by blast

lemma waiter_inv_set_pc:
  assumes "waiter_inv key x" and "\<And>c. p \<noteq> Waiting c"
  shows "waiter_inv key (set_pc t p x)"
  using assms by (auto simp: waiter_inv_def set_pc_def)

lemma waiter_step: "exec_step key x y \<Longrightarrow> owner_inv key x \<Longrightarrow> waiter_inv key x \<Longrightarrow> waiter_inv key y"
proof (induction rule: exec_step.induct)
  case (join x t c)
  then show ?case using in_flight_open [OF join(5,4)] by (auto simp: waiter_inv_def set_pc_def)
next
  case (own x t)
  have "waiter_inv key (open_call (TrimSpace (key t)) x)"
    unfolding waiter_inv_def
  proof (intro allI impI)
    fix u d assume "x_pc (open_call (TrimSpace (key t)) x) u = Waiting d"
    then have "x_pc x u = Waiting d" by (simp add: open_call_def)
    with own.prems(2) own.hyps(4) show "d < x_fresh (open_call (TrimSpace (key t)) x) \<and>
      (fmlookup (x_inFlight (open_call (TrimSpace (key t)) x)) (TrimSpace (key u)) = Some d \<or>
       (\<exists>res. x_calls (open_call (TrimSpace (key t)) x) d = Some res \<and>
         (TrimSpace (key u), res) \<in> set (x_log (open_call (TrimSpace (key t)) x))))"
      by (fastforce simp: waiter_inv_def open_call_def)
  qed
  then show ?case by (rule waiter_inv_set_pc) simp
next
  case (finish x t c res)
  have c: "fmlookup (x_inFlight x) (TrimSpace (key t)) = Some c" "x_calls x c = None"
    using owner_in_flight [OF finish(2,1)] in_flight_open [OF finish(2)] by blast+
  have "waiter_inv key (close_call (TrimSpace (key t)) c res x)"
    unfolding waiter_inv_def
  proof (intro allI impI)
    fix u d assume "x_pc (close_call (TrimSpace (key t)) c res x) u = Waiting d"
    then have "x_pc x u = Waiting d" by (simp add: close_call_def)
    with finish.prems(2) show "d < x_fresh (close_call (TrimSpace (key t)) c res x) \<and>
      (fmlookup (x_inFlight (close_call (TrimSpace (key t)) c res x)) (TrimSpace (key u)) = Some d \<or>
       (\<exists>r. x_calls (close_call (TrimSpace (key t)) c res x) d = Some r \<and>
         (TrimSpace (key u), r) \<in> set (x_log (close_call (TrimSpace (key t)) c res x))))"
      by (cases rule: waiter_cases)
        (use c in \<open>cases "TrimSpace (key u) = TrimSpace (key t)"; cases "d = c"; auto simp: close_call_def\<close>)+
  qed
  then show ?case by (rule waiter_inv_set_pc) simp
qed (auto intro: waiter_inv_set_pc)

lemma entry_inv_set_pc:
  assumes "entry_inv key x"
    and "\<And>v h. p = Returned (Inr (v, h)) \<Longrightarrow> fmlookup (x_entries x) (TrimSpace (key t)) = Some v"
  shows "entry_inv key (set_pc t p x)"
  using assms by (auto simp: entry_inv_def set_pc_def)

lemma entry_inv_close:
  assumes "entry_inv key x" and "fmlookup (x_entries x) k = None"
  shows "entry_inv key (close_call k c res x)"
  using assms by (auto simp: entry_inv_def close_call_def split: sum.splits option.splits)

lemma waiter_closed:
  assumes "owner_inv key x" and "waiter_inv key x" and "x_pc x t = Waiting c" and "x_calls x c = Some res"
  shows "(TrimSpace (key t), res) \<in> set (x_log x)"
  using assms(2,3) by (cases rule: waiter_cases) (use assms(1,4) in_flight_open in \<open>fastforce+\<close>)

lemma entry_step: "exec_step key x y \<Longrightarrow> exec_inv key x \<Longrightarrow> entry_inv key y"
proof (induction rule: exec_step.induct)
  case (own x t)
  then have "entry_inv key (open_call (TrimSpace (key t)) x)"
    by (simp add: exec_inv_def entry_inv_def open_call_def)
  then show ?case by (rule entry_inv_set_pc) simp
next
  case (finish x t c res)
  then have "fmlookup (x_entries x) (TrimSpace (key t)) = None"
    using owner_in_flight [of key x t c] in_flight_open [of key x "TrimSpace (key t)" c]
    by (simp add: exec_inv_def)
  with finish have "entry_inv key (close_call (TrimSpace (key t)) c res x)"
    by (intro entry_inv_close) (simp_all add: exec_inv_def)
  then show ?case
    by (rule entry_inv_set_pc) (cases res, simp_all add: close_call_def)
next
  case (wake x t c res)
  show ?case
  proof (rule entry_inv_set_pc)
    show "entry_inv key x" using wake.prems by (simp add: exec_inv_def)
    fix v h assume "Returned (map_sum id (\<lambda>v. (v, True)) res) = Returned (Inr (v, h))"
    then have "res = Inr v" by (cases res) auto
    with wake waiter_closed [of key x t c res]
    show "fmlookup (x_entries x) (TrimSpace (key t)) = Some v"
      by (intro logged_entry) (auto simp: exec_inv_def)
  qed
qed (auto simp: exec_inv_def intro: entry_inv_set_pc)

lemma exec_step_inv: "exec_step key x y \<Longrightarrow> exec_inv key x \<Longrightarrow> exec_inv key y"
  using owner_step waiter_step entry_step unfolding exec_inv_def by blast

lemma exec_reachable_inv: "exec_reachable key x \<Longrightarrow> exec_inv key x"
  by (induction rule: exec_reachable.induct) (auto intro: exec_inv_init exec_step_inv)

section \<open>What every caller can rely on\<close>

text \<open>
  Property C4. At most once: in every reachable state of any number of concurrent callers, the
  operations run for one key never overlap, at most one of them has succeeded, and the store
  holds an entry for the key exactly when one has, with its value.
\<close>

theorem execute_at_most_once:
  assumes "exec_reachable key x"
  shows "(\<forall>t u c d. x_pc x t = Owning c \<and> x_pc x u = Owning d \<and>
      TrimSpace (key t) = TrimSpace (key u) \<longrightarrow> t = u) \<and>
    length (successes k (x_log x)) \<le> 1 \<and>
    fmlookup (x_entries x) k = (case successes k (x_log x) of [] \<Rightarrow> None | v # _ \<Rightarrow> Some v)"
proof -
  have inv: "owner_inv key x" "entry_inv key x"
    using exec_reachable_inv [OF assms] by (simp_all add: exec_inv_def)
  have "t = u" if "x_pc x t = Owning c" "x_pc x u = Owning d" "TrimSpace (key t) = TrimSpace (key u)" for t u c d
    using owner_in_flight [OF inv(1) that(1)] owner_in_flight [OF inv(1) that(2)] that
      owner_unique [OF inv(1), of t c u] by simp
  moreover have "successes k (x_log x) = (case fmlookup (x_entries x) k of None \<Rightarrow> [] | Some v \<Rightarrow> [v])"
    using inv(2) by (simp add: entry_inv_def)
  ultimately show ?thesis by (auto split: option.splits)
qed

text \<open>
  Property C14. Agreement: any two callers of the same key that return a value return the same
  value, whether they ran the operation, joined a call in flight or found the entry.
\<close>

theorem execute_agreement:
  assumes "exec_reachable key x" and "TrimSpace (key t) = TrimSpace (key u)"
    and "x_pc x t = Returned (Inr (v, h))" and "x_pc x u = Returned (Inr (w, g))"
  shows "v = w"
proof -
  have "entry_inv key x" using exec_reachable_inv [OF assms(1)] by (simp add: exec_inv_def)
  with assms(2-4) have "Some v = Some w" unfolding entry_inv_def by metis
  then show ?thesis by simp
qed

text \<open>
  Property C15. No waiter is forgotten: a caller blocked on a call in flight either finds the
  call closed, and then its next step returns the call's answer, or some goroutine is running
  the operation for its key, and closing that call lets the waiter return the same answer.
\<close>

theorem execute_waiter_progress:
  assumes "exec_reachable key x" and "x_pc x t = Waiting c"
  shows "(\<exists>res. x_calls x c = Some res \<and>
      exec_step key x (set_pc t (Returned (map_sum id (\<lambda>v. (v, True)) res)) x)) \<or>
    (\<exists>u. x_pc x u = Owning c \<and> TrimSpace (key u) = TrimSpace (key t) \<and>
      (\<forall>res. \<exists>y z. exec_step key x y \<and> exec_step key y z \<and>
        x_pc z t = Returned (map_sum id (\<lambda>v. (v, True)) res)))"
proof (cases "x_calls x c")
  case (Some res)
  with assms(2) show ?thesis by (blast intro: exec_step.wake)
next
  case None
  have inv: "owner_inv key x" "waiter_inv key x"
    using exec_reachable_inv [OF assms(1)] by (simp_all add: exec_inv_def)
  then have "fmlookup (x_inFlight x) (TrimSpace (key t)) = Some c"
    using assms(2) None by (auto elim: waiter_cases)
  then obtain u where u: "x_pc x u = Owning c" "TrimSpace (key u) = TrimSpace (key t)"
    using in_flight_owner [OF inv(1)] by blast
  have "\<exists>y z. exec_step key x y \<and> exec_step key y z \<and>
      x_pc z t = Returned (map_sum id (\<lambda>v. (v, True)) res)" for res
  proof (intro exI conjI)
    let ?y = "set_pc u (Returned (map_sum id (\<lambda>v. (v, False)) res)) (close_call (TrimSpace (key u)) c res x)"
    show "exec_step key x ?y" by (rule exec_step.finish [OF u(1)])
    have "u \<noteq> t" using u(1) assms(2) by auto
    then have "x_pc ?y t = Waiting c" "x_calls ?y c = Some res"
      using assms(2) by (simp_all add: exec_state_defs)
    then show "exec_step key ?y (set_pc t (Returned (map_sum id (\<lambda>v. (v, True)) res)) ?y)"
      by (rule exec_step.wake)
  qed (simp add: set_pc_def)
  with u show ?thesis by blast
qed

section \<open>A run with two callers\<close>

text \<open>
  Goroutine 0 opens a call for the key, goroutine 1 joins it, the operation answers 7, and
  goroutine 1 wakes up with that answer.
\<close>

definition two_key :: "nat \<Rightarrow> string" where
  "two_key t = (if t = 0 then ''k'' else '' k '')"

definition two_joined :: "nat exec_state" where
  "two_joined = set_pc 1 (Waiting 0) (set_pc 0 (Owning 0) (open_call ''k'' exec_init))"

definition two_done :: "nat exec_state" where
  "two_done = set_pc 1 (Returned (Inr (7, True)))
     (set_pc 0 (Returned (Inr (7, False))) (close_call ''k'' 0 (Inr 7) two_joined))"

lemma two_key_trim [simp]: "TrimSpace (two_key t) = ''k''"
  by (simp add: two_key_def trim_defs)

lemma two_joined_reachable: "exec_reachable two_key two_joined"
proof -
  have "exec_step two_key exec_init (set_pc 0 (Owning 0) (open_call ''k'' exec_init))"
    using exec_step.own [of exec_init 0 two_key] by (simp add: exec_init_def)
  then have 1: "exec_reachable two_key (set_pc 0 (Owning 0) (open_call ''k'' exec_init))"
    by (rule exec_more [OF exec_start])
  have "exec_step two_key (set_pc 0 (Owning 0) (open_call ''k'' exec_init)) two_joined"
    unfolding two_joined_def by (rule exec_step.join) (simp_all add: exec_init_def exec_state_defs)
  with 1 show ?thesis by (rule exec_more)
qed

lemma two_done_reachable: "exec_reachable two_key two_done"
proof -
  have "exec_step two_key two_joined
      (set_pc 0 (Returned (Inr (7, False))) (close_call ''k'' 0 (Inr 7) two_joined))"
    using exec_step.finish [of two_joined 0 0 two_key "Inr 7"]
    by (simp add: two_joined_def set_pc_def)
  with two_joined_reachable
  have 3: "exec_reachable two_key (set_pc 0 (Returned (Inr (7, False))) (close_call ''k'' 0 (Inr 7) two_joined))"
    by (rule exec_more)
  have "exec_step two_key (set_pc 0 (Returned (Inr (7, False))) (close_call ''k'' 0 (Inr 7) two_joined)) two_done"
    using exec_step.wake [of "set_pc 0 (Returned (Inr (7, False))) (close_call ''k'' 0 (Inr 7) two_joined)" 1 0 "Inr 7" two_key]
    by (simp add: two_done_def two_joined_def exec_state_defs)
  with 3 show ?thesis by (rule exec_more)
qed

theorem execute_at_most_once_witness:
  "length (successes ''k'' (x_log two_done)) \<le> 1 \<and> fmlookup (x_entries two_done) ''k'' = Some 7"
  using execute_at_most_once [OF two_done_reachable, of "''k''"]
  by (simp add: two_done_def two_joined_def exec_state_defs exec_init_def)

theorem execute_agreement_witness:
  "x_pc two_done 0 = Returned (Inr (7, False)) \<and> x_pc two_done 1 = Returned (Inr (7, True)) \<and> (7::nat) = 7"
  using execute_agreement [OF two_done_reachable, of 0 1 7 False 7 True]
  by (simp add: two_done_def set_pc_def)

theorem execute_waiter_progress_witness:
  "x_pc two_joined 1 = Waiting 0 \<and>
   (\<exists>y z. exec_step two_key two_joined y \<and> exec_step two_key y z \<and> x_pc z 1 = Returned (Inr (9, True)))"
proof -
  have h: "x_pc two_joined 1 = Waiting 0" "x_calls two_joined 0 = None"
    by (simp_all add: two_joined_def exec_state_defs exec_init_def)
  from execute_waiter_progress [OF two_joined_reachable h(1)] h(2)
  obtain y z where "exec_step two_key two_joined y" "exec_step two_key y z"
    "x_pc z 1 = Returned (map_sum id (\<lambda>v. (v, True)) (Inr 9))" by fastforce
  with h show ?thesis by auto
qed

end
