(* ===== verification/Inventory_Repository.thy ===== *)
theory Inventory_Repository
  imports Inventory_Domain
begin

text \<open>
  The in-memory repository (internal/storage/memory/inventory_repository.go) and the
  interface it implements (internal/domain/inventory/repository.go). The maps hold pointers
  that no caller sees (every result is a clone), so each map is a finite map of values and an
  in-place update of an item is a map update. A method takes the repository lock before it
  reads or writes a map and holds it to the end, so each method is one atomic step. The
  clock's answer is an argument of the methods that read it, and the order in which a map is
  ranged over is an argument of the two listing methods.
\<close>

section \<open>inventory_repository.go\<close>

record StockSeed =
  seed_SKU :: string
  seed_AvailableQuantity :: go_int

definition DefaultStockSeed :: "StockSeed list" where
  "DefaultStockSeed =
     [\<lparr>seed_SKU = ''sku-red-mug'', seed_AvailableQuantity = 120\<rparr>,
      \<lparr>seed_SKU = ''sku-blue-notebook'', seed_AvailableQuantity = 80\<rparr>,
      \<lparr>seed_SKU = ''sku-black-bag'', seed_AvailableQuantity = 40\<rparr>]"

record InventoryRepository =
  stock :: "(string, StockItem) fmap"
  reservations :: "(string, Reservation) fmap"

fun seed_stock :: "StockSeed list \<Rightarrow> (string, StockItem) fmap \<Rightarrow> (string, StockItem) fmap result"
where
  "seed_stock [] m = Inr m"
| "seed_stock (seedItem # seed) m =
     (case NewStockItem (seed_SKU seedItem) (seed_AvailableQuantity seedItem) of
        Inl err \<Rightarrow> Inl (Wrapf [Lit ''seed stock item '', Quoted (seed_SKU seedItem), Lit '': ''] err [])
      | Inr item \<Rightarrow>
          (case fmlookup m (item_SKU item) of
             Some _ \<Rightarrow> Inl (Wrapf [] (Sentinel ErrInvalidArgument)
                         [Lit '': duplicate seed stock item '', Quoted (item_SKU item)])
           | None \<Rightarrow> seed_stock seed (fmupd (item_SKU item) item m)))"

text \<open>The service is a pointer, nil (\<open>None\<close>) or not; the clock it holds is an argument below.\<close>

definition NewInventoryRepository :: "unit option \<Rightarrow> StockSeed list \<Rightarrow> InventoryRepository result"
where
  "NewInventoryRepository service seed =
     (case service of
        None \<Rightarrow> Inl (wrap_text ErrInvalidArgument ''inventory service is required'')
      | Some _ \<Rightarrow>
          (case seed_stock seed fmempty of
             Inl err \<Rightarrow> Inl err
           | Inr m \<Rightarrow> Inr \<lparr>stock = m, reservations = fmempty\<rparr>))"

definition normalizedIdentifier :: "string \<Rightarrow> string \<Rightarrow> string result" where
  "normalizedIdentifier name value =
     (let value = TrimSpace value in
      if value = ''''
      then Inl (Wrapf [] (Sentinel ErrInvalidArgument) [Lit '': '', Lit name, Lit '' is required''])
      else Inr value)"

definition cloneStockItem :: "StockItem \<Rightarrow> StockItem" where
  "cloneStockItem item = item"

definition cloneReservation :: "Reservation \<Rightarrow> Reservation" where
  "cloneReservation reservation =
     (case ReleasedAt reservation of
        None \<Rightarrow> reservation
      | Some releasedAt \<Rightarrow> reservation\<lparr>ReleasedAt := Some releasedAt\<rparr>)"

definition InventoryRepository_SetStock ::
  "go_context \<Rightarrow> string \<Rightarrow> go_int \<Rightarrow> (StockItem, InventoryRepository) op" where
  "InventoryRepository_SetStock ctx sku availableQuantity r =
     (case ctx_Err ctx of
        Some err \<Rightarrow> (Inl err, r)
      | None \<Rightarrow>
     (case NewStockItem sku availableQuantity of
        Inl err \<Rightarrow> (Inl err, r)
      | Inr item \<Rightarrow>
          (let item = (case fmlookup (stock r) (item_SKU item) of
                         Some existingItem \<Rightarrow> item\<lparr>ReservedQuantity := ReservedQuantity existingItem\<rparr>
                       | None \<Rightarrow> item)
           in (Inr (cloneStockItem item), r\<lparr>stock := fmupd (item_SKU item) item (stock r)\<rparr>))))"

definition InventoryRepository_GetStock ::
  "go_context \<Rightarrow> string \<Rightarrow> (StockItem, InventoryRepository) op" where
  "InventoryRepository_GetStock ctx sku r =
     (case ctx_Err ctx of
        Some err \<Rightarrow> (Inl err, r)
      | None \<Rightarrow>
     (case normalizedIdentifier ''stock item SKU'' sku of
        Inl err \<Rightarrow> (Inl err, r)
      | Inr sku \<Rightarrow>
     (case fmlookup (stock r) sku of
        None \<Rightarrow> (Inl (Wrapf [] (Sentinel ErrStockItemNotFound) [Lit '': sku '', Quoted sku]), r)
      | Some item \<Rightarrow> (Inr (cloneStockItem item), r))))"

definition InventoryRepository_ListStock ::
  "go_context \<Rightarrow> string list \<Rightarrow> (StockItem list, InventoryRepository) op" where
  "InventoryRepository_ListStock ctx ranged r =
     (case ctx_Err ctx of
        Some err \<Rightarrow> (Inl err, r)
      | None \<Rightarrow>
          (Inr (sort_key item_SKU (map cloneStockItem (range_values (stock r) ranged))), r))"

definition InventoryRepository_Reserve ::
  "go_context \<Rightarrow> go_time \<Rightarrow> string \<Rightarrow> string \<Rightarrow> go_int \<Rightarrow> (Reservation, InventoryRepository) op" where
  "InventoryRepository_Reserve ctx now reservationID sku quantity r =
     (case ctx_Err ctx of
        Some err \<Rightarrow> (Inl err, r)
      | None \<Rightarrow>
     (case normalizedIdentifier ''reservation ID'' reservationID of
        Inl err \<Rightarrow> (Inl err, r)
      | Inr reservationID \<Rightarrow>
     (case normalizedIdentifier ''stock item SKU'' sku of
        Inl err \<Rightarrow> (Inl err, r)
      | Inr sku \<Rightarrow>
     (case fmlookup (reservations r) reservationID of
        Some _ \<Rightarrow> (Inl (Wrapf [] (Sentinel ErrReservationAlreadyExists)
                      [Lit '': reservation '', Quoted reservationID]), r)
      | None \<Rightarrow>
     (case fmlookup (stock r) sku of
        None \<Rightarrow> (Inl (Wrapf [] (Sentinel ErrStockItemNotFound) [Lit '': sku '', Quoted sku]), r)
      | Some item \<Rightarrow>
     (case Service_Reserve now (Some item) reservationID quantity of
        Inl err \<Rightarrow> (Inl err, r)
      | Inr (item', reservation) \<Rightarrow>
          (Inr (cloneReservation reservation),
           r\<lparr>stock := fmupd sku item' (stock r),
             reservations := fmupd (ID reservation) reservation (reservations r)\<rparr>)))))))"

definition InventoryRepository_Release ::
  "go_context \<Rightarrow> go_time \<Rightarrow> string \<Rightarrow> (Reservation, InventoryRepository) op" where
  "InventoryRepository_Release ctx now reservationID r =
     (case ctx_Err ctx of
        Some err \<Rightarrow> (Inl err, r)
      | None \<Rightarrow>
     (case normalizedIdentifier ''reservation ID'' reservationID of
        Inl err \<Rightarrow> (Inl err, r)
      | Inr reservationID \<Rightarrow>
     (case fmlookup (reservations r) reservationID of
        None \<Rightarrow> (Inl (Wrapf [] (Sentinel ErrReservationNotFound)
                   [Lit '': reservation '', Quoted reservationID]), r)
      | Some reservation \<Rightarrow>
     (case fmlookup (stock r) (res_SKU reservation) of
        None \<Rightarrow> (Inl (Wrapf [] (Sentinel ErrStockItemNotFound)
                   [Lit '': sku '', Quoted (res_SKU reservation)]), r)
      | Some item \<Rightarrow>
     (case Service_Release now (Some item) (Some reservation) of
        Inl err \<Rightarrow> (Inl err, r)
      | Inr (item', reservation') \<Rightarrow>
          (Inr (cloneReservation reservation'),
           r\<lparr>stock := fmupd (res_SKU reservation) item' (stock r),
             reservations := fmupd reservationID reservation' (reservations r)\<rparr>))))))"

definition InventoryRepository_GetReservation ::
  "go_context \<Rightarrow> string \<Rightarrow> (Reservation, InventoryRepository) op" where
  "InventoryRepository_GetReservation ctx reservationID r =
     (case ctx_Err ctx of
        Some err \<Rightarrow> (Inl err, r)
      | None \<Rightarrow>
     (case normalizedIdentifier ''reservation ID'' reservationID of
        Inl err \<Rightarrow> (Inl err, r)
      | Inr reservationID \<Rightarrow>
     (case fmlookup (reservations r) reservationID of
        None \<Rightarrow> (Inl (Wrapf [] (Sentinel ErrReservationNotFound)
                   [Lit '': reservation '', Quoted reservationID]), r)
      | Some reservation \<Rightarrow> (Inr (cloneReservation reservation), r))))"

definition InventoryRepository_ListReservations ::
  "go_context \<Rightarrow> string list \<Rightarrow> (Reservation list, InventoryRepository) op" where
  "InventoryRepository_ListReservations ctx ranged r =
     (case ctx_Err ctx of
        Some err \<Rightarrow> (Inl err, r)
      | None \<Rightarrow>
          (Inr (sort_key ID (map cloneReservation (range_values (reservations r) ranged))), r))"

lemma clone_id [simp]: "cloneStockItem i = i" "cloneReservation v = v"
  by (simp_all add: cloneStockItem_def cloneReservation_def split: option.splits)

lemma map_clone [simp]: "map cloneStockItem is = is" "map cloneReservation vs = vs"
  by (simp_all add: map_idI)

lemma normalizedIdentifier_Inr [simp]:
  "normalizedIdentifier name v = Inr w \<longleftrightarrow> w = TrimSpace v \<and> w \<noteq> ''''"
  by (auto simp: normalizedIdentifier_def Let_def)

lemma normalizedIdentifier_Inl:
  "normalizedIdentifier name v = Inl e \<Longrightarrow> errors_Is e ErrInvalidArgument \<and> TrimSpace v = ''''"
  by (auto simp: normalizedIdentifier_def Let_def split: if_splits)

lemmas repository_defs [erp_defs] =
  NewInventoryRepository_def InventoryRepository_SetStock_def InventoryRepository_GetStock_def
  InventoryRepository_ListStock_def InventoryRepository_Reserve_def
  InventoryRepository_Release_def InventoryRepository_GetReservation_def
  InventoryRepository_ListReservations_def
declare Let_def [erp_defs]

section \<open>Success and failure of each method\<close>

lemma SetStock_Inr:
  "InventoryRepository_SetStock ctx sku q r = (Inr i, r') \<longleftrightarrow>
     ctx_Err ctx = None \<and> TrimSpace sku \<noteq> '''' \<and> 0 \<le> sint q \<and>
     i = \<lparr>item_SKU = TrimSpace sku, AvailableQuantity = q,
          ReservedQuantity = (case fmlookup (stock r) (TrimSpace sku) of
             None \<Rightarrow> 0 | Some j \<Rightarrow> ReservedQuantity j)\<rparr> \<and>
     r' = r\<lparr>stock := fmupd (TrimSpace sku) i (stock r)\<rparr>"
  by (auto simp: InventoryRepository_SetStock_def NewStockItem_def Let_def
      split: option.splits if_splits)

lemma Reserve_Inr:
  "InventoryRepository_Reserve ctx now rid sku q r = (Inr v, r') \<longleftrightarrow>
     (\<exists>i i'. ctx_Err ctx = None \<and> TrimSpace rid \<noteq> '''' \<and> TrimSpace sku \<noteq> '''' \<and>
        fmlookup (reservations r) (TrimSpace rid) = None \<and>
        fmlookup (stock r) (TrimSpace sku) = Some i \<and>
        Service_Reserve now (Some i) (TrimSpace rid) q = Inr (i', v) \<and>
        r' = r\<lparr>stock := fmupd (TrimSpace sku) i' (stock r),
               reservations := fmupd (ID v) v (reservations r)\<rparr>)"
  by (auto simp: InventoryRepository_Reserve_def split: option.splits sum.splits prod.splits
      dest: normalizedIdentifier_Inl)

lemma Release_Inr:
  "InventoryRepository_Release ctx now rid r = (Inr v, r') \<longleftrightarrow>
     (\<exists>i i' w. ctx_Err ctx = None \<and> TrimSpace rid \<noteq> '''' \<and>
        fmlookup (reservations r) (TrimSpace rid) = Some w \<and>
        fmlookup (stock r) (res_SKU w) = Some i \<and>
        Service_Release now (Some i) (Some w) = Inr (i', v) \<and>
        r' = r\<lparr>stock := fmupd (res_SKU w) i' (stock r),
               reservations := fmupd (TrimSpace rid) v (reservations r)\<rparr>)"
  by (auto simp: InventoryRepository_Release_def split: option.splits sum.splits prod.splits
      dest: normalizedIdentifier_Inl)

text \<open>A method that reports an error leaves the maps as they were; the readers never change them.\<close>

lemma SetStock_Inl: "InventoryRepository_SetStock ctx sku q r = (Inl e, r') \<Longrightarrow> r' = r"
  by (auto simp: InventoryRepository_SetStock_def Let_def split: option.splits sum.splits)

lemma Reserve_Inl: "InventoryRepository_Reserve ctx now rid sku q r = (Inl e, r') \<Longrightarrow> r' = r"
  by (auto simp: InventoryRepository_Reserve_def split: option.splits sum.splits prod.splits)

lemma Release_Inl: "InventoryRepository_Release ctx now rid r = (Inl e, r') \<Longrightarrow> r' = r"
  by (auto simp: InventoryRepository_Release_def split: option.splits sum.splits prod.splits)

lemma reader_frame [simp]:
  "snd (InventoryRepository_GetStock ctx sku r) = r"
  "snd (InventoryRepository_GetReservation ctx rid r) = r"
  "snd (InventoryRepository_ListStock ctx ks r) = r"
  "snd (InventoryRepository_ListReservations ctx ks r) = r"
  by (simp_all add: repository_defs split: option.splits sum.splits)

section \<open>The ledger invariant\<close>

text \<open>
  The units an active reservation holds of a SKU, and their sum over the reservation map: as
  a machine word, and as an unbounded integer.
\<close>

definition held_units :: "string \<Rightarrow> Reservation \<Rightarrow> go_int" where
  "held_units sku v =
     (if res_SKU v = sku \<and> Status v = ReservationStatusActive then Quantity v else 0)"

definition active_units :: "InventoryRepository \<Rightarrow> string \<Rightarrow> go_int" where
  "active_units r sku = fmsum (held_units sku) (reservations r)"

definition active_units_int :: "InventoryRepository \<Rightarrow> string \<Rightarrow> int" where
  "active_units_int r sku = fmsum (\<lambda>v. sint (held_units sku v)) (reservations r)"

definition stock_entry_ok :: "InventoryRepository \<Rightarrow> string \<Rightarrow> StockItem \<Rightarrow> bool" where
  "stock_entry_ok r sku i \<longleftrightarrow>
     item_SKU i = sku \<and> TrimSpace sku = sku \<and> sku \<noteq> '''' \<and> ReservedQuantity i = active_units r sku"

definition reservation_entry_ok :: "InventoryRepository \<Rightarrow> string \<Rightarrow> Reservation \<Rightarrow> bool" where
  "reservation_entry_ok r rid v \<longleftrightarrow>
     ID v = rid \<and> TrimSpace rid = rid \<and> rid \<noteq> '''' \<and>
     fmlookup (stock r) (res_SKU v) \<noteq> None \<and> 0 < sint (Quantity v) \<and>
     (Status v = ReservationStatusActive \<and> ReleasedAt v = None \<or>
      Status v = ReservationStatusReleased \<and> ReleasedAt v \<noteq> None)"

definition repo_wf :: "InventoryRepository \<Rightarrow> bool" where
  "repo_wf r \<longleftrightarrow>
     (\<forall>sku i. fmlookup (stock r) sku = Some i \<longrightarrow> stock_entry_ok r sku i) \<and>
     (\<forall>rid v. fmlookup (reservations r) rid = Some v \<longrightarrow> reservation_entry_ok r rid v)"

lemma repo_wf_stockD: "repo_wf r \<Longrightarrow> fmlookup (stock r) sku = Some i \<Longrightarrow> stock_entry_ok r sku i"
  by (simp add: repo_wf_def)

lemma repo_wf_reservationD:
  "repo_wf r \<Longrightarrow> fmlookup (reservations r) rid = Some v \<Longrightarrow> reservation_entry_ok r rid v"
  by (simp add: repo_wf_def)

text \<open>A SKU that no reservation names holds no units.\<close>

lemma active_units_unknown:
  assumes "repo_wf r" and "fmlookup (stock r) sku = None"
  shows "active_units r sku = 0" and "active_units_int r sku = 0"
proof -
  have "held_units sku v = 0" if "fmlookup (reservations r) k = Some v" for k v
    using repo_wf_reservationD [OF assms(1) that] assms(2)
    by (auto simp: reservation_entry_ok_def held_units_def)
  then show "active_units r sku = 0" and "active_units_int r sku = 0"
    by (auto simp: active_units_def active_units_int_def fmsum_def split: option.splits
        intro!: sum.neutral)
qed

lemma SetStock_wf:
  assumes "repo_wf r" and "InventoryRepository_SetStock ctx sku q r = (Inr i, r')"
  shows "repo_wf r'"
proof -
  have "active_units r' = active_units r"
    using assms(2) by (auto simp: SetStock_Inr active_units_def fun_eq_iff)
  then show ?thesis
    using assms active_units_unknown(1) [OF assms(1), of "TrimSpace sku"]
    by (auto simp: SetStock_Inr repo_wf_def stock_entry_ok_def reservation_entry_ok_def
        split: option.splits)
qed

lemma Reserve_wf:
  assumes "repo_wf r" and "InventoryRepository_Reserve ctx now rid sku q r = (Inr v, r')"
  shows "repo_wf r'"
proof -
  from assms(2) obtain i i' where *: "fmlookup (reservations r) (TrimSpace rid) = None"
    "fmlookup (stock r) (TrimSpace sku) = Some i"
    "Service_Reserve now (Some i) (TrimSpace rid) q = Inr (i', v)"
    and r': "r' = r\<lparr>stock := fmupd (TrimSpace sku) i' (stock r),
               reservations := fmupd (ID v) v (reservations r)\<rparr>"
    by (auto simp: Reserve_Inr)
  have i: "stock_entry_ok r (TrimSpace sku) i" by (rule repo_wf_stockD [OF assms(1) *(2)])
  have "active_units r' k = active_units r k + (if k = TrimSpace sku then q else 0)" for k
    using * i by (simp add: r' active_units_def fmsum_upd Service_Reserve_Inr stock_entry_ok_def
        held_units_def)
  then show ?thesis
    using assms(1) * i
    by (auto simp: r' repo_wf_def stock_entry_ok_def reservation_entry_ok_def Service_Reserve_Inr)
qed

lemma Release_wf:
  assumes "repo_wf r" and "InventoryRepository_Release ctx now rid r = (Inr v, r')"
  shows "repo_wf r'"
proof -
  from assms(2) obtain i i' w where *: "fmlookup (reservations r) (TrimSpace rid) = Some w"
    "fmlookup (stock r) (res_SKU w) = Some i"
    "Service_Release now (Some i) (Some w) = Inr (i', v)"
    and r': "r' = r\<lparr>stock := fmupd (res_SKU w) i' (stock r),
               reservations := fmupd (TrimSpace rid) v (reservations r)\<rparr>"
    by (auto simp: Release_Inr)
  have i: "stock_entry_ok r (res_SKU w) i" by (rule repo_wf_stockD [OF assms(1) *(2)])
  have w: "reservation_entry_ok r (TrimSpace rid) w"
    by (rule repo_wf_reservationD [OF assms(1) *(1)])
  have "active_units r' k = active_units r k - (if k = res_SKU w then Quantity w else 0)" for k
    using * by (auto simp: r' active_units_def fmsum_upd Service_Release_Inr held_units_def)
  then show ?thesis
    using assms(1) * i w
    by (auto simp: r' repo_wf_def stock_entry_ok_def reservation_entry_ok_def Service_Release_Inr)
qed

section \<open>Bounded stock\<close>

text \<open>
  The word equation of \<open>repo_wf\<close> holds even after the counters wrap around. Where the
  available and the reserved units of every SKU fit into an \<open>int\<close> together, nothing wraps and
  the equation holds for the integers.
\<close>

definition stock_fits :: "StockItem \<Rightarrow> bool" where
  "stock_fits i \<longleftrightarrow> 0 \<le> sint (AvailableQuantity i) \<and> 0 \<le> sint (ReservedQuantity i) \<and>
     sint (AvailableQuantity i) + sint (ReservedQuantity i) \<le> max_int64"

definition repo_bounded :: "InventoryRepository \<Rightarrow> bool" where
  "repo_bounded r \<longleftrightarrow> (\<forall>sku i. fmlookup (stock r) sku = Some i \<longrightarrow>
     stock_fits i \<and> sint (ReservedQuantity i) = active_units_int r sku)"

definition repo_ok :: "InventoryRepository \<Rightarrow> bool" where
  "repo_ok r \<longleftrightarrow> repo_wf r \<and> repo_bounded r"

text \<open>What a new available quantity must satisfy for the stock to stay bounded.\<close>

definition set_stock_fits :: "InventoryRepository \<Rightarrow> string \<Rightarrow> go_int \<Rightarrow> bool" where
  "set_stock_fits r sku q \<longleftrightarrow> sint q + active_units_int r (TrimSpace sku) \<le> max_int64"

lemma repo_bounded_stockD:
  "repo_bounded r \<Longrightarrow> fmlookup (stock r) sku = Some i \<Longrightarrow>
     stock_fits i \<and> sint (ReservedQuantity i) = active_units_int r sku"
  by (simp add: repo_bounded_def)

lemma repo_bounded_valid:
  assumes "repo_ok r" and "fmlookup (stock r) sku = Some i"
  shows "StockItem_validate (Some i) = None"
  using assms repo_wf_stockD [of r sku i] repo_bounded_stockD [of r sku i]
  by (auto simp: repo_ok_def stock_fits_def stock_entry_ok_def)

lemma reservation_entry_valid:
  assumes "repo_wf r" and "fmlookup (reservations r) rid = Some v"
  shows "Reservation_validate (Some v) = None"
  using assms repo_wf_reservationD [OF assms] repo_wf_stockD [OF assms(1), of "res_SKU v"]
  by (auto simp: reservation_entry_ok_def stock_entry_ok_def)

lemma held_units_nonneg:
  "repo_wf r \<Longrightarrow> fmlookup (reservations r) rid = Some v \<Longrightarrow> 0 \<le> sint (held_units sku v)"
  using repo_wf_reservationD [of r rid v] by (auto simp: reservation_entry_ok_def held_units_def)

text \<open>No active reservation holds more than the reserved counter of its SKU.\<close>

lemma active_reservation_covered:
  assumes "repo_ok r" and "fmlookup (reservations r) rid = Some v"
    and "Status v = ReservationStatusActive" and "fmlookup (stock r) (res_SKU v) = Some i"
  shows "sint (Quantity v) \<le> sint (ReservedQuantity i)"
proof -
  have "sint (held_units (res_SKU v) v) \<le> active_units_int r (res_SKU v)"
    unfolding active_units_int_def using assms(1,2)
    by (intro fmsum_member_le) (auto simp: repo_ok_def held_units_nonneg)
  with assms repo_bounded_stockD [of r "res_SKU v" i] show ?thesis
    by (simp add: repo_ok_def held_units_def)
qed

lemma SetStock_ok:
  assumes "repo_ok r" and "set_stock_fits r sku q"
    and "InventoryRepository_SetStock ctx sku q r = (Inr i, r')"
  shows "repo_ok r'"
proof -
  have same: "active_units_int r' = active_units_int r"
    using assms(3) by (auto simp: SetStock_Inr active_units_int_def fun_eq_iff)
  have i: "stock_fits i \<and> sint (ReservedQuantity i) = active_units_int r (TrimSpace sku)"
  proof (cases "fmlookup (stock r) (TrimSpace sku)")
    case None
    with assms active_units_unknown(2) [OF _ None] show ?thesis
      by (simp add: SetStock_Inr stock_fits_def set_stock_fits_def repo_ok_def)
  next
    case (Some j)
    with assms repo_bounded_stockD [OF _ Some] show ?thesis
      by (simp add: SetStock_Inr stock_fits_def set_stock_fits_def repo_ok_def)
  qed
  have "repo_bounded r'"
    unfolding repo_bounded_def
  proof (intro allI impI)
    fix k j assume "fmlookup (stock r') k = Some j"
    then show "stock_fits j \<and> sint (ReservedQuantity j) = active_units_int r' k"
      using assms(1,3) i same
      by (cases "k = TrimSpace sku") (auto simp: SetStock_Inr repo_ok_def dest: repo_bounded_stockD)
  qed
  then show ?thesis using assms(1,3) by (auto simp: repo_ok_def intro: SetStock_wf)
qed

lemma Reserve_ok:
  assumes "repo_ok r" and "InventoryRepository_Reserve ctx now rid sku q r = (Inr v, r')"
  shows "repo_ok r'"
proof -
  from assms(2) obtain i i' where *: "fmlookup (reservations r) (TrimSpace rid) = None"
    "fmlookup (stock r) (TrimSpace sku) = Some i"
    "Service_Reserve now (Some i) (TrimSpace rid) q = Inr (i', v)"
    and r': "r' = r\<lparr>stock := fmupd (TrimSpace sku) i' (stock r),
               reservations := fmupd (ID v) v (reservations r)\<rparr>"
    by (auto simp: Reserve_Inr)
  have i: "item_SKU i = TrimSpace sku" "stock_fits i"
    "sint (ReservedQuantity i) = active_units_int r (TrimSpace sku)"
    using assms(1) *(2) repo_wf_stockD [of r] repo_bounded_stockD [of r]
    by (auto simp: repo_ok_def stock_entry_ok_def)
  have sums: "active_units_int r' k =
      active_units_int r k + (if k = TrimSpace sku then sint q else 0)" for k
    using * i by (simp add: r' active_units_int_def fmsum_upd Service_Reserve_Inr held_units_def)
  have q: "0 < sint q" "sint q \<le> sint (AvailableQuantity i)"
    using *(3) by (auto simp: Service_Reserve_Inr)
  have "sint (AvailableQuantity i - q) = sint (AvailableQuantity i) - sint q"
    "sint (ReservedQuantity i + q) = sint (ReservedQuantity i) + sint q"
    using i(2) q by (auto simp: stock_fits_def intro!: sint_plus_exact sint_minus_exact)
  then have "stock_fits i'" "sint (ReservedQuantity i') = active_units_int r' (TrimSpace sku)"
    using *(3) i q sums by (auto simp: Service_Reserve_Inr stock_fits_def)
  moreover have "repo_wf r'" using assms by (auto simp: repo_ok_def intro: Reserve_wf)
  ultimately show ?thesis
    using assms(1) sums by (auto simp: repo_ok_def repo_bounded_def r')
qed

lemma Release_ok:
  assumes "repo_ok r" and "InventoryRepository_Release ctx now rid r = (Inr v, r')"
  shows "repo_ok r'"
proof -
  from assms(2) obtain i i' w where *: "fmlookup (reservations r) (TrimSpace rid) = Some w"
    "fmlookup (stock r) (res_SKU w) = Some i"
    "Service_Release now (Some i) (Some w) = Inr (i', v)"
    and r': "r' = r\<lparr>stock := fmupd (res_SKU w) i' (stock r),
               reservations := fmupd (TrimSpace rid) v (reservations r)\<rparr>"
    by (auto simp: Release_Inr)
  have i: "stock_fits i" "sint (ReservedQuantity i) = active_units_int r (res_SKU w)"
    using assms(1) *(2) repo_bounded_stockD [of r] by (auto simp: repo_ok_def)
  have w: "0 < sint (Quantity w)" "sint (Quantity w) \<le> sint (ReservedQuantity i)"
    using assms(1) *(1,3) repo_wf_reservationD [of r "TrimSpace rid" w]
    by (auto simp: repo_ok_def reservation_entry_ok_def Service_Release_Inr)
  have sums: "active_units_int r' k =
      active_units_int r k - (if k = res_SKU w then sint (Quantity w) else 0)" for k
    using * by (auto simp: r' active_units_int_def fmsum_upd Service_Release_Inr held_units_def)
  have "sint (AvailableQuantity i + Quantity w) = sint (AvailableQuantity i) + sint (Quantity w)"
    "sint (ReservedQuantity i - Quantity w) = sint (ReservedQuantity i) - sint (Quantity w)"
    using i(1) w by (auto simp: stock_fits_def intro!: sint_plus_exact sint_minus_exact)
  then have "stock_fits i'" "sint (ReservedQuantity i') = active_units_int r' (res_SKU w)"
    using *(3) i w sums by (auto simp: Service_Release_Inr stock_fits_def)
  moreover have "repo_wf r'" using assms by (auto simp: repo_ok_def intro: Release_wf)
  ultimately show ?thesis
    using assms(1) sums by (auto simp: repo_ok_def repo_bounded_def r')
qed

section \<open>Construction\<close>

lemma seed_stock_Inr:
  assumes "seed_stock seed m = Inr m'"
    and "\<And>sku i. fmlookup m sku = Some i \<Longrightarrow>
      item_SKU i = sku \<and> TrimSpace sku = sku \<and> sku \<noteq> '''' \<and> 0 \<le> sint (AvailableQuantity i) \<and>
      ReservedQuantity i = 0"
    and "fmlookup m' sku = Some i"
  shows "item_SKU i = sku \<and> TrimSpace sku = sku \<and> sku \<noteq> '''' \<and>
    0 \<le> sint (AvailableQuantity i) \<and> ReservedQuantity i = 0"
  using assms
proof (induction seed arbitrary: m)
  case (Cons s seed)
  from Cons.prems(1) obtain j where "NewStockItem (seed_SKU s) (seed_AvailableQuantity s) = Inr j"
    "seed_stock seed (fmupd (item_SKU j) j m) = Inr m'"
    by (auto split: sum.splits option.splits)
  with Cons.prems(2,3) show ?case
    by (intro Cons.IH [of "fmupd (item_SKU j) j m"]) (auto simp: NewStockItem_Inr split: if_splits)
qed simp

lemma NewInventoryRepository_ok:
  assumes "NewInventoryRepository service seed = Inr r"
  shows "repo_ok r"
proof -
  from assms obtain m where m: "seed_stock seed fmempty = Inr m"
    and r: "r = \<lparr>stock = m, reservations = fmempty\<rparr>"
    by (auto simp: NewInventoryRepository_def split: option.splits sum.splits)
  have "item_SKU i = sku \<and> TrimSpace sku = sku \<and> sku \<noteq> '''' \<and>
      0 \<le> sint (AvailableQuantity i) \<and> ReservedQuantity i = 0" if "fmlookup m sku = Some i" for sku i
    by (rule seed_stock_Inr [OF m _ that]) simp
  then show ?thesis
    by (auto simp: r repo_ok_def repo_wf_def repo_bounded_def stock_entry_ok_def stock_fits_def
        active_units_def active_units_int_def)
qed

text \<open>
  A step of the repository is one call of a mutating method, with any arguments, clock and
  context; since the lock is held from the first read to the last write, any interleaving of
  callers is a sequence of such steps.
\<close>

inductive repo_step :: "InventoryRepository \<Rightarrow> InventoryRepository \<Rightarrow> bool" where
  step_set_stock: "InventoryRepository_SetStock ctx sku q r = (res, r') \<Longrightarrow> repo_step r r'"
| step_reserve: "InventoryRepository_Reserve ctx now rid sku q r = (res, r') \<Longrightarrow> repo_step r r'"
| step_release: "InventoryRepository_Release ctx now rid r = (res, r') \<Longrightarrow> repo_step r r'"

inductive repo_reachable :: "InventoryRepository \<Rightarrow> bool" where
  reach_new: "NewInventoryRepository service seed = Inr r \<Longrightarrow> repo_reachable r"
| reach_step: "repo_reachable r \<Longrightarrow> repo_step r r' \<Longrightarrow> repo_reachable r'"

lemma repo_step_wf: "repo_step r r' \<Longrightarrow> repo_wf r \<Longrightarrow> repo_wf r'"
proof (induction rule: repo_step.induct)
  case (step_set_stock ctx sku q r res r')
  then show ?case by (cases res) (auto dest: SetStock_Inl SetStock_wf)
next
  case (step_reserve ctx now rid sku q r res r')
  then show ?case by (cases res) (auto dest: Reserve_Inl Reserve_wf)
next
  case (step_release ctx now rid r res r')
  then show ?case by (cases res) (auto dest: Release_Inl Release_wf)
qed

lemma repo_reachable_wf: "repo_reachable r \<Longrightarrow> repo_wf r"
  by (induction rule: repo_reachable.induct)
    (auto dest: NewInventoryRepository_ok repo_step_wf simp: repo_ok_def)

section \<open>The contract of \<open>inventory.Repository\<close>\<close>

text \<open>
  What the clients of the interface rely on: an invariant that every method keeps, failed
  calls that change nothing, reads that see the last write, and a reservation that can be made
  once and released once. A new quantity has to satisfy \<open>fits\<close>.
\<close>

locale inventory_contract =
  fixes inv :: "'s \<Rightarrow> bool"
    and fits :: "'s \<Rightarrow> string \<Rightarrow> go_int \<Rightarrow> bool"
    and set_stock :: "go_context \<Rightarrow> string \<Rightarrow> go_int \<Rightarrow> (StockItem, 's) op"
    and get_stock :: "go_context \<Rightarrow> string \<Rightarrow> (StockItem, 's) op"
    and reserve :: "go_context \<Rightarrow> go_time \<Rightarrow> string \<Rightarrow> string \<Rightarrow> go_int \<Rightarrow> (Reservation, 's) op"
    and release :: "go_context \<Rightarrow> go_time \<Rightarrow> string \<Rightarrow> (Reservation, 's) op"
    and get_reservation :: "go_context \<Rightarrow> string \<Rightarrow> (Reservation, 's) op"
  assumes set_stock_keeps: "inv s \<Longrightarrow> fits s sku n \<Longrightarrow> inv (snd (set_stock ctx sku n s))"
    and reserve_keeps: "inv s \<Longrightarrow> inv (snd (reserve ctx now rid sku n s))"
    and release_keeps: "inv s \<Longrightarrow> inv (snd (release ctx now rid s))"
    and reserve_failed: "reserve ctx now rid sku n s = (Inl e, s') \<Longrightarrow> s' = s"
    and release_failed: "release ctx now rid s = (Inl e, s') \<Longrightarrow> s' = s"
    and set_stock_seen: "set_stock ctx sku n s = (Inr i, s') \<Longrightarrow>
      get_stock Background sku s' = (Inr i, s')"
    and reserve_seen: "inv s \<Longrightarrow> reserve ctx now rid sku n s = (Inr v, s') \<Longrightarrow>
      get_reservation Background rid s' = (Inr v, s') \<and> Status v = ReservationStatusActive"
    and release_seen: "inv s \<Longrightarrow> release ctx now rid s = (Inr v, s') \<Longrightarrow>
      get_reservation Background rid s' = (Inr v, s') \<and> Status v = ReservationStatusReleased"
    and reserve_taken: "get_reservation Background rid s = (Inr v, s) \<Longrightarrow>
      ctx_Err ctx = None \<Longrightarrow> TrimSpace sku \<noteq> '''' \<Longrightarrow>
      \<exists>e. reserve ctx now rid sku n s = (Inl e, s) \<and> errors_Is e ErrReservationAlreadyExists"
    and release_taken: "inv s \<Longrightarrow> get_reservation Background rid s = (Inr v, s) \<Longrightarrow>
      Status v = ReservationStatusReleased \<Longrightarrow> ctx_Err ctx = None \<Longrightarrow>
      \<exists>e. release ctx now rid s = (Inl e, s) \<and> errors_Is e ErrReservationNotActive"
    and release_active: "inv s \<Longrightarrow> get_reservation Background rid s = (Inr v, s) \<Longrightarrow>
      Status v = ReservationStatusActive \<Longrightarrow> ctx_Err ctx = None \<Longrightarrow>
      \<exists>w s'. release ctx now rid s = (Inr w, s')"
begin

text \<open>A second attempt to reserve the same identifier is refused and changes nothing.\<close>

lemma reserve_twice:
  assumes "inv s" and "reserve ctx now rid sku n s = (Inr v, s')"
    and "ctx_Err ctx' = None" and "TrimSpace sku' \<noteq> ''''"
  shows "\<exists>e. reserve ctx' now' rid sku' n' s' = (Inl e, s') \<and> errors_Is e ErrReservationAlreadyExists"
  using reserve_seen [OF assms(1,2)] reserve_taken [OF _ assms(3,4)] by blast

text \<open>A reservation can be released, and then not again.\<close>

lemma reserve_release_release:
  assumes "inv s" and "reserve ctx now rid sku n s = (Inr v, s')" and "ctx_Err ctx' = None"
    and "ctx_Err ctx'' = None"
  shows "\<exists>w s'' e. release ctx' now' rid s' = (Inr w, s'') \<and>
    Status w = ReservationStatusReleased \<and>
    release ctx'' now'' rid s'' = (Inl e, s'') \<and> errors_Is e ErrReservationNotActive"
proof -
  have "inv s'" using reserve_keeps [OF assms(1), of ctx now rid sku n] assms(2) by simp
  moreover from reserve_seen [OF assms(1,2)] obtain w s'' where w: "release ctx' now' rid s' = (Inr w, s'')"
    using release_active [OF \<open>inv s'\<close> _ _ assms(3)] by blast
  moreover have "inv s''" using release_keeps [OF \<open>inv s'\<close>, of ctx' now' rid] w by simp
  ultimately show ?thesis
    using release_seen [OF \<open>inv s'\<close> w] release_taken [OF \<open>inv s''\<close> _ _ assms(4)] by blast
qed

end

lemma GetReservation_Inr:
  "InventoryRepository_GetReservation ctx rid r = (Inr v, r') \<longleftrightarrow>
     ctx_Err ctx = None \<and> TrimSpace rid \<noteq> '''' \<and>
     fmlookup (reservations r) (TrimSpace rid) = Some v \<and> r' = r"
  by (auto simp: InventoryRepository_GetReservation_def split: option.splits sum.splits
      dest: normalizedIdentifier_Inl)

lemma GetStock_Inr:
  "InventoryRepository_GetStock ctx sku r = (Inr i, r') \<longleftrightarrow>
     ctx_Err ctx = None \<and> TrimSpace sku \<noteq> '''' \<and>
     fmlookup (stock r) (TrimSpace sku) = Some i \<and> r' = r"
  by (auto simp: InventoryRepository_GetStock_def split: option.splits sum.splits
      dest: normalizedIdentifier_Inl)

text \<open>The error branches of \<open>Reserve\<close> and \<open>Release\<close>, in the order the code tests them.\<close>

lemma Reserve_duplicate:
  assumes "ctx_Err ctx = None" and "TrimSpace rid \<noteq> ''''" and "TrimSpace sku \<noteq> ''''"
    and "fmlookup (reservations r) (TrimSpace rid) = Some v"
  shows "InventoryRepository_Reserve ctx now rid sku q r =
    (Inl (Wrapf [] (Sentinel ErrReservationAlreadyExists)
       [Lit '': reservation '', Quoted (TrimSpace rid)]), r)"
  using assms by (simp add: InventoryRepository_Reserve_def normalizedIdentifier_def)

lemma Release_entry:
  assumes "repo_ok r" and "ctx_Err ctx = None" and "TrimSpace rid \<noteq> ''''"
    and v: "fmlookup (reservations r) (TrimSpace rid) = Some v"
  obtains i where "fmlookup (stock r) (res_SKU v) = Some i" and "stock_fits i" and
    "InventoryRepository_Release ctx now rid r =
      (if Status v \<noteq> ReservationStatusActive then (Inl (Sentinel ErrReservationNotActive), r)
       else (Inr (v\<lparr>Status := ReservationStatusReleased, ReleasedAt := Some (UTC now)\<rparr>),
             r\<lparr>stock := fmupd (res_SKU v)
                   (i\<lparr>AvailableQuantity := AvailableQuantity i + Quantity v,
                      ReservedQuantity := ReservedQuantity i - Quantity v\<rparr>) (stock r),
               reservations := fmupd (TrimSpace rid)
                   (v\<lparr>Status := ReservationStatusReleased, ReleasedAt := Some (UTC now)\<rparr>)
                   (reservations r)\<rparr>))"
proof -
  have wf: "repo_wf r" using assms(1) by (simp add: repo_ok_def)
  obtain i where i: "fmlookup (stock r) (res_SKU v) = Some i"
    using repo_wf_reservationD [OF wf v] by (auto simp: reservation_entry_ok_def)
  have sku: "item_SKU i = res_SKU v"
    using repo_wf_stockD [OF wf i] by (simp add: stock_entry_ok_def)
  have fits: "stock_fits i"
    using repo_bounded_stockD [OF _ i] assms(1) by (simp add: repo_ok_def)
  note valid = repo_bounded_valid [OF assms(1) i] reservation_entry_valid [OF wf v]
  show thesis
  proof (cases "Status v = ReservationStatusActive")
    case True
    then have "Service_Release now (Some i) (Some v) =
        Inr (i\<lparr>AvailableQuantity := AvailableQuantity i + Quantity v,
               ReservedQuantity := ReservedQuantity i - Quantity v\<rparr>,
             v\<lparr>Status := ReservationStatusReleased, ReleasedAt := Some (UTC now)\<rparr>)"
      using sku valid active_reservation_covered [OF assms(1) v True i]
      by (simp add: Service_Release_Inr)
    with True assms(2-4) i fits show thesis
      by (intro that) (simp_all add: InventoryRepository_Release_def normalizedIdentifier_def)
  next
    case False
    then have "Service_Release now (Some i) (Some v) = Inl (Sentinel ErrReservationNotActive)"
      using valid by (simp add: Service_Release_def del: StockItem_validate.simps Reservation_validate.simps)
    with False assms(2-4) i fits show thesis
      by (intro that) (simp_all add: InventoryRepository_Release_def normalizedIdentifier_def)
  qed
qed

interpretation memory_repository: inventory_contract repo_ok set_stock_fits
  InventoryRepository_SetStock InventoryRepository_GetStock InventoryRepository_Reserve
  InventoryRepository_Release InventoryRepository_GetReservation
proof (unfold_locales, goal_cases)
  case (1 s sku n ctx)
  then show ?case
    by (cases "InventoryRepository_SetStock ctx sku n s"; cases "fst (InventoryRepository_SetStock ctx sku n s)")
      (auto dest: SetStock_Inl SetStock_ok)
next
  case (2 s ctx now rid sku n)
  then show ?case
    by (cases "InventoryRepository_Reserve ctx now rid sku n s";
        cases "fst (InventoryRepository_Reserve ctx now rid sku n s)")
      (auto dest: Reserve_Inl Reserve_ok)
next
  case (3 s ctx now rid)
  then show ?case
    by (cases "InventoryRepository_Release ctx now rid s";
        cases "fst (InventoryRepository_Release ctx now rid s)")
      (auto dest: Release_Inl Release_ok)
next
  case 4 then show ?case by (rule Reserve_Inl)
next
  case 5 then show ?case by (rule Release_Inl)
next
  case 6 then show ?case by (auto simp: SetStock_Inr GetStock_Inr)
next
  case 7 then show ?case by (auto simp: Reserve_Inr GetReservation_Inr Service_Reserve_Inr)
next
  case 8 then show ?case by (auto simp: Release_Inr GetReservation_Inr Service_Release_Inr)
next
  case (9 rid s v ctx sku now n)
  then show ?case by (auto simp: GetReservation_Inr Reserve_duplicate)
next
  case (10 s rid v ctx now)
  then show ?case by (auto simp: GetReservation_Inr elim!: Release_entry [of s ctx rid v now])
next
  case (11 s rid v ctx now)
  then show ?case by (auto simp: GetReservation_Inr elim!: Release_entry [of s ctx rid v now])
qed

end
