(* ===== verification/Failure_Mode.thy ===== *)
theory Failure_Mode
  imports Erp_Errors
begin

text \<open>
  The failure-mode controller (internal/app/failure_mode.go): the settings of the sandbox
  simulation, their validation, and the controller that holds the validated ones behind a
  read-write lock. \<open>Get\<close> and \<open>Set\<close> are atomic.
\<close>

type_synonym FailureMode = string

abbreviation FailureModeNormal :: FailureMode where "FailureModeNormal \<equiv> ''normal''"
abbreviation FailureModeAlwaysReject :: FailureMode where "FailureModeAlwaysReject \<equiv> ''always_reject''"
abbreviation FailureModeRandomReject :: FailureMode where "FailureModeRandomReject \<equiv> ''random_reject''"
abbreviation FailureModeProcessingDelay :: FailureMode where "FailureModeProcessingDelay \<equiv> ''processing_delay''"
abbreviation FailureModePublishFailure :: FailureMode where "FailureModePublishFailure \<equiv> ''publish_failure''"
abbreviation FailureModeDuplicateResponse :: FailureMode where "FailureModeDuplicateResponse \<equiv> ''duplicate_response''"

record FailureModeSettings =
  Mode :: FailureMode
  RandomRejectProbability :: float64
  ProcessingDelay :: duration

record FailureModeController =
  settings :: FailureModeSettings

definition NewFailureModeController :: FailureModeController where
  "NewFailureModeController =
     \<lparr>settings = \<lparr>Mode = FailureModeNormal, RandomRejectProbability = Finite 0, ProcessingDelay = 0\<rparr>\<rparr>"

definition FailureModeController_Get :: "FailureModeController \<Rightarrow> FailureModeSettings" where
  "FailureModeController_Get c = settings c"

definition validateFailureModeSettings :: "FailureModeSettings \<Rightarrow> go_error option" where
  "validateFailureModeSettings s =
     (if Mode s \<in> {FailureModeNormal, FailureModeAlwaysReject, FailureModePublishFailure,
                   FailureModeDuplicateResponse}
      then None
      else if Mode s = FailureModeRandomReject
      then (if float_le (RandomRejectProbability s) (Finite 0) \<or>
               float_less (Finite 1) (RandomRejectProbability s)
            then Some (Errorf [Lit ''random reject probability must be greater than 0 and less than or equal to 1''])
            else None)
      else if Mode s = FailureModeProcessingDelay
      then (if sint (ProcessingDelay s) \<le> 0
            then Some (Errorf [Lit ''processing delay must be positive''])
            else None)
      else Some (Errorf [Lit ''unsupported failure mode '', Quoted (Mode s)]))"

definition FailureModeController_Set ::
  "FailureModeSettings \<Rightarrow> FailureModeController \<Rightarrow> go_error option \<times> FailureModeController" where
  "FailureModeController_Set s c =
     (case validateFailureModeSettings s of
        Some err \<Rightarrow> (Some err, c)
      | None \<Rightarrow> (None, c\<lparr>settings := s\<rparr>))"

lemmas failure_mode_defs [erp_defs] =
  NewFailureModeController_def FailureModeController_Get_def validateFailureModeSettings_def
  FailureModeController_Set_def

text \<open>
  The controllers that the program can hold: a new one, and any one after a call of \<open>Set\<close>.
\<close>

inductive controller_reachable :: "FailureModeController \<Rightarrow> bool" where
  controller_new: "controller_reachable NewFailureModeController"
| controller_set: "controller_reachable c \<Longrightarrow> controller_reachable (snd (FailureModeController_Set s c))"

lemma controller_validated:
  "controller_reachable c \<Longrightarrow> validateFailureModeSettings (settings c) = None"
proof (induction rule: controller_reachable.induct)
  case controller_new
  show ?case by (simp add: NewFailureModeController_def validateFailureModeSettings_def)
next
  case (controller_set c s)
  then show ?case by (simp add: FailureModeController_Set_def split: option.split)
qed

lemma random_probability_accepted:
  "\<not> float_le x (Finite 0) \<Longrightarrow> \<not> float_less (Finite 1) x \<Longrightarrow>
     x = NaN \<or> (\<exists>p. x = Finite p \<and> 0 < p \<and> p \<le> 1)"
  by (cases x) (auto simp: float_le_def)

text \<open>
  Property C24. The active settings are always valid: after any sequence of \<open>Set\<close> calls,
  accepted or refused, the mode is one of the six documented ones; under \<open>random_reject\<close> the
  probability, if it is a number, lies in (0, 1]; under \<open>processing_delay\<close> the delay is
  positive.
\<close>

theorem controller_settings_valid:
  assumes "controller_reachable c"
  shows "Mode (FailureModeController_Get c) \<in> {FailureModeNormal, FailureModeAlwaysReject,
      FailureModeRandomReject, FailureModeProcessingDelay, FailureModePublishFailure,
      FailureModeDuplicateResponse} \<and>
    (Mode (FailureModeController_Get c) = FailureModeRandomReject \<longrightarrow>
      RandomRejectProbability (FailureModeController_Get c) = NaN \<or>
      (\<exists>p. RandomRejectProbability (FailureModeController_Get c) = Finite p \<and> 0 < p \<and> p \<le> 1)) \<and>
    (Mode (FailureModeController_Get c) = FailureModeProcessingDelay \<longrightarrow>
      0 < sint (ProcessingDelay (FailureModeController_Get c)))"
proof -
  have v: "validateFailureModeSettings (settings c) = None"
    by (rule controller_validated [OF assms])
  then show ?thesis
    using random_probability_accepted [of "RandomRejectProbability (settings c)"]
    unfolding validateFailureModeSettings_def FailureModeController_Get_def
    by (simp split: if_split_asm) (elim disjE; simp)
qed

theorem controller_settings_valid_witness:
  "Mode (FailureModeController_Get (snd (FailureModeController_Set
      \<lparr>Mode = ''random_reject'', RandomRejectProbability = Finite (1/4), ProcessingDelay = 0\<rparr>
      NewFailureModeController))) = FailureModeRandomReject"
proof -
  let ?s = "\<lparr>Mode = ''random_reject'', RandomRejectProbability = Finite (1/4), ProcessingDelay = 0\<rparr>"
  have "FailureModeController_Set ?s NewFailureModeController = (None, \<lparr>settings = ?s\<rparr>)"
    by (simp add: failure_mode_defs float_le_def)
  with controller_settings_valid [OF controller_set [OF controller_new, of ?s]]
  show ?thesis by (simp add: FailureModeController_Get_def)
qed

end
