(* ===== verification/Reservation_Handlers.thy ===== *)
theory Reservation_Handlers
  imports Inventory_Repository Idempotency_Store Failure_Mode
begin

text \<open>
  The reservation request handlers (internal/app/inventory_reservation.go and the reservation
  half of failure_simulation.go). A handler is a function from a context and a request to an
  operation on its state: the store it was built with paired with the state of what it calls.
  The interfaces a handler holds (the store's \<open>Execute\<close>, the repository's \<open>Reserve\<close>, another
  handler) are arguments. The locale \<open>reservation_request_handler\<close> is the contract of the Go
  interface of that name; both handlers are shown to meet it, for any store and repository
  that meet theirs.
\<close>

section \<open>inventory_reservation.go\<close>

record MessageMetadata =
  MessageID :: string
  CorrelationID :: string
  CausationID :: string
  IdempotencyKey :: string
  OccurredAt :: go_time
  SchemaVersion :: go_int
  RetryCount :: go_int

record ReservationRequest =
  req_Metadata :: MessageMetadata
  ReservationID :: string
  OrderID :: string
  req_SKU :: string
  req_Quantity :: go_int

type_synonym ReservationDecision = string

abbreviation ReservationDecisionConfirmed :: ReservationDecision where
  "ReservationDecisionConfirmed \<equiv> ''confirmed''"

abbreviation ReservationDecisionRejected :: ReservationDecision where
  "ReservationDecisionRejected \<equiv> ''rejected''"

abbreviation ReservationRejectionReasonInsufficientStock :: string where
  "ReservationRejectionReasonInsufficientStock \<equiv> ''INSUFFICIENT_STOCK''"

abbreviation ReservationRejectionReasonFailureMode :: string where
  "ReservationRejectionReasonFailureMode \<equiv> ''FAILURE_MODE''"

record ReservationResult =
  Decision :: ReservationDecision
  IdempotencyHit :: bool
  Request :: ReservationRequest
  result_Reservation :: Reservation
  RejectionReason :: string

definition zero_Reservation :: Reservation where
  "zero_Reservation = \<lparr>ID = '''', res_SKU = '''', Quantity = 0, Status = '''',
     CreatedAt = zero_time, ReleasedAt = None\<rparr>"

definition sameReservationRequest :: "ReservationRequest \<Rightarrow> ReservationRequest \<Rightarrow> bool" where
  "sameReservationRequest left right \<longleftrightarrow>
     ReservationID left = ReservationID right \<and> OrderID left = OrderID right \<and>
     req_SKU left = req_SKU right \<and> req_Quantity left = req_Quantity right"

definition idempotency_conflict :: "MessageMetadata \<Rightarrow> go_error" where
  "idempotency_conflict metadata =
     Wrapf [] (Sentinel ErrIdempotencyConflict)
       [Lit '': idempotency key '', Quoted (IdempotencyKey metadata)]"

definition InventoryReservationHandler_reserve ::
  "(go_context \<Rightarrow> go_time \<Rightarrow> string \<Rightarrow> string \<Rightarrow> go_int \<Rightarrow> (Reservation, 's) op) \<Rightarrow> go_time \<Rightarrow>
   go_context \<Rightarrow> ReservationRequest \<Rightarrow> (ReservationResult, 's) op" where
  "InventoryReservationHandler_reserve repository_Reserve now ctx request s =
     (case repository_Reserve ctx now (ReservationID request) (req_SKU request)
             (req_Quantity request) s of
        (Inl err, s') \<Rightarrow>
          (if errors_Is err ErrInsufficientStock \<or> errors_Is err ErrStockItemNotFound
           then (Inr \<lparr>Decision = ReservationDecisionRejected, IdempotencyHit = False,
                      Request = request, result_Reservation = zero_Reservation,
                      RejectionReason = ReservationRejectionReasonInsufficientStock\<rparr>, s')
           else (Inl err, s'))
      | (Inr reservation, s') \<Rightarrow>
          (Inr \<lparr>Decision = ReservationDecisionConfirmed, IdempotencyHit = False,
                Request = request, result_Reservation = reservation, RejectionReason = ''''\<rparr>, s'))"

definition InventoryReservationHandler_HandleReservationRequested ::
  "(go_context \<Rightarrow> string \<Rightarrow> (ReservationResult, 's) op \<Rightarrow> (ReservationResult \<times> bool, 'st \<times> 's) op) \<Rightarrow>
   (go_context \<Rightarrow> go_time \<Rightarrow> string \<Rightarrow> string \<Rightarrow> go_int \<Rightarrow> (Reservation, 's) op) \<Rightarrow>
   go_time \<Rightarrow> go_context \<Rightarrow> ReservationRequest \<Rightarrow> (ReservationResult, 'st \<times> 's) op" where
  "InventoryReservationHandler_HandleReservationRequested execute repository_Reserve now ctx request s =
     (case execute ctx (IdempotencyKey (req_Metadata request))
             (InventoryReservationHandler_reserve repository_Reserve now (ctx_next ctx) request) s of
        (Inl err, s') \<Rightarrow> (Inl err, s')
      | (Inr (result, idempotencyHit), s') \<Rightarrow>
          (if idempotencyHit \<and> \<not> sameReservationRequest (Request result) request
           then (Inl (idempotency_conflict (req_Metadata request)), s')
           else (Inr (result\<lparr>IdempotencyHit := idempotencyHit,
                   Request := (Request result)\<lparr>req_Metadata := req_Metadata request\<rparr>\<rparr>), s')))"

section \<open>failure_simulation.go, reservations\<close>

text \<open>
  The select of \<open>waitForProcessingDelay\<close> takes the timer or the cancellation, whichever comes
  first; \<open>timer_first\<close> says which, and a context that is never cancelled lets the timer fire.
\<close>

definition waitForProcessingDelay :: "go_context \<Rightarrow> bool \<Rightarrow> FailureModeSettings \<Rightarrow> go_error option" where
  "waitForProcessingDelay ctx timer_first s =
     (if Mode s \<noteq> FailureModeProcessingDelay then None
      else if timer_first then None
      else ctx_Err ctx)"

definition shouldReject :: "float64 \<Rightarrow> FailureModeSettings \<Rightarrow> bool" where
  "shouldReject randomFloat s =
     (if Mode s = FailureModeAlwaysReject then True
      else if Mode s = FailureModeRandomReject then float_less randomFloat (RandomRejectProbability s)
      else False)"

text \<open>What surrounds a call: the controller it reads, the timer, the random draw, and what the
  wrapped handler is surrounded by.\<close>

record 'env simulation =
  failureModes :: FailureModeController
  timerFirst :: bool
  randomFloat :: float64
  inner_env :: 'env

definition FailureSimulationReservationHandler_HandleReservationRequested ::
  "(go_context \<Rightarrow> string \<Rightarrow> (ReservationResult, 's) op \<Rightarrow> (ReservationResult \<times> bool, 'st \<times> 's) op) \<Rightarrow>
   ('env \<Rightarrow> go_context \<Rightarrow> ReservationRequest \<Rightarrow> (ReservationResult, 's) op) \<Rightarrow>
   'env simulation \<Rightarrow> go_context \<Rightarrow> ReservationRequest \<Rightarrow> (ReservationResult, 'st \<times> 's) op" where
  "FailureSimulationReservationHandler_HandleReservationRequested execute handler env ctx request s =
     (let s_modes = FailureModeController_Get (failureModes env) in
      case waitForProcessingDelay ctx (timerFirst env) s_modes of
        Some err \<Rightarrow> (Inl err, s)
      | None \<Rightarrow>
     (case execute ctx (IdempotencyKey (req_Metadata request))
             (\<lambda>s. if shouldReject (randomFloat env) s_modes
                  then (Inr \<lparr>Decision = ReservationDecisionRejected, IdempotencyHit = False,
                             Request = request, result_Reservation = zero_Reservation,
                             RejectionReason = ReservationRejectionReasonFailureMode\<rparr>, s)
                  else handler (inner_env env) (ctx_next ctx) request s) s of
        (Inl err, s') \<Rightarrow> (Inl err, s')
      | (Inr (result, idempotencyHit), s') \<Rightarrow>
          (if idempotencyHit \<and> \<not> sameReservationRequest (Request result) request
           then (Inl (idempotency_conflict (req_Metadata request)), s')
           else (Inr (result\<lparr>IdempotencyHit := IdempotencyHit result \<or> idempotencyHit,
                   Request := (Request result)\<lparr>req_Metadata := req_Metadata request\<rparr>\<rparr>), s'))))"

lemmas reservation_handler_defs [erp_defs] =
  InventoryReservationHandler_reserve_def
  InventoryReservationHandler_HandleReservationRequested_def
  FailureSimulationReservationHandler_HandleReservationRequested_def
  waitForProcessingDelay_def shouldReject_def sameReservationRequest_def

lemma sameReservationRequest_refl [simp]: "sameReservationRequest q q"
  by (simp add: sameReservationRequest_def)

lemma sameReservationRequest_metadata:
  "sameReservationRequest q q' \<longleftrightarrow> q\<lparr>req_Metadata := req_Metadata q'\<rparr> = q'"
  by (cases q; cases q') (auto simp: sameReservationRequest_def)

lemma waitForProcessingDelay_live: "ctx_Err ctx = None \<Longrightarrow> waitForProcessingDelay ctx t s = None"
  by (simp add: waitForProcessingDelay_def)

text \<open>Handling a sequence of requests, each in its own surroundings.\<close>

fun handle_all ::
  "('env \<Rightarrow> go_context \<Rightarrow> ReservationRequest \<Rightarrow> (ReservationResult, 's) op) \<Rightarrow>
   ('env \<times> go_context \<times> ReservationRequest) list \<Rightarrow> 's \<Rightarrow> 's" where
  "handle_all handle [] s = s"
| "handle_all handle ((env, ctx, q) # qs) s = handle_all handle qs (snd (handle env ctx q s))"

section \<open>The contract of \<open>ReservationRequestHandler\<close>\<close>

text \<open>
  \<open>answer s key\<close> is the result the handler remembers under a trimmed key. A remembered result
  decides every later request with its key: the same request gets the same decision marked as
  a hit, another one a conflict, and neither changes anything, whatever surrounds the call. A
  result is always remembered before it is returned, it names the request it answers, and an
  error leaves no trace.
\<close>

locale reservation_request_handler =
  fixes handle :: "'env \<Rightarrow> go_context \<Rightarrow> ReservationRequest \<Rightarrow> (ReservationResult, 's) op"
    and handler_inv :: "'s \<Rightarrow> bool"
    and answer :: "'s \<Rightarrow> string \<Rightarrow> ReservationResult option"
  assumes handle_keeps: "handler_inv s \<Longrightarrow> handle env ctx q s = (out, s') \<Longrightarrow> handler_inv s'"
    and handle_failed: "handler_inv s \<Longrightarrow> handle env ctx q s = (Inl e, s') \<Longrightarrow> s' = s"
    and handle_answer: "handler_inv s \<Longrightarrow> handle env ctx q s = (Inr res, s') \<Longrightarrow>
      TrimSpace (IdempotencyKey (req_Metadata q)) \<noteq> '''' \<and> Request res = q \<and>
      (\<exists>r. answer s' (TrimSpace (IdempotencyKey (req_Metadata q))) = Some r \<and>
           sameReservationRequest (Request r) q \<and>
           res = r\<lparr>IdempotencyHit := IdempotencyHit res, Request := q\<rparr>)"
    and handle_replay: "handler_inv s \<Longrightarrow> TrimSpace (IdempotencyKey (req_Metadata q)) \<noteq> '''' \<Longrightarrow>
      answer s (TrimSpace (IdempotencyKey (req_Metadata q))) = Some r \<Longrightarrow> ctx_Err ctx = None \<Longrightarrow>
      handle env ctx q s =
        (if sameReservationRequest (Request r) q
         then (Inr (r\<lparr>IdempotencyHit := True, Request := q\<rparr>), s)
         else (Inl (idempotency_conflict (req_Metadata q)), s))"
    and handle_remembers: "handler_inv s \<Longrightarrow> handle env ctx q s = (out, s') \<Longrightarrow>
      answer s k = Some a \<Longrightarrow> answer s' k = Some a"
begin

lemma handle_all_keeps:
  assumes "handler_inv s"
  shows "handler_inv (handle_all handle qs s) \<and> (answer s k = Some a \<longrightarrow> answer (handle_all handle qs s) k = Some a)"
  using assms
proof (induction qs arbitrary: s)
  case (Cons p qs)
  obtain env ctx q where p: "p = (env, ctx, q)" by (cases p)
  obtain r s' where "handle env ctx q s = (r, s')" by fastforce
  with p Cons.IH [of s'] handle_keeps [OF Cons.prems] handle_remembers [OF Cons.prems] show ?case
    by simp
qed simp

text \<open>
  A redelivered request gets the decision it got the first time, however many other requests
  were handled in between and whatever the failure modes have become.
\<close>

lemma redelivery:
  assumes "handler_inv s" and "handle env ctx q s = (Inr res, s')"
    and "s'' = handle_all handle qs s'" and "ctx_Err ctx' = None"
    and "TrimSpace (IdempotencyKey (req_Metadata q')) = TrimSpace (IdempotencyKey (req_Metadata q))"
  shows "handle env' ctx' q' s'' =
    (if sameReservationRequest q q'
     then (Inr (res\<lparr>IdempotencyHit := True, Request := q'\<rparr>), s'')
     else (Inl (idempotency_conflict (req_Metadata q')), s''))"
proof -
  from handle_answer [OF assms(1,2)] obtain r where
    r: "answer s' (TrimSpace (IdempotencyKey (req_Metadata q))) = Some r"
      "sameReservationRequest (Request r) q" "TrimSpace (IdempotencyKey (req_Metadata q)) \<noteq> ''''"
      "res = r\<lparr>IdempotencyHit := IdempotencyHit res, Request := q\<rparr>"
    by blast
  have s'': "handler_inv s''" "answer s'' (TrimSpace (IdempotencyKey (req_Metadata q))) = Some r"
    using handle_all_keeps [of s' qs] handle_keeps [OF assms(1,2)] r(1) assms(3) by auto
  have "r\<lparr>IdempotencyHit := True, Request := q'\<rparr> = res\<lparr>IdempotencyHit := True, Request := q'\<rparr>"
    by (subst r(4)) simp
  moreover have "sameReservationRequest (Request r) q' = sameReservationRequest q q'"
    using r(2) by (auto simp: sameReservationRequest_def)
  ultimately show ?thesis
    using handle_replay [OF s''(1), of q' r ctx' env'] s''(2) r(3) assms(4,5) by simp
qed

end


section \<open>The inventory handler\<close>

locale reservation_handling =
  store: idempotent_execution execute recorded idle +
  repository: inventory_contract inv fits set_stock get_stock reserve release get_reservation
  for execute :: "go_context \<Rightarrow> string \<Rightarrow> (ReservationResult, 's) op \<Rightarrow>
      (ReservationResult \<times> bool, 'st \<times> 's) op"
    and recorded :: "'st \<Rightarrow> string \<Rightarrow> ReservationResult option"
    and idle :: "'st \<Rightarrow> bool"
    and inv :: "'s \<Rightarrow> bool"
    and fits set_stock get_stock reserve release get_reservation
begin

lemma reserve_decision:
  assumes "inv s" and "InventoryReservationHandler_reserve reserve now ctx q s = (Inr r, s')"
  shows "Request r = q \<and>
    (Decision r = ReservationDecisionConfirmed \<and>
       reserve ctx now (ReservationID q) (req_SKU q) (req_Quantity q) s = (Inr (result_Reservation r), s') \<or>
     Decision r = ReservationDecisionRejected \<and>
       RejectionReason r = ReservationRejectionReasonInsufficientStock \<and> s' = s)"
  using assms
  by (auto simp: InventoryReservationHandler_reserve_def dest: repository.reserve_failed
      split: prod.splits sum.splits if_splits)

lemma reserve_op_failed:
  "InventoryReservationHandler_reserve reserve now ctx q s = (Inl e, s') \<Longrightarrow> s' = s"
  by (auto simp: InventoryReservationHandler_reserve_def dest: repository.reserve_failed
      split: prod.splits sum.splits if_splits)

lemma reserve_op_keeps:
  assumes "inv s"
  shows "inv (snd (InventoryReservationHandler_reserve reserve now ctx q s))"
  using repository.reserve_keeps [OF assms, of ctx now "ReservationID q" "req_SKU q" "req_Quantity q"]
  by (auto simp: InventoryReservationHandler_reserve_def split: prod.splits sum.splits)

text \<open>
  How a result of the handler came about: it was remembered, or the repository was asked and
  its answer is remembered now.
\<close>

lemma handle_value_cases:
  assumes "idle st" and "inv s"
    and "InventoryReservationHandler_HandleReservationRequested execute reserve now ctx q (st, s) =
      (Inr res, (st', s'))"
  obtains (remembered) r where "TrimSpace (IdempotencyKey (req_Metadata q)) \<noteq> ''''"
      "recorded st (TrimSpace (IdempotencyKey (req_Metadata q))) = Some r"
      "sameReservationRequest (Request r) q" "st' = st" "s' = s"
      "res = r\<lparr>IdempotencyHit := True, Request := q\<rparr>"
    | (computed) r where "TrimSpace (IdempotencyKey (req_Metadata q)) \<noteq> ''''"
      "recorded st (TrimSpace (IdempotencyKey (req_Metadata q))) = None"
      "InventoryReservationHandler_reserve reserve now (ctx_next ctx) q s = (Inr r, s')"
      "recorded st' = (recorded st)(TrimSpace (IdempotencyKey (req_Metadata q)) \<mapsto> r)"
      "res = r\<lparr>IdempotencyHit := False, Request := q\<rparr>"
proof -
  let ?key = "IdempotencyKey (req_Metadata q)"
  let ?op = "InventoryReservationHandler_reserve reserve now (ctx_next ctx) q"
  from assms(3) obtain v h where e: "execute ctx ?key ?op (st, s) = (Inr (v, h), (st', s'))"
    and h: "h \<longrightarrow> sameReservationRequest (Request v) q"
    and res: "res = v\<lparr>IdempotencyHit := h, Request := (Request v)\<lparr>req_Metadata := req_Metadata q\<rparr>\<rparr>"
    by (auto simp: InventoryReservationHandler_HandleReservationRequested_def
        split: prod.splits sum.splits if_splits)
  show thesis using assms(1) e
  proof (cases rule: store.execute_value_cases)
    case remembered
    with h res show thesis by (intro that(1) [of v]) (simp_all add: sameReservationRequest_metadata)
  next
    case computed
    with res reserve_decision [OF assms(2) computed(5)] show thesis
      by (intro that(2) [of v]) simp_all
  qed
qed

lemma handle_error_cases:
  assumes "idle st"
    and "InventoryReservationHandler_HandleReservationRequested execute reserve now ctx q (st, s) =
      (Inl e, (st', s'))"
  shows "st' = st \<and> s' = s"
proof -
  let ?op = "InventoryReservationHandler_reserve reserve now (ctx_next ctx) q"
  let ?x = "execute ctx (IdempotencyKey (req_Metadata q)) ?op (st, s)"
  consider (err) "?x = (Inl e, (st', s'))" | (conflict) v where "?x = (Inr (v, True), (st', s'))"
    using assms(2) by (auto simp: InventoryReservationHandler_HandleReservationRequested_def
        split: prod.splits sum.splits if_splits)
  then show ?thesis
  proof cases
    case err
    from store.execute_error_cases [OF assms(1) this] show ?thesis
      using reserve_op_failed by blast
  next
    case conflict
    from store.execute_value_cases [OF assms(1) this] show ?thesis by blast
  qed
qed

lemma handle_state:
  assumes "idle st" and "inv s"
    and "InventoryReservationHandler_HandleReservationRequested execute reserve now ctx q (st, s) =
      (out, (st', s'))"
  shows "idle st' \<and> inv s' \<and> (recorded st k = Some a \<longrightarrow> recorded st' k = Some a)"
proof -
  let ?op = "InventoryReservationHandler_reserve reserve now (ctx_next ctx) q"
  from assms(3) obtain x where
    x: "execute ctx (IdempotencyKey (req_Metadata q)) ?op (st, s) = (x, (st', s'))"
    by (auto simp: InventoryReservationHandler_HandleReservationRequested_def
        split: prod.splits sum.splits if_splits)
  show ?thesis
    using store.execute_idle [OF assms(1) x] store.execute_state [OF assms(1) x]
      store.execute_keeps_recorded [OF assms(1) _ x] reserve_op_keeps [OF assms(2)] assms(2)
    by auto
qed

text \<open>So the inventory handler meets the contract.\<close>

sublocale inventory: reservation_request_handler
  "InventoryReservationHandler_HandleReservationRequested execute reserve"
  "\<lambda>(st, s). idle st \<and> inv s" "\<lambda>(st, s). recorded st"
proof (unfold_locales, goal_cases)
  case (1 s env ctx q out s')
  then show ?case using handle_state [of "fst s" "snd s" env ctx q out "fst s'" "snd s'"] by auto
next
  case (2 s env ctx q e s')
  then show ?case using handle_error_cases [of "fst s" env ctx q "snd s" e "fst s'" "snd s'"]
    by (auto simp: prod_eq_iff)
next
  case (3 s env ctx q res s')
  then show ?case
    by (cases s; cases s') (auto elim!: handle_value_cases dest: reserve_decision)
next
  case (4 s q r ctx env)
  then show ?case
    by (auto simp: InventoryReservationHandler_HandleReservationRequested_def store.hit
        sameReservationRequest_metadata)
next
  case (5 s env ctx q out s' k a)
  then show ?case using handle_state [of "fst s" "snd s" env ctx q out "fst s'" "snd s'" k a]
    by (auto split: prod.splits)
qed

end


section \<open>The failure-simulation handler\<close>

text \<open>
  The decorator around any handler that meets the contract: it has a store of its own, and it
  meets the contract again.
\<close>

locale failure_simulation =
  handler: reservation_request_handler handle handler_inv answer +
  outer: idempotent_execution execute recorded idle
  for handle :: "'env \<Rightarrow> go_context \<Rightarrow> ReservationRequest \<Rightarrow> (ReservationResult, 's) op"
    and handler_inv :: "'s \<Rightarrow> bool"
    and answer :: "'s \<Rightarrow> string \<Rightarrow> ReservationResult option"
    and execute :: "go_context \<Rightarrow> string \<Rightarrow> (ReservationResult, 's) op \<Rightarrow>
      (ReservationResult \<times> bool, 'st \<times> 's) op"
    and recorded :: "'st \<Rightarrow> string \<Rightarrow> ReservationResult option"
    and idle :: "'st \<Rightarrow> bool"
begin

text \<open>The operation that is run under the key, and what it can answer.\<close>

abbreviation decide :: "'env simulation \<Rightarrow> go_context \<Rightarrow> ReservationRequest \<Rightarrow> (ReservationResult, 's) op" where
  "decide env ctx q \<equiv> \<lambda>s.
     if shouldReject (randomFloat env) (FailureModeController_Get (failureModes env))
     then (Inr \<lparr>Decision = ReservationDecisionRejected, IdempotencyHit = False, Request = q,
                result_Reservation = zero_Reservation,
                RejectionReason = ReservationRejectionReasonFailureMode\<rparr>, s)
     else handle (inner_env env) (ctx_next ctx) q s"

lemma decide_request: "handler_inv s \<Longrightarrow> decide env ctx q s = (Inr r, s') \<Longrightarrow> Request r = q"
  using handler.handle_answer by (auto split: if_splits)

lemma decide_keeps: "handler_inv s \<Longrightarrow> handler_inv (snd (decide env ctx q s))"
  using handler.handle_keeps [of s "inner_env env" "ctx_next ctx" q] by (auto simp: prod_eq_iff)

lemma decide_failed: "handler_inv s \<Longrightarrow> decide env ctx q s = (Inl e, s') \<Longrightarrow> s' = s"
  using handler.handle_failed by (auto split: if_splits)

lemma simulated_value_cases:
  assumes "idle st" and "handler_inv s"
    and "FailureSimulationReservationHandler_HandleReservationRequested execute handle env ctx q (st, s) =
      (Inr res, (st', s'))"
  obtains (remembered) r where "TrimSpace (IdempotencyKey (req_Metadata q)) \<noteq> ''''"
      "recorded st (TrimSpace (IdempotencyKey (req_Metadata q))) = Some r"
      "sameReservationRequest (Request r) q" "st' = st" "s' = s"
      "res = r\<lparr>IdempotencyHit := True, Request := q\<rparr>"
    | (computed) "TrimSpace (IdempotencyKey (req_Metadata q)) \<noteq> ''''"
      "recorded st (TrimSpace (IdempotencyKey (req_Metadata q))) = None"
      "decide env ctx q s = (Inr res, s')" "Request res = q"
      "recorded st' = (recorded st)(TrimSpace (IdempotencyKey (req_Metadata q)) \<mapsto> res)"
proof -
  let ?key = "IdempotencyKey (req_Metadata q)"
  from assms(3) obtain v h where e: "execute ctx ?key (decide env ctx q) (st, s) = (Inr (v, h), (st', s'))"
    and h: "h \<longrightarrow> sameReservationRequest (Request v) q"
    and res: "res = v\<lparr>IdempotencyHit := IdempotencyHit v \<or> h,
        Request := (Request v)\<lparr>req_Metadata := req_Metadata q\<rparr>\<rparr>"
    by (auto simp: FailureSimulationReservationHandler_HandleReservationRequested_def Let_def
        split: prod.splits sum.splits if_splits option.splits)
  show thesis using assms(1) e
  proof (cases rule: outer.execute_value_cases)
    case remembered
    with h res show thesis by (intro that(1) [of v]) (simp_all add: sameReservationRequest_metadata)
  next
    case computed
    have "Request v = q" by (rule decide_request [OF assms(2) computed(5)])
    with res computed(1) have "res = v" by simp
    with computed \<open>Request v = q\<close> show thesis by (intro that(2)) simp_all
  qed
qed

lemma simulated_error_cases:
  assumes "idle st" and "handler_inv s"
    and "FailureSimulationReservationHandler_HandleReservationRequested execute handle env ctx q (st, s) =
      (Inl e, (st', s'))"
  shows "st' = st \<and> s' = s"
proof -
  let ?x = "execute ctx (IdempotencyKey (req_Metadata q)) (decide env ctx q) (st, s)"
  consider (wait) "st' = st" "s' = s" | (err) "?x = (Inl e, (st', s'))"
    | (conflict) v where "?x = (Inr (v, True), (st', s'))"
    using assms(3) by (auto simp: FailureSimulationReservationHandler_HandleReservationRequested_def
        Let_def split: prod.splits sum.splits if_splits option.splits)
  then show ?thesis
  proof cases
    case err
    from outer.execute_error_cases [OF assms(1) this] show ?thesis
      using decide_failed [OF assms(2)] by blast
  next
    case conflict
    from outer.execute_value_cases [OF assms(1) this] show ?thesis by blast
  qed simp
qed

lemma simulated_state:
  assumes "idle st" and "handler_inv s"
    and "FailureSimulationReservationHandler_HandleReservationRequested execute handle env ctx q (st, s) =
      (out, (st', s'))"
  shows "idle st' \<and> handler_inv s' \<and> (recorded st k = Some a \<longrightarrow> recorded st' k = Some a)"
proof (cases "st' = st \<and> s' = s")
  case False
  with assms(3) obtain operation x where operation: "operation = decide env ctx q"
    and x: "execute ctx (IdempotencyKey (req_Metadata q)) operation (st, s) = (x, (st', s'))"
    by (auto simp: FailureSimulationReservationHandler_HandleReservationRequested_def Let_def
        split: prod.splits sum.splits if_splits option.splits)
  have "handler_inv (snd (operation s))" unfolding operation by (rule decide_keeps [OF assms(2)])
  then show ?thesis
    using outer.execute_idle [OF assms(1) x] outer.execute_state [OF assms(1) x]
      outer.execute_keeps_recorded [OF assms(1) _ x] assms(2)
    by auto
qed (use assms in simp)

sublocale simulated: reservation_request_handler
  "FailureSimulationReservationHandler_HandleReservationRequested execute handle"
  "\<lambda>(st, s). idle st \<and> handler_inv s" "\<lambda>(st, s). recorded st"
proof (unfold_locales, goal_cases)
  case (1 s env ctx q out s')
  then show ?case using simulated_state [of "fst s" "snd s" env ctx q out "fst s'" "snd s'"] by auto
next
  case (2 s env ctx q e s')
  then show ?case using simulated_error_cases [of "fst s" "snd s" env ctx q e "fst s'" "snd s'"]
    by (auto simp: prod_eq_iff)
next
  case (3 s env ctx q res s')
  then show ?case by (cases s; cases s') (auto elim!: simulated_value_cases)
next
  case (4 s q r ctx env)
  then show ?case
    by (auto simp: FailureSimulationReservationHandler_HandleReservationRequested_def outer.hit
        sameReservationRequest_metadata waitForProcessingDelay_live)
next
  case (5 s env ctx q out s' k a)
  then show ?case using simulated_state [of "fst s" "snd s" env ctx q out "fst s'" "snd s'" k a]
    by (auto split: prod.splits)
qed

end

end
