(* ===== verification/Release_Handlers.thy ===== *)
theory Release_Handlers
  imports Reservation_Handlers
begin

text \<open>
  The release request handlers (internal/app/inventory_reservation_release.go and the release
  half of failure_simulation.go), their contract, and that they meet it for any store and
  repository that meet theirs. The failure simulation only delays a release.
\<close>

section \<open>inventory_reservation_release.go\<close>

record ReservationReleaseRequest =
  rel_Metadata :: MessageMetadata
  rel_ReservationID :: string
  Reason :: string

type_synonym ReservationReleaseDecision = string

abbreviation ReservationReleaseDecisionReleased :: ReservationReleaseDecision where
  "ReservationReleaseDecisionReleased \<equiv> ''released''"

abbreviation ReservationReleaseDecisionFailed :: ReservationReleaseDecision where
  "ReservationReleaseDecisionFailed \<equiv> ''release_failed''"

abbreviation ReservationReleaseFailureReasonNotActive :: string where
  "ReservationReleaseFailureReasonNotActive \<equiv> ''RESERVATION_NOT_ACTIVE''"

abbreviation ReservationReleaseFailureReasonNotFound :: string where
  "ReservationReleaseFailureReasonNotFound \<equiv> ''RESERVATION_NOT_FOUND''"

record ReservationReleaseResult =
  rel_Decision :: ReservationReleaseDecision
  FailureReason :: string
  rel_IdempotencyHit :: bool
  rel_Request :: ReservationReleaseRequest
  rel_Reservation :: Reservation

definition sameReservationReleaseRequest ::
  "ReservationReleaseRequest \<Rightarrow> ReservationReleaseRequest \<Rightarrow> bool" where
  "sameReservationReleaseRequest left right \<longleftrightarrow>
     rel_ReservationID left = rel_ReservationID right \<and> Reason left = Reason right"

definition InventoryReservationReleaseHandler_release ::
  "(go_context \<Rightarrow> go_time \<Rightarrow> string \<Rightarrow> (Reservation, 's) op) \<Rightarrow> go_time \<Rightarrow>
   go_context \<Rightarrow> ReservationReleaseRequest \<Rightarrow> (ReservationReleaseResult, 's) op" where
  "InventoryReservationReleaseHandler_release repository_Release now ctx request s =
     (case repository_Release ctx now (rel_ReservationID request) s of
        (Inl err, s') \<Rightarrow>
          (if errors_Is err ErrReservationNotFound
           then (Inr \<lparr>rel_Decision = ReservationReleaseDecisionFailed,
                      FailureReason = ReservationReleaseFailureReasonNotFound,
                      rel_IdempotencyHit = False, rel_Request = request,
                      rel_Reservation = zero_Reservation\<rparr>, s')
           else if errors_Is err ErrReservationNotActive
           then (Inr \<lparr>rel_Decision = ReservationReleaseDecisionFailed,
                      FailureReason = ReservationReleaseFailureReasonNotActive,
                      rel_IdempotencyHit = False, rel_Request = request,
                      rel_Reservation = zero_Reservation\<rparr>, s')
           else (Inl err, s'))
      | (Inr reservation, s') \<Rightarrow>
          (Inr \<lparr>rel_Decision = ReservationReleaseDecisionReleased, FailureReason = '''',
                rel_IdempotencyHit = False, rel_Request = request,
                rel_Reservation = reservation\<rparr>, s'))"

definition InventoryReservationReleaseHandler_HandleReservationReleaseRequested ::
  "(go_context \<Rightarrow> string \<Rightarrow> (ReservationReleaseResult, 's) op \<Rightarrow>
      (ReservationReleaseResult \<times> bool, 'st \<times> 's) op) \<Rightarrow>
   (go_context \<Rightarrow> go_time \<Rightarrow> string \<Rightarrow> (Reservation, 's) op) \<Rightarrow>
   go_time \<Rightarrow> go_context \<Rightarrow> ReservationReleaseRequest \<Rightarrow> (ReservationReleaseResult, 'st \<times> 's) op" where
  "InventoryReservationReleaseHandler_HandleReservationReleaseRequested execute repository_Release now ctx request s =
     (case execute ctx (IdempotencyKey (rel_Metadata request))
             (InventoryReservationReleaseHandler_release repository_Release now (ctx_next ctx) request) s of
        (Inl err, s') \<Rightarrow> (Inl err, s')
      | (Inr (result, idempotencyHit), s') \<Rightarrow>
          (if idempotencyHit \<and> \<not> sameReservationReleaseRequest (rel_Request result) request
           then (Inl (idempotency_conflict (rel_Metadata request)), s')
           else (Inr (result\<lparr>rel_IdempotencyHit := idempotencyHit,
                   rel_Request := (rel_Request result)\<lparr>rel_Metadata := rel_Metadata request\<rparr>\<rparr>), s')))"

section \<open>failure_simulation.go, releases\<close>

definition FailureSimulationReservationReleaseHandler_HandleReservationReleaseRequested ::
  "('env \<Rightarrow> go_context \<Rightarrow> ReservationReleaseRequest \<Rightarrow> (ReservationReleaseResult, 's) op) \<Rightarrow>
   'env simulation \<Rightarrow> go_context \<Rightarrow> ReservationReleaseRequest \<Rightarrow> (ReservationReleaseResult, 's) op" where
  "FailureSimulationReservationReleaseHandler_HandleReservationReleaseRequested handler env ctx request s =
     (case waitForProcessingDelay ctx (timerFirst env) (FailureModeController_Get (failureModes env)) of
        Some err \<Rightarrow> (Inl err, s)
      | None \<Rightarrow> handler (inner_env env) ctx request s)"

lemmas release_handler_defs [erp_defs] =
  InventoryReservationReleaseHandler_release_def
  InventoryReservationReleaseHandler_HandleReservationReleaseRequested_def
  FailureSimulationReservationReleaseHandler_HandleReservationReleaseRequested_def
  sameReservationReleaseRequest_def

lemma sameReservationReleaseRequest_refl [simp]: "sameReservationReleaseRequest q q"
  by (simp add: sameReservationReleaseRequest_def)

lemma sameReservationReleaseRequest_metadata:
  "sameReservationReleaseRequest q q' \<longleftrightarrow> q\<lparr>rel_Metadata := rel_Metadata q'\<rparr> = q'"
  by (cases q; cases q') (auto simp: sameReservationReleaseRequest_def)

section \<open>The contract of \<open>ReservationReleaseRequestHandler\<close>\<close>

locale release_request_handler =
  fixes handle :: "'env \<Rightarrow> go_context \<Rightarrow> ReservationReleaseRequest \<Rightarrow> (ReservationReleaseResult, 's) op"
    and handler_inv :: "'s \<Rightarrow> bool"
    and answer :: "'s \<Rightarrow> string \<Rightarrow> ReservationReleaseResult option"
  assumes handle_keeps: "handler_inv s \<Longrightarrow> handle env ctx q s = (out, s') \<Longrightarrow> handler_inv s'"
    and handle_failed: "handler_inv s \<Longrightarrow> handle env ctx q s = (Inl e, s') \<Longrightarrow> s' = s"
    and handle_answer: "handler_inv s \<Longrightarrow> handle env ctx q s = (Inr res, s') \<Longrightarrow>
      TrimSpace (IdempotencyKey (rel_Metadata q)) \<noteq> '''' \<and> rel_Request res = q \<and>
      (\<exists>r. answer s' (TrimSpace (IdempotencyKey (rel_Metadata q))) = Some r \<and>
           sameReservationReleaseRequest (rel_Request r) q \<and>
           res = r\<lparr>rel_IdempotencyHit := rel_IdempotencyHit res, rel_Request := q\<rparr>)"
    and handle_replay: "handler_inv s \<Longrightarrow> TrimSpace (IdempotencyKey (rel_Metadata q)) \<noteq> '''' \<Longrightarrow>
      answer s (TrimSpace (IdempotencyKey (rel_Metadata q))) = Some r \<Longrightarrow> ctx_Err ctx = None \<Longrightarrow>
      handle env ctx q s =
        (if sameReservationReleaseRequest (rel_Request r) q
         then (Inr (r\<lparr>rel_IdempotencyHit := True, rel_Request := q\<rparr>), s)
         else (Inl (idempotency_conflict (rel_Metadata q)), s))"
    and handle_remembers: "handler_inv s \<Longrightarrow> handle env ctx q s = (out, s') \<Longrightarrow>
      answer s k = Some a \<Longrightarrow> answer s' k = Some a"
begin

text \<open>A release that was answered is answered the same way again, with no further effect.\<close>

lemma release_redelivery:
  assumes "handler_inv s" and "handle env ctx q s = (Inr res, s')" and "ctx_Err ctx' = None"
    and "TrimSpace (IdempotencyKey (rel_Metadata q')) = TrimSpace (IdempotencyKey (rel_Metadata q))"
  shows "handle env' ctx' q' s' =
    (if sameReservationReleaseRequest q q'
     then (Inr (res\<lparr>rel_IdempotencyHit := True, rel_Request := q'\<rparr>), s')
     else (Inl (idempotency_conflict (rel_Metadata q')), s'))"
proof -
  from handle_answer [OF assms(1,2)] obtain r where
    r: "answer s' (TrimSpace (IdempotencyKey (rel_Metadata q))) = Some r"
      "sameReservationReleaseRequest (rel_Request r) q" "TrimSpace (IdempotencyKey (rel_Metadata q)) \<noteq> ''''"
      "res = r\<lparr>rel_IdempotencyHit := rel_IdempotencyHit res, rel_Request := q\<rparr>"
    by blast
  have "r\<lparr>rel_IdempotencyHit := True, rel_Request := q'\<rparr> = res\<lparr>rel_IdempotencyHit := True, rel_Request := q'\<rparr>"
    by (subst r(4)) simp
  moreover have "sameReservationReleaseRequest (rel_Request r) q' = sameReservationReleaseRequest q q'"
    using r(2) by (auto simp: sameReservationReleaseRequest_def)
  ultimately show ?thesis
    using handle_replay [OF handle_keeps [OF assms(1,2)], of q' r ctx' env'] r(1,3) assms(3,4) by simp
qed

end

section \<open>The inventory release handler\<close>

locale release_handling =
  store: idempotent_execution execute recorded idle +
  repository: inventory_contract inv fits set_stock get_stock reserve release get_reservation
  for execute :: "go_context \<Rightarrow> string \<Rightarrow> (ReservationReleaseResult, 's) op \<Rightarrow>
      (ReservationReleaseResult \<times> bool, 'st \<times> 's) op"
    and recorded :: "'st \<Rightarrow> string \<Rightarrow> ReservationReleaseResult option"
    and idle :: "'st \<Rightarrow> bool"
    and inv :: "'s \<Rightarrow> bool"
    and fits set_stock get_stock reserve release get_reservation
begin

lemma release_op_decision:
  assumes "InventoryReservationReleaseHandler_release release now ctx q s = (Inr r, s')"
  shows "rel_Request r = q \<and>
    (rel_Decision r = ReservationReleaseDecisionReleased \<and>
       release ctx now (rel_ReservationID q) s = (Inr (rel_Reservation r), s') \<or>
     rel_Decision r = ReservationReleaseDecisionFailed \<and> s' = s)"
  using assms
  by (auto simp: InventoryReservationReleaseHandler_release_def dest: repository.release_failed
      split: prod.splits sum.splits if_splits)

lemma release_op_failed:
  "InventoryReservationReleaseHandler_release release now ctx q s = (Inl e, s') \<Longrightarrow> s' = s"
  by (auto simp: InventoryReservationReleaseHandler_release_def dest: repository.release_failed
      split: prod.splits sum.splits if_splits)

lemma release_op_keeps:
  assumes "inv s"
  shows "inv (snd (InventoryReservationReleaseHandler_release release now ctx q s))"
  using repository.release_keeps [OF assms, of ctx now "rel_ReservationID q"]
  by (auto simp: InventoryReservationReleaseHandler_release_def split: prod.splits sum.splits)

lemma release_value_cases:
  assumes "idle st"
    and "InventoryReservationReleaseHandler_HandleReservationReleaseRequested execute release now ctx q (st, s) =
      (Inr res, (st', s'))"
  obtains (remembered) r where "TrimSpace (IdempotencyKey (rel_Metadata q)) \<noteq> ''''"
      "recorded st (TrimSpace (IdempotencyKey (rel_Metadata q))) = Some r"
      "sameReservationReleaseRequest (rel_Request r) q" "st' = st" "s' = s"
      "res = r\<lparr>rel_IdempotencyHit := True, rel_Request := q\<rparr>"
    | (computed) r where "TrimSpace (IdempotencyKey (rel_Metadata q)) \<noteq> ''''"
      "recorded st (TrimSpace (IdempotencyKey (rel_Metadata q))) = None"
      "InventoryReservationReleaseHandler_release release now (ctx_next ctx) q s = (Inr r, s')"
      "recorded st' = (recorded st)(TrimSpace (IdempotencyKey (rel_Metadata q)) \<mapsto> r)"
      "res = r\<lparr>rel_IdempotencyHit := False, rel_Request := q\<rparr>"
proof -
  let ?key = "IdempotencyKey (rel_Metadata q)"
  let ?op = "InventoryReservationReleaseHandler_release release now (ctx_next ctx) q"
  from assms(2) obtain v h where e: "execute ctx ?key ?op (st, s) = (Inr (v, h), (st', s'))"
    and h: "h \<longrightarrow> sameReservationReleaseRequest (rel_Request v) q"
    and res: "res = v\<lparr>rel_IdempotencyHit := h,
        rel_Request := (rel_Request v)\<lparr>rel_Metadata := rel_Metadata q\<rparr>\<rparr>"
    by (auto simp: InventoryReservationReleaseHandler_HandleReservationReleaseRequested_def
        split: prod.splits sum.splits if_splits)
  show thesis using assms(1) e
  proof (cases rule: store.execute_value_cases)
    case remembered
    with h res show thesis
      by (intro that(1) [of v]) (simp_all add: sameReservationReleaseRequest_metadata)
  next
    case computed
    with res release_op_decision [OF computed(5)] show thesis by (intro that(2) [of v]) simp_all
  qed
qed

lemma release_error_cases:
  assumes "idle st"
    and "InventoryReservationReleaseHandler_HandleReservationReleaseRequested execute release now ctx q (st, s) =
      (Inl e, (st', s'))"
  shows "st' = st \<and> s' = s"
proof -
  let ?op = "InventoryReservationReleaseHandler_release release now (ctx_next ctx) q"
  let ?x = "execute ctx (IdempotencyKey (rel_Metadata q)) ?op (st, s)"
  consider (err) "?x = (Inl e, (st', s'))" | (conflict) v where "?x = (Inr (v, True), (st', s'))"
    using assms(2) by (auto simp: InventoryReservationReleaseHandler_HandleReservationReleaseRequested_def
        split: prod.splits sum.splits if_splits)
  then show ?thesis
  proof cases
    case err
    from store.execute_error_cases [OF assms(1) this] show ?thesis
      using release_op_failed by blast
  next
    case conflict
    from store.execute_value_cases [OF assms(1) this] show ?thesis by blast
  qed
qed

lemma release_state:
  assumes "idle st" and "inv s"
    and "InventoryReservationReleaseHandler_HandleReservationReleaseRequested execute release now ctx q (st, s) =
      (out, (st', s'))"
  shows "idle st' \<and> inv s' \<and> (recorded st k = Some a \<longrightarrow> recorded st' k = Some a)"
proof -
  let ?op = "InventoryReservationReleaseHandler_release release now (ctx_next ctx) q"
  from assms(3) obtain x where
    x: "execute ctx (IdempotencyKey (rel_Metadata q)) ?op (st, s) = (x, (st', s'))"
    by (auto simp: InventoryReservationReleaseHandler_HandleReservationReleaseRequested_def
        split: prod.splits sum.splits if_splits)
  show ?thesis
    using store.execute_idle [OF assms(1) x] store.execute_state [OF assms(1) x]
      store.execute_keeps_recorded [OF assms(1) _ x] release_op_keeps [OF assms(2)] assms(2)
    by auto
qed

sublocale inventory: release_request_handler
  "InventoryReservationReleaseHandler_HandleReservationReleaseRequested execute release"
  "\<lambda>(st, s). idle st \<and> inv s" "\<lambda>(st, s). recorded st"
proof (unfold_locales, goal_cases)
  case (1 s env ctx q out s')
  then show ?case using release_state [of "fst s" "snd s" env ctx q out "fst s'" "snd s'"] by auto
next
  case (2 s env ctx q e s')
  then show ?case using release_error_cases [of "fst s" env ctx q "snd s" e "fst s'" "snd s'"]
    by (auto simp: prod_eq_iff)
next
  case (3 s env ctx q res s')
  then show ?case
    by (cases s; cases s') (auto elim!: release_value_cases dest: release_op_decision)
next
  case (4 s q r ctx env)
  then show ?case
    by (auto simp: InventoryReservationReleaseHandler_HandleReservationReleaseRequested_def store.hit
        sameReservationReleaseRequest_metadata)
next
  case (5 s env ctx q out s' k a)
  then show ?case using release_state [of "fst s" "snd s" env ctx q out "fst s'" "snd s'" k a]
    by (auto split: prod.splits)
qed

end

section \<open>The delaying release handler\<close>

locale delayed_release = handler: release_request_handler handle handler_inv answer
  for handle :: "'env \<Rightarrow> go_context \<Rightarrow> ReservationReleaseRequest \<Rightarrow> (ReservationReleaseResult, 's) op"
    and handler_inv :: "'s \<Rightarrow> bool"
    and answer :: "'s \<Rightarrow> string \<Rightarrow> ReservationReleaseResult option"
begin

lemma delayed_cases:
  assumes "FailureSimulationReservationReleaseHandler_HandleReservationReleaseRequested handle env ctx q s = (out, s')"
  obtains (cancelled) e where "out = Inl e" "s' = s" "ctx_Err ctx = Some e"
    | (passed) "handle (inner_env env) ctx q s = (out, s')"
  using assms that
  by (auto simp: FailureSimulationReservationReleaseHandler_HandleReservationReleaseRequested_def
      waitForProcessingDelay_def split: if_splits option.splits)

sublocale simulated: release_request_handler
  "FailureSimulationReservationReleaseHandler_HandleReservationReleaseRequested handle"
  handler_inv answer
proof (unfold_locales, goal_cases)
  case (1 s env ctx q out s')
  from 1(2) show ?case by (cases rule: delayed_cases) (use 1(1) handler.handle_keeps in auto)
next
  case (2 s env ctx q e s')
  from 2(2) show ?case by (cases rule: delayed_cases) (use 2(1) handler.handle_failed in auto)
next
  case (3 s env ctx q res s')
  from 3(2) show ?case
  proof (cases rule: delayed_cases)
    case passed
    with handler.handle_answer [OF 3(1)] show ?thesis by blast
  qed simp
next
  case (4 s q r ctx env)
  then show ?case
    by (simp add: FailureSimulationReservationReleaseHandler_HandleReservationReleaseRequested_def
        waitForProcessingDelay_live handler.handle_replay)
next
  case (5 s env ctx q out s' k a)
  from 5(2) show ?case by (cases rule: delayed_cases) (use 5(1,3) handler.handle_remembers in auto)
qed

end

end
