(* ===== verification/Go_Strconv.thy ===== *)
theory Go_Strconv
  imports Erp_Prelude
begin

text \<open>
  What the sources use of \<open>strconv\<close> and of the integer verbs of \<open>fmt\<close>: decimal output of an
  \<open>int\<close>, \<open>strconv.ParseInt\<close> with base 10 and 64 bits (which \<open>strconv.Atoi\<close> and the JSON decoder
  also amount to), and hexadecimal digits. Reading back what was written gives the number.
\<close>

abbreviation code :: "char \<Rightarrow> nat" where
  "code c \<equiv> of_char c"

definition is_digit :: "char \<Rightarrow> bool" where
  "is_digit c \<longleftrightarrow> 48 \<le> code c \<and> code c \<le> 57"

definition digit_char :: "nat \<Rightarrow> char" where
  "digit_char n = char_of (48 + n)"

definition digit_value :: "char \<Rightarrow> nat" where
  "digit_value c = code c - 48"

lemma code_digit_char: "n < 10 \<Longrightarrow> code (digit_char n) = 48 + n"
  by (simp add: digit_char_def)

lemma digit_char_simps [simp]:
  assumes "n < 10"
  shows "is_digit (digit_char n)" and "digit_value (digit_char n) = n"
  using assms by (simp_all add: is_digit_def digit_value_def code_digit_char)

fun show_nat :: "nat \<Rightarrow> string" where
  "show_nat n = (if n < 10 then [digit_char n] else show_nat (n div 10) @ [digit_char (n mod 10)])"

declare show_nat.simps [simp del]

definition show_int :: "int \<Rightarrow> string" where
  "show_int i = (if i < 0 then CHR ''-'' # show_nat (nat (- i)) else show_nat (nat i))"

definition read_digits :: "string \<Rightarrow> nat" where
  "read_digits s = foldl (\<lambda>n c. n * 10 + digit_value c) 0 s"

lemma show_nat_digits: "list_all is_digit (show_nat n) \<and> show_nat n \<noteq> []"
proof (induction n rule: show_nat.induct)
  case (1 n)
  then show ?case by (subst (1 2) show_nat.simps) simp
qed

lemma read_show_nat [simp]: "read_digits (show_nat n) = n"
proof (induction n rule: show_nat.induct)
  case (1 n)
  then show ?case by (subst show_nat.simps) (simp add: read_digits_def)
qed

text \<open>A number has no leading zero, except zero itself.\<close>

lemma show_nat_head: "0 < n \<Longrightarrow> hd (show_nat n) \<noteq> CHR ''0''"
proof (induction n rule: show_nat.induct)
  case (1 n)
  show ?case
  proof (cases "n < 10")
    case True
    moreover have "code (digit_char n) \<noteq> code (CHR ''0'')" using True 1(2) by (simp add: code_digit_char)
    ultimately show ?thesis by (subst show_nat.simps) auto
  next
    case False
    with 1 have "hd (show_nat (n div 10)) \<noteq> CHR ''0''" by simp
    with False show_nat_digits [of "n div 10"] show ?thesis by (subst show_nat.simps) simp
  qed
qed

definition fits_int64 :: "int \<Rightarrow> bool" where
  "fits_int64 i \<longleftrightarrow> - 9223372036854775808 \<le> i \<and> i \<le> max_int64"

text \<open>\<open>ParseInt(s, 10, 64)\<close>: an optional sign, one or more digits, a value in range.\<close>

definition ParseInt :: "string \<Rightarrow> go_int option" where
  "ParseInt s =
     (let (neg, ds) = (case s of c # r \<Rightarrow> if c = CHR ''-'' then (True, r)
                                   else if c = CHR ''+'' then (False, r) else (False, s)
                        | [] \<Rightarrow> (False, s));
          i = (if neg then - int (read_digits ds) else int (read_digits ds))
      in if ds = [] \<or> \<not> list_all is_digit ds \<or> \<not> fits_int64 i then None
         else Some (word_of_int i))"

lemma sint_word_of_int: "fits_int64 i \<Longrightarrow> sint (word_of_int i :: go_int) = i"
  by (simp add: fits_int64_def sint_sbintrunc' signed_take_bit_int_eq_self)

lemma fits_int64_sint [simp]: "fits_int64 (sint (w :: go_int))"
  by (simp add: fits_int64_def)

lemma digit_not_sign: "is_digit c \<Longrightarrow> c \<noteq> CHR ''-'' \<and> c \<noteq> CHR ''+''"
  by (auto simp: is_digit_def)

theorem ParseInt_show_int: "ParseInt (show_int (sint w)) = Some w"
proof (cases "sint w < 0")
  case True
  then show ?thesis using show_nat_digits [of "nat (- sint w)"]
    by (simp add: ParseInt_def show_int_def)
next
  case False
  obtain c r where s: "show_nat (nat (sint w)) = c # r"
    using show_nat_digits [of "nat (sint w)"] by (cases "show_nat (nat (sint w))") auto
  with False show ?thesis
    using show_nat_digits [of "nat (sint w)"] digit_not_sign [of c] read_show_nat [of "nat (sint w)"]
    by (simp add: ParseInt_def show_int_def)
qed

section \<open>Hexadecimal digits\<close>

definition hex_value :: "char \<Rightarrow> nat option" where
  "hex_value c =
     (if is_digit c then Some (code c - 48)
      else if 97 \<le> code c \<and> code c \<le> 102 then Some (code c - 87)
      else if 65 \<le> code c \<and> code c \<le> 70 then Some (code c - 55)
      else None)"

definition hex_char :: "nat \<Rightarrow> char" where
  "hex_char n = char_of (if n < 10 then 48 + n else 87 + n)"

lemma code_hex_char: "n < 16 \<Longrightarrow> code (hex_char n) = (if n < 10 then 48 + n else 87 + n)"
  by (simp add: hex_char_def)

lemma hex_value_hex_char [simp]: "n < 16 \<Longrightarrow> hex_value (hex_char n) = Some n"
  by (auto simp: hex_value_def is_digit_def code_hex_char)

end
