(* ===== verification/Go_Float.thy ===== *)
theory Go_Float
  imports Go_Strconv "HOL-Library.Log_Nat"
begin

text \<open>
  What the sources use of Go's \<open>float64\<close>. A finite number is a rational; \<open>float_of_rat\<close> rounds to
  the nearest one with a 53-bit significand and an exponent of at least -1074, ties to even.
  \<open>ParseFloat\<close> is \<open>strconv.ParseFloat\<close> on the numbers that JSON has.
\<close>

section \<open>Rounding\<close>

definition pow2 :: "int \<Rightarrow> rat" where
  "pow2 e = (if 0 \<le> e then 2 ^ nat e else 1 / 2 ^ nat (- e))"

definition round_even :: "rat \<Rightarrow> int" where
  "round_even y =
     (let n = \<lfloor>y\<rfloor>; r = y - of_int n in
      if r < 1 / 2 then n else if 1 / 2 < r then n + 1 else if even n then n else n + 1)"

definition float_pos :: "rat \<Rightarrow> rat" where
  "float_pos x =
     (let (p, q) = quotient_of x;
          d = bitlen p - bitlen q;
          e = max (if x < pow2 d then d - 53 else d - 52) (- 1074)
      in of_int (round_even (x / pow2 e)) * pow2 e)"

definition float_of_rat :: "rat \<Rightarrow> rat" where
  "float_of_rat x = (if x = 0 then 0 else if x < 0 then - float_pos (- x) else float_pos x)"

lemma pow2_nonzero [simp]: "pow2 e \<noteq> 0"
  by (simp add: pow2_def)

lemma round_even_int [simp]: "round_even (of_int n) = n"
  by (simp add: round_even_def)

text \<open>Integers of at most 53 bits are converted exactly.\<close>

lemma float_pos_exact:
  assumes "0 < n" and "n < 2 ^ 53"
  shows "float_pos (of_int n) = of_int n"
proof -
  let ?a = "bitlen n"
  have bounds: "2 ^ nat (?a - 1) \<le> n" "n < 2 ^ nat ?a" using bitlen_bounds [of n] assms(1) by simp_all
  have "(2 :: int) ^ nat (?a - 1) < 2 ^ 53" using bounds(1) assms(2) by (rule le_less_trans)
  then have "nat (?a - 1) < 53" by (rule power_less_imp_less_exp [rotated]) simp
  then have a: "0 < ?a" "?a \<le> 53" using assms(1) bitlen_nonneg [of n] bitlen_eq_zero_iff [of n] by linarith+
  have one: "bitlen 1 = 1" by (simp add: bitlen_def floorlog_def)
  have "(2 :: rat) ^ nat (?a - 1) \<le> of_int n"
    using bounds(1) by (metis of_int_le_iff of_int_numeral of_int_power)
  then have "\<not> (of_int n :: rat) < pow2 (?a - 1)" using a(1) by (simp add: pow2_def)
  then have f: "float_pos (of_int n) = of_int (round_even (of_int n / pow2 (?a - 53))) * pow2 (?a - 53)"
    using a(1) by (simp add: float_pos_def one Let_def max_absorb1)
  have "(of_int n :: rat) / pow2 (?a - 53) = of_int (n * 2 ^ nat (53 - ?a))"
    using a(2) by (auto simp: pow2_def)
  then show ?thesis unfolding f using a(2) by (simp only: round_even_int) (auto simp: pow2_def)
qed

lemma float_of_rat_exact: "\<bar>n\<bar> < 2 ^ 53 \<Longrightarrow> float_of_rat (of_int n) = of_int n"
  using float_pos_exact [of n] float_pos_exact [of "- n"] by (auto simp: float_of_rat_def)

section \<open>\<open>strconv.ParseFloat\<close>\<close>

text \<open>
  The digits of the exponent stop counting once it has reached 10000. A number that rounds to
  2 to the power 1024 or beyond is out of range.
\<close>

fun exponent_digits :: "int \<Rightarrow> string \<Rightarrow> int" where
  "exponent_digits e [] = e"
| "exponent_digits e (c # s) =
     exponent_digits (if e < 10000 then e * 10 + int (digit_value c) else e) s"

definition exponent_part :: "string \<Rightarrow> int" where
  "exponent_part s =
     (case s of
        _ # c # r \<Rightarrow> (if c = CHR ''-'' then - exponent_digits 0 r
                     else if c = CHR ''+'' then exponent_digits 0 r
                     else exponent_digits 0 (c # r))
      | _ \<Rightarrow> 0)"

fun decimal_digits :: "int \<Rightarrow> string \<Rightarrow> int" where
  "decimal_digits x [] = x"
| "decimal_digits x (c # s) = decimal_digits (x * 10 + int (digit_value c)) s"

definition pow10 :: "int \<Rightarrow> rat" where
  "pow10 e = (if 0 \<le> e then 10 ^ nat e else 1 / 10 ^ nat (- e))"

definition number_value :: "string \<Rightarrow> rat" where
  "number_value s =
     (let whole = takeWhile is_digit s;
          rest = dropWhile is_digit s;
          (fraction, rest) = (case rest of
              c # t \<Rightarrow> if c = CHR ''.'' then (takeWhile is_digit t, dropWhile is_digit t) else ([], rest)
            | [] \<Rightarrow> ([], rest))
      in of_int (decimal_digits 0 (whole @ fraction)) * pow10 (exponent_part rest - int (length fraction)))"

definition ParseFloat :: "string \<Rightarrow> float64 option" where
  "ParseFloat s =
     (let x = (case s of c # r \<Rightarrow> if c = CHR ''-'' then - number_value r else number_value s
                      | [] \<Rightarrow> number_value s);
          y = float_of_rat x
      in if 2 ^ 1024 \<le> \<bar>y\<bar> then None else Some (Finite y))"

end
