(* ===== verification/Go_Json.thy ===== *)
theory Go_Json
  imports Go_Float
begin

text \<open>
  What the sources use of \<open>encoding/json\<close>, on bytes. Reading: the scanner as a tokeniser and a
  stack machine over its tokens (the stack is the scanner's \<open>parseState\<close>, with its limit), the
  string decoder with escapes, surrogate pairs and repair of broken UTF-8, and the decoding of
  an object into a struct of strings and numbers. Writing: \<open>json.Marshal\<close> of structs of strings
  and integers, with HTML escaping. The theorems: a string that is written is read back (repaired when it was not
  valid UTF-8), and a struct that is written is read back as the object of its fields.
\<close>

section \<open>UTF-8\<close>

definition byte_in :: "nat \<Rightarrow> char \<Rightarrow> nat \<Rightarrow> bool" where
  "byte_in lo c hi \<longleftrightarrow> lo \<le> code c \<and> code c \<le> hi"

text \<open>The first rune of a byte sequence and what follows it, if the sequence starts with one.\<close>

fun utf8_two :: "string \<Rightarrow> bool" where
  "utf8_two [a, b] \<longleftrightarrow> byte_in 0xC2 a 0xDF \<and> byte_in 0x80 b 0xBF"
| "utf8_two s \<longleftrightarrow> False"

fun utf8_three :: "string \<Rightarrow> bool" where
  "utf8_three [a, b, c] \<longleftrightarrow>
     (code a = 0xE0 \<and> byte_in 0xA0 b 0xBF \<or> byte_in 0xE1 a 0xEC \<and> byte_in 0x80 b 0xBF \<or>
      code a = 0xED \<and> byte_in 0x80 b 0x9F \<or> byte_in 0xEE a 0xEF \<and> byte_in 0x80 b 0xBF) \<and>
     byte_in 0x80 c 0xBF"
| "utf8_three s \<longleftrightarrow> False"

fun utf8_four :: "string \<Rightarrow> bool" where
  "utf8_four [a, b, c, d] \<longleftrightarrow>
     (code a = 0xF0 \<and> byte_in 0x90 b 0xBF \<or> byte_in 0xF1 a 0xF3 \<and> byte_in 0x80 b 0xBF \<or>
      code a = 0xF4 \<and> byte_in 0x80 b 0x8F) \<and>
     byte_in 0x80 c 0xBF \<and> byte_in 0x80 d 0xBF"
| "utf8_four s \<longleftrightarrow> False"

definition utf8_size :: "string \<Rightarrow> nat" where
  "utf8_size s =
     (if s = [] then 0
      else if code (hd s) < 0x80 then 1
      else if utf8_two (take 2 s) then 2
      else if utf8_three (take 3 s) then 3
      else if utf8_four (take 4 s) then 4
      else 0)"

definition replacement :: string where
  "replacement = [CHR 0xEF, CHR 0xBF, CHR 0xBD]"

definition utf8_encode :: "nat \<Rightarrow> string" where
  "utf8_encode n =
     (if n < 0x80 then [char_of n]
      else if n < 0x800 then [char_of (0xC0 + n div 64), char_of (0x80 + n mod 64)]
      else if n < 0x10000
      then [char_of (0xE0 + n div 4096), char_of (0x80 + n div 64 mod 64), char_of (0x80 + n mod 64)]
      else [char_of (0xF0 + n div 262144), char_of (0x80 + n div 4096 mod 64),
            char_of (0x80 + n div 64 mod 64), char_of (0x80 + n mod 64)])"

text \<open>Broken bytes become U+FFFD, one for each byte.\<close>

function to_valid :: "string \<Rightarrow> string" where
  "to_valid s =
     (if s = [] then []
      else if utf8_size s = 0 then replacement @ to_valid (tl s)
      else take (utf8_size s) s @ to_valid (drop (utf8_size s) s))"
  by auto
termination by (relation "measure length") auto

declare to_valid.simps [simp del]

lemma utf8_size_le: "utf8_size s \<le> length s"
proof (rule ccontr)
  assume "\<not> utf8_size s \<le> length s"
  then show False
    by (cases s rule: list.exhaust; cases "tl s" rule: list.exhaust; cases "tl (tl s)" rule: list.exhaust;
        cases "tl (tl (tl s))" rule: list.exhaust) (auto simp: utf8_size_def split: if_splits)
qed

lemma utf8_size_take_le: "utf8_size s \<le> 4"
  by (simp add: utf8_size_def)

section \<open>Strings in JSON\<close>

fun read_hex :: "nat \<Rightarrow> string \<Rightarrow> nat \<Rightarrow> (nat \<times> string) option" where
  "read_hex 0 s acc = Some (acc, s)"
| "read_hex (Suc k) [] acc = None"
| "read_hex (Suc k) (c # s) acc =
     (case hex_value c of None \<Rightarrow> None | Some d \<Rightarrow> read_hex k s (acc * 16 + d))"

definition read_u4 :: "string \<Rightarrow> (nat \<times> string) option" where
  "read_u4 s = read_hex 4 s 0"

definition high_surrogate :: "nat \<Rightarrow> bool" where
  "high_surrogate n \<longleftrightarrow> 0xD800 \<le> n \<and> n < 0xDC00"

definition low_surrogate :: "nat \<Rightarrow> bool" where
  "low_surrogate n \<longleftrightarrow> 0xDC00 \<le> n \<and> n < 0xE000"

text \<open>A second escape that completes a surrogate pair.\<close>

definition read_pair :: "nat \<Rightarrow> string \<Rightarrow> (nat \<times> string) option" where
  "read_pair n s =
     (case s of
        a # b # r \<Rightarrow>
          (if a = CHR 0x5C \<and> b = CHR ''u'' \<and> high_surrogate n
           then (case read_u4 r of
                   Some (m, r') \<Rightarrow>
                     (if low_surrogate m
                      then Some (0x10000 + (n - 0xD800) * 1024 + (m - 0xDC00), r') else None)
                 | None \<Rightarrow> None)
           else None)
      | _ \<Rightarrow> None)"

text \<open>What follows a backslash: the bytes it stands for and the rest.\<close>

definition read_escape :: "string \<Rightarrow> (string \<times> string) option" where
  "read_escape s =
     (case s of
        [] \<Rightarrow> None
      | c # r \<Rightarrow>
          (if c \<in> {CHR 0x22, CHR 0x5C, CHR ''/''} then Some ([c], r)
           else if c = CHR ''b'' then Some ([CHR 0x08], r)
           else if c = CHR ''f'' then Some ([CHR 0x0C], r)
           else if c = CHR ''n'' then Some ([CHR 0x0A], r)
           else if c = CHR ''r'' then Some ([CHR 0x0D], r)
           else if c = CHR ''t'' then Some ([CHR 0x09], r)
           else if c = CHR ''u''
           then (case read_u4 r of
                   None \<Rightarrow> None
                 | Some (n, r1) \<Rightarrow>
                     (if high_surrogate n \<or> low_surrogate n
                      then (case read_pair n r1 of
                              Some (m, r2) \<Rightarrow> Some (utf8_encode m, r2)
                            | None \<Rightarrow> Some (replacement, r1))
                      else Some (utf8_encode n, r1)))
           else None))"

lemma read_hex_length: "read_hex k s acc = Some (n, r) \<Longrightarrow> length r \<le> length s"
  by (induction k s acc rule: read_hex.induct) (auto split: option.splits)

lemma read_pair_length: "read_pair n s = Some (m, r) \<Longrightarrow> length r \<le> length s"
  by (auto simp: read_pair_def read_u4_def dest!: read_hex_length split: list.splits if_splits option.splits)

lemma read_escape_length: "read_escape s = Some (out, r) \<Longrightarrow> length r \<le> length s"
  by (auto simp: read_escape_def read_u4_def dest!: read_hex_length read_pair_length
      split: list.splits if_splits option.splits)

text \<open>The text after an opening quote: the decoded bytes and what follows the closing quote.\<close>

function unquote :: "string \<Rightarrow> (string \<times> string) option" where
  "unquote s =
     (case s of
        [] \<Rightarrow> None
      | c # r \<Rightarrow>
          (if c = CHR 0x22 then Some ([], r)
           else if c = CHR 0x5C
           then (case read_escape r of
                   None \<Rightarrow> None
                 | Some (out, r') \<Rightarrow> map_option (apfst ((@) out)) (unquote r'))
           else if code c < 0x20 then None
           else if utf8_size s = 0 then map_option (apfst ((@) replacement)) (unquote r)
           else map_option (apfst ((@) (take (utf8_size s) s))) (unquote (drop (utf8_size s) s))))"
  by auto
termination
  by (relation "measure length") (auto dest: read_escape_length)

declare unquote.simps [simp del]

lemma unquote_length: "unquote s = Some (out, r) \<Longrightarrow> length r < length s"
proof (induction s arbitrary: out rule: unquote.induct)
  case (1 s)
  show ?case
  proof (cases s)
    case Nil
    with 1(4) show ?thesis by (simp add: unquote.simps)
  next
    case (Cons c t)
    from 1(4) Cons show ?thesis
      using 1(1) [OF Cons] 1(2) [OF Cons] 1(3) [OF Cons]
      by (subst (asm) unquote.simps)
        (fastforce dest: read_escape_length split: if_splits option.splits)
  qed
qed


section \<open>Numbers and tokens\<close>

definition lex_exponent :: "string \<Rightarrow> string \<Rightarrow> (string \<times> string) option" where
  "lex_exponent acc s =
     (case s of
        [] \<Rightarrow> Some (acc, s)
      | c # r \<Rightarrow>
          (if c = CHR ''e'' \<or> c = CHR ''E''
           then (let (sign, r1) = (case r of d # r' \<Rightarrow> if d = CHR ''+'' \<or> d = CHR ''-'' then ([d], r') else ([], r)
                                    | [] \<Rightarrow> ([], r))
                 in if takeWhile is_digit r1 = [] then None
                    else Some (acc @ [c] @ sign @ takeWhile is_digit r1, dropWhile is_digit r1))
           else Some (acc, s)))"

definition lex_fraction :: "string \<Rightarrow> string \<Rightarrow> (string \<times> string) option" where
  "lex_fraction acc s =
     (case s of
        [] \<Rightarrow> Some (acc, s)
      | c # r \<Rightarrow>
          (if c = CHR ''.''
           then (if takeWhile is_digit r = [] then None
                 else lex_exponent (acc @ [c] @ takeWhile is_digit r) (dropWhile is_digit r))
           else lex_exponent acc s))"

definition lex_number :: "string \<Rightarrow> (string \<times> string) option" where
  "lex_number s =
     (let (sign, s1) = (case s of c # r \<Rightarrow> if c = CHR ''-'' then ([c], r) else ([], s) | [] \<Rightarrow> ([], s))
      in case s1 of
           [] \<Rightarrow> None
         | c # r \<Rightarrow>
             (if c = CHR ''0'' then lex_fraction (sign @ [c]) r
              else if is_digit c then lex_fraction (sign @ takeWhile is_digit s1) (dropWhile is_digit s1)
              else None))"

lemma lex_exponent_length: "lex_exponent acc s = Some (n, r) \<Longrightarrow> length r \<le> length s"
  using length_dropWhile_le
  by (fastforce simp: lex_exponent_def Let_def le_SucI split: list.splits if_splits prod.splits
      intro: le_trans)

lemma lex_fraction_length: "lex_fraction acc s = Some (n, r) \<Longrightarrow> length r \<le> length s"
  using length_dropWhile_le
  by (fastforce simp: lex_fraction_def le_SucI dest: lex_exponent_length split: list.splits if_splits
      intro: le_trans)

lemma lex_fraction_dropWhile_length:
  "lex_fraction acc (dropWhile is_digit s) = Some (n, r) \<Longrightarrow> length r \<le> length s"
  using lex_fraction_length length_dropWhile_le le_trans by metis

lemma lex_number_length: "lex_number s = Some (n, r) \<Longrightarrow> length r < length s"
  by (auto simp: lex_number_def Let_def less_Suc_eq_le le_SucI
      dest: lex_fraction_length lex_fraction_dropWhile_length split: list.splits if_splits)

datatype json =
    JNull
  | JBool bool
  | JNumber string
  | JString string
  | JArray "json list"
  | JObject "(string \<times> json) list"

datatype token = Punct char | Scalar json | Bad

definition is_space :: "char \<Rightarrow> bool" where
  "is_space c \<longleftrightarrow> c \<in> {CHR 0x20, CHR 0x09, CHR 0x0D, CHR 0x0A}"

definition is_punct :: "char \<Rightarrow> bool" where
  "is_punct c \<longleftrightarrow> c \<in> {CHR ''{'', CHR ''}'', CHR ''['', CHR '']'', CHR '','', CHR '':''}"

text \<open>The tokens of a text up to the first byte that starts none.\<close>

function tokenise :: "string \<Rightarrow> token list" where
  "tokenise s =
     (case s of
        [] \<Rightarrow> []
      | c # r \<Rightarrow>
          (if is_space c then tokenise r
           else if is_punct c then Punct c # tokenise r
           else if c = CHR 0x22
           then (case unquote r of None \<Rightarrow> [Bad] | Some (t, r') \<Rightarrow> Scalar (JString t) # tokenise r')
           else if take 4 s = ''true'' then Scalar (JBool True) # tokenise (drop 4 s)
           else if take 5 s = ''false'' then Scalar (JBool False) # tokenise (drop 5 s)
           else if take 4 s = ''null'' then Scalar JNull # tokenise (drop 4 s)
           else (case lex_number s of
                   None \<Rightarrow> [Bad]
                 | Some (n, r') \<Rightarrow> Scalar (JNumber n) # tokenise r')))"
  by auto
termination
  by (relation "measure length") (auto dest: unquote_length lex_number_length)

declare tokenise.simps [simp del]

section \<open>Values\<close>

text \<open>
  The containers being read, innermost first, with what was read of them so far (in reverse);
  an object frame holds the key whose value is awaited. The scanner refuses more than 10000
  open containers.
\<close>

datatype frame = InArray "json list" | InObject "(string \<times> json) list" string

datatype expect =
    Value
  | FirstElement
  | FirstKey "(string \<times> json) list"
  | NextKey "(string \<times> json) list"
  | Colon "(string \<times> json) list" string
  | After json

definition max_depth :: nat where
  "max_depth = 10000"

text \<open>
  \<open>After v\<close> stands behind a complete value: with no container open the value is the result and
  the tokens behind it are left; otherwise a comma or a closing bracket has to follow.
\<close>

fun parse :: "expect \<Rightarrow> frame list \<Rightarrow> token list \<Rightarrow> (json \<times> token list) option" where
  "parse (After v) [] ts = Some (v, ts)"
| "parse e st [] = None"
| "parse Value st (Scalar v # ts) = parse (After v) st ts"
| "parse Value st (Punct c # ts) =
     (if max_depth \<le> length st then None
      else if c = CHR ''['' then parse FirstElement st ts
      else if c = CHR ''{'' then parse (FirstKey []) st ts
      else None)"
| "parse FirstElement st (Scalar v # ts) = parse (After v) (InArray [] # st) ts"
| "parse FirstElement st (Punct c # ts) =
     (if c = CHR '']'' then parse (After (JArray [])) st ts
      else if max_depth \<le> Suc (length st) then None
      else if c = CHR ''['' then parse FirstElement (InArray [] # st) ts
      else if c = CHR ''{'' then parse (FirstKey []) (InArray [] # st) ts
      else None)"
| "parse (FirstKey ms) st (Punct c # ts) =
     (if c = CHR ''}'' then parse (After (JObject (rev ms))) st ts else None)"
| "parse (FirstKey ms) st (Scalar v # ts) =
     (case v of JString k \<Rightarrow> parse (Colon ms k) st ts | _ \<Rightarrow> None)"
| "parse (NextKey ms) st (Scalar v # ts) =
     (case v of JString k \<Rightarrow> parse (Colon ms k) st ts | _ \<Rightarrow> None)"
| "parse (NextKey ms) st (Punct c # ts) = None"
| "parse (Colon ms k) st (Punct c # ts) =
     (if c = CHR '':'' then parse Value (InObject ms k # st) ts else None)"
| "parse (Colon ms k) st (Scalar v # ts) = None"
| "parse (After v) (InArray vs # st) (Punct c # ts) =
     (if c = CHR '','' then parse Value (InArray (v # vs) # st) ts
      else if c = CHR '']'' then parse (After (JArray (rev (v # vs)))) st ts
      else None)"
| "parse (After v) (InObject ms k # st) (Punct c # ts) =
     (if c = CHR '','' then parse (NextKey ((k, v) # ms)) st ts
      else if c = CHR ''}'' then parse (After (JObject (rev ((k, v) # ms)))) st ts
      else None)"
| "parse (After v) (f # st) (Scalar w # ts) = None"
| "parse e st (Bad # ts) = None"

text \<open>
  \<open>Decoder.Decode\<close>: no token left is \<open>io.EOF\<close>; otherwise one value is read, or the text is
  refused.
\<close>

datatype decoded = EndOfInput | Refused | Decoded json "token list"

definition decode_next :: "token list \<Rightarrow> decoded" where
  "decode_next ts =
     (if ts = [] then EndOfInput
      else case parse Value [] ts of None \<Rightarrow> Refused | Some (v, ts') \<Rightarrow> Decoded v ts')"


section \<open>Decoding into a struct\<close>

text \<open>
  The structs the sources decode have string, integer and float fields with lower-case ASCII names. A
  key matches a field up to Unicode case folding; under it the only runes outside ASCII that
  fold to a letter of ASCII are U+017F (to s) and U+212A (to k). \<open>null\<close> leaves a field as it
  is, a later duplicate wins, an unknown key or a value of another type is an error.
\<close>

definition lower :: "char \<Rightarrow> char" where
  "lower c = (if 65 \<le> code c \<and> code c \<le> 90 then char_of (code c + 32) else c)"

fun fold_name :: "string \<Rightarrow> string" where
  "fold_name [] = []"
| "fold_name [a] = [lower a]"
| "fold_name [a, b] = (if a = CHR 0xC5 \<and> b = CHR 0xBF then ''s'' else [lower a, lower b])"
| "fold_name (a # b # c # s) =
     (if a = CHR 0xE2 \<and> b = CHR 0x84 \<and> c = CHR 0xAA then CHR ''k'' # fold_name s
      else if a = CHR 0xC5 \<and> b = CHR 0xBF then CHR ''s'' # fold_name (c # s)
      else lower a # fold_name (b # c # s))"

datatype field_kind = StringField | IntField | FloatField

datatype read_value = ReadString string | ReadInt go_int | ReadFloat float64

fun field_of :: "field_kind \<Rightarrow> json \<Rightarrow> read_value option" where
  "field_of StringField (JString s) = Some (ReadString s)"
| "field_of IntField (JNumber n) = map_option ReadInt (ParseInt n)"
| "field_of FloatField (JNumber n) = map_option ReadFloat (ParseFloat n)"
| "field_of k v = None"

fun decode_members ::
  "(string \<times> field_kind) list \<Rightarrow> (string \<times> json) list \<Rightarrow> (string \<rightharpoonup> read_value) \<Rightarrow>
   (string \<rightharpoonup> read_value) option" where
  "decode_members kinds [] m = Some m"
| "decode_members kinds ((k, v) # ms) m =
     (case map_of kinds (fold_name k) of
        None \<Rightarrow> None
      | Some kind \<Rightarrow>
          (if v = JNull then decode_members kinds ms m
           else case field_of kind v of
                  None \<Rightarrow> None
                | Some w \<Rightarrow> decode_members kinds ms (m(fold_name k \<mapsto> w))))"

fun decode_struct :: "(string \<times> field_kind) list \<Rightarrow> json \<Rightarrow> (string \<rightharpoonup> read_value) option" where
  "decode_struct kinds JNull = Some (\<lambda>_. None)"
| "decode_struct kinds (JObject ms) = decode_members kinds ms (\<lambda>_. None)"
| "decode_struct kinds v = None"

definition string_field :: "(string \<rightharpoonup> read_value) \<Rightarrow> string \<Rightarrow> string" where
  "string_field m n = (case m n of Some (ReadString s) \<Rightarrow> s | _ \<Rightarrow> '''')"

definition int_field :: "(string \<rightharpoonup> read_value) \<Rightarrow> string \<Rightarrow> go_int" where
  "int_field m n = (case m n of Some (ReadInt i) \<Rightarrow> i | _ \<Rightarrow> 0)"

definition float_field :: "(string \<rightharpoonup> read_value) \<Rightarrow> string \<Rightarrow> float64" where
  "float_field m n = (case m n of Some (ReadFloat x) \<Rightarrow> x | _ \<Rightarrow> Finite 0)"

section \<open>Writing\<close>

definition u_escape :: "nat \<Rightarrow> string" where
  "u_escape n = [CHR 0x5C, CHR ''u'', hex_char (n div 4096 mod 16), hex_char (n div 256 mod 16),
     hex_char (n div 16 mod 16), hex_char (n mod 16)]"

definition escape_ascii :: "char \<Rightarrow> string" where
  "escape_ascii c =
     (if c = CHR 0x22 \<or> c = CHR 0x5C then [CHR 0x5C, c]
      else if c = CHR 0x08 then [CHR 0x5C, CHR ''b'']
      else if c = CHR 0x0C then [CHR 0x5C, CHR ''f'']
      else if c = CHR 0x0A then [CHR 0x5C, CHR ''n'']
      else if c = CHR 0x0D then [CHR 0x5C, CHR ''r'']
      else if c = CHR 0x09 then [CHR 0x5C, CHR ''t'']
      else if code c < 0x20 \<or> c = CHR ''<'' \<or> c = CHR ''>'' \<or> c = CHR ''&'' then u_escape (code c)
      else [c])"

definition escape_rune :: "string \<Rightarrow> string" where
  "escape_rune s =
     (if s = [CHR 0xE2, CHR 0x80, CHR 0xA8] then u_escape 0x2028
      else if s = [CHR 0xE2, CHR 0x80, CHR 0xA9] then u_escape 0x2029
      else s)"

function quote_bytes :: "string \<Rightarrow> string" where
  "quote_bytes s =
     (case s of
        [] \<Rightarrow> []
      | c # r \<Rightarrow>
          (if code c < 0x80 then escape_ascii c @ quote_bytes r
           else if utf8_size s = 0 then u_escape 0xFFFD @ quote_bytes r
           else escape_rune (take (utf8_size s) s) @ quote_bytes (drop (utf8_size s) s)))"
  by auto
termination by (relation "measure length") auto

declare quote_bytes.simps [simp del]

definition json_string :: "string \<Rightarrow> string" where
  "json_string s = CHR 0x22 # quote_bytes s @ [CHR 0x22]"

datatype field_value = VStr string | VNum go_int

fun marshal_value :: "field_value \<Rightarrow> string" where
  "marshal_value (VStr s) = json_string s"
| "marshal_value (VNum i) = show_int (sint i)"

fun marshal_members :: "(string \<times> field_value) list \<Rightarrow> string" where
  "marshal_members [] = []"
| "marshal_members [(n, v)] = json_string n @ CHR '':'' # marshal_value v"
| "marshal_members ((n, v) # f # fs) =
     json_string n @ CHR '':'' # marshal_value v @ CHR '','' # marshal_members (f # fs)"

definition marshal_struct :: "(string \<times> field_value) list \<Rightarrow> string" where
  "marshal_struct fs = CHR ''{'' # marshal_members fs @ [CHR ''}'']"

section \<open>What is written is read back\<close>

lemma read_u4_digits:
  assumes "hex_value a = Some i" and "hex_value b = Some j" and "hex_value c = Some k"
    and "hex_value d = Some l"
  shows "read_u4 (a # b # c # d # r) = Some (((i * 16 + j) * 16 + k) * 16 + l, r)"
proof -
  have four: "4 = Suc (Suc (Suc (Suc 0)))" by simp
  show ?thesis unfolding read_u4_def four using assms by simp
qed

lemma read_u4_u_escape:
  assumes "n < 65536"
  shows "read_u4 (tl (tl (u_escape n)) @ r) = Some (n, r)"
proof -
  have "((n div 4096 mod 16 * 16 + n div 256 mod 16) * 16 + n div 16 mod 16) * 16 + n mod 16 = n"
  proof -
    have "n div 256 = n div 16 div 16" "n div 4096 = n div 16 div 16 div 16"
      by (simp_all flip: div_mult2_eq)
    moreover have "n div 16 div 16 div 16 < 16" using assms by simp
    ultimately show ?thesis
      using div_mult_mod_eq [of n 16] div_mult_mod_eq [of "n div 16" 16]
        div_mult_mod_eq [of "n div 16 div 16" 16] by simp
  qed
  moreover have "read_u4 (tl (tl (u_escape n)) @ r) =
      Some (((n div 4096 mod 16 * 16 + n div 256 mod 16) * 16 + n div 16 mod 16) * 16 + n mod 16, r)"
    unfolding u_escape_def list.sel append_Cons append_Nil by (rule read_u4_digits) simp_all
  ultimately show ?thesis by (simp only:)
qed

lemma read_escape_u_escape:
  assumes "n < 65536" and "\<not> high_surrogate n" and "\<not> low_surrogate n"
  shows "read_escape (tl (u_escape n) @ r) = Some (utf8_encode n, r)"
  using assms read_u4_u_escape [OF assms(1), of r]
  by (simp add: read_escape_def u_escape_def)


text \<open>A rune is recognised by its own bytes, whatever follows.\<close>

lemma utf8_size_take:
  assumes "utf8_size s = k" and "0 < k"
  shows "utf8_size (take k s @ r) = k"
proof -
  have l: "k \<le> length s" using utf8_size_le [of s] assms by simp
  have h: "s \<noteq> []" "take k s @ r \<noteq> []" "hd (take k s @ r) = hd s"
    using l assms(2) by (cases s; cases k; simp)+
  from assms consider "k = 1" "code (hd s) < 0x80"
    | "k = 2" "\<not> code (hd s) < 0x80" "utf8_two (take 2 s)"
    | "k = 3" "\<not> code (hd s) < 0x80" "\<not> utf8_two (take 2 s)" "utf8_three (take 3 s)"
    | "k = 4" "\<not> code (hd s) < 0x80" "\<not> utf8_two (take 2 s)" "\<not> utf8_three (take 3 s)" "utf8_four (take 4 s)"
    unfolding utf8_size_def by (metis less_numeral_extra(3))
  then show ?thesis
    unfolding utf8_size_def h(3) using h(2) l by cases (simp_all add: min_absorb2)
qed

lemma unquote_rune:
  assumes "utf8_size s = k" and "0 < k" and "128 \<le> code (hd s)"
  shows "unquote (take k s @ r) = map_option (apfst ((@) (take k s))) (unquote r)"
proof -
  have "k \<le> length s" using utf8_size_le [of s] assms by simp
  with assms(2) obtain c t where s: "take k s = c # t" by (cases s; cases k) auto
  moreover from s have "c = hd s" by (cases s; cases k) auto
  moreover have "length (take k s) = k" using \<open>k \<le> length s\<close> by simp
  ultimately show ?thesis
    using utf8_size_take [OF assms(1,2), of r] assms(3)
    by (subst unquote.simps) (auto simp: s)
qed


lemma unquote_backslash:
  assumes "read_escape s = Some (out, r)"
  shows "unquote (CHR 0x5C # s) = map_option (apfst ((@) out)) (unquote r)"
  using assms by (subst unquote.simps) simp

lemma unquote_u_escape:
  assumes "n < 65536" and "\<not> high_surrogate n" and "\<not> low_surrogate n"
  shows "unquote (u_escape n @ r) = map_option (apfst ((@) (utf8_encode n))) (unquote r)"
proof -
  have "u_escape n @ r = CHR 0x5C # (tl (u_escape n) @ r)" by (simp add: u_escape_def)
  then show ?thesis using unquote_backslash [OF read_escape_u_escape [OF assms, of r]] by (simp only:)
qed

lemma unquote_plain:
  assumes "code c < 0x80" and "\<not> code c < 0x20" and "c \<noteq> CHR 0x22" and "c \<noteq> CHR 0x5C"
  shows "unquote (c # r) = map_option (apfst ((@) [c])) (unquote r)"
  using assms by (subst unquote.simps) (simp add: utf8_size_def)

lemma unquote_escape_ascii:
  assumes "code c < 0x80"
  shows "unquote (escape_ascii c @ r) = map_option (apfst ((@) [c])) (unquote r)"
proof -
  have u: "unquote (u_escape (code c) @ r) = map_option (apfst ((@) [c])) (unquote r)"
  proof -
    have "utf8_encode (code c) = [c]" using assms by (simp add: utf8_encode_def)
    with assms unquote_u_escape [of "code c" r] show ?thesis
      by (simp add: high_surrogate_def low_surrogate_def)
  qed
  have "(\<exists>d. escape_ascii c = [CHR 0x5C, d] \<and> read_escape (d # r) = Some ([c], r)) \<or>
      escape_ascii c = u_escape (code c) \<or>
      escape_ascii c = [c] \<and> \<not> code c < 0x20 \<and> c \<noteq> CHR 0x22 \<and> c \<noteq> CHR 0x5C"
    unfolding escape_ascii_def by (simp add: read_escape_def)
  then show ?thesis
    using u unquote_plain [OF assms, of r] unquote_backslash [of _ "[c]" r] by auto
qed

lemma unquote_escape_rune:
  assumes "utf8_size s = k" and "0 < k" and "128 \<le> code (hd s)"
  shows "unquote (escape_rune (take k s) @ r) = map_option (apfst ((@) (take k s))) (unquote r)"
proof -
  have "utf8_encode 0x2028 = [CHR 0xE2, CHR 0x80, CHR 0xA8]"
    "utf8_encode 0x2029 = [CHR 0xE2, CHR 0x80, CHR 0xA9]"
    by (simp_all add: utf8_encode_def char_of_def bit_iff_odd)
  then show ?thesis
    using unquote_rune [OF assms, of r] unquote_u_escape [of "0x2028" r] unquote_u_escape [of "0x2029" r]
    by (auto simp: escape_rune_def high_surrogate_def low_surrogate_def)
qed

lemma utf8_encode_replacement: "utf8_encode 0xFFFD = replacement"
  by (simp add: utf8_encode_def replacement_def char_of_def bit_iff_odd)

lemma map_option_apfst: "map_option (apfst ((@) a)) (Some (b, r)) = Some (a @ b, r)"
  by simp

theorem unquote_quote_bytes: "unquote (quote_bytes s @ CHR 0x22 # r) = Some (to_valid s, r)"
proof (induction s rule: quote_bytes.induct)
  case (1 s)
  show ?case
  proof (cases s)
    case Nil
    then show ?thesis by (simp add: quote_bytes.simps to_valid.simps unquote.simps)
  next
    case (Cons c t)
    note step = quote_bytes.simps [of s] to_valid.simps [of s]
    consider (ascii) "code c < 0x80" | (broken) "128 \<le> code c" "utf8_size s = 0"
      | (rune) "128 \<le> code c" "utf8_size s \<noteq> 0" by linarith
    then show ?thesis
    proof cases
      case ascii
      then have "utf8_size s = 1" by (simp add: Cons utf8_size_def)
      with ascii 1(1) [OF Cons] show ?thesis
        unfolding step by (simp add: Cons unquote_escape_ascii del: append_assoc flip: append_assoc)
          (simp add: unquote_escape_ascii)
    next
      case broken
      then show ?thesis
        using 1(2) [OF Cons] unquote_u_escape [of "0xFFFD" "quote_bytes t @ CHR 0x22 # r"]
        unfolding step by (simp add: Cons high_surrogate_def low_surrogate_def utf8_encode_replacement)
    next
      case rune
      then show ?thesis
        using 1(3) [OF Cons] unquote_escape_rune [of s "utf8_size s"
            "quote_bytes (drop (utf8_size s) s) @ CHR 0x22 # r"]
        unfolding step by (simp add: Cons)
    qed
  qed
qed


lemma tokenise_punct: "is_punct c \<Longrightarrow> tokenise (c # r) = Punct c # tokenise r"
  by (subst tokenise.simps) (auto simp: is_punct_def is_space_def)

lemma tokenise_string: "tokenise (json_string s @ r) = Scalar (JString (to_valid s)) # tokenise r"
  using unquote_quote_bytes [of s r]
  by (subst tokenise.simps) (simp add: json_string_def is_space_def is_punct_def)

definition ends_number :: "string \<Rightarrow> bool" where
  "ends_number r \<longleftrightarrow> (case r of [] \<Rightarrow> True | c # _ \<Rightarrow> is_punct c)"

lemma lex_fraction_end: "ends_number r \<Longrightarrow> lex_fraction acc r = Some (acc, r)"
  by (auto simp: ends_number_def lex_fraction_def lex_exponent_def is_punct_def split: list.splits)

lemma ends_number_digits:
  assumes "ends_number r" and "list_all is_digit ds"
  shows "takeWhile is_digit (ds @ r) = ds \<and> dropWhile is_digit (ds @ r) = r"
  using assms by (cases r) (auto simp: ends_number_def is_punct_def is_digit_def list_all_iff)

lemma lex_number_show_nat:
  assumes "ends_number r" and "sign = [] \<or> sign = ''-''"
  shows "lex_number (sign @ show_nat n @ r) = Some (sign @ show_nat n, r)"
proof -
  obtain c ds where s: "show_nat n = c # ds" using show_nat_digits [of n] by (cases "show_nat n") auto
  have c: "is_digit c" "list_all is_digit ds" using show_nat_digits [of n] s by simp_all
  then have neq: "c \<noteq> CHR ''-''" by (auto simp: is_digit_def)
  have number: "lex_number (sign @ c # ds @ r) =
      (if c = CHR ''0'' then lex_fraction (sign @ [c]) (ds @ r)
       else lex_fraction (sign @ takeWhile is_digit (c # ds @ r)) (dropWhile is_digit (c # ds @ r)))"
    using assms(2) neq c(1) by (auto simp: lex_number_def)
  show ?thesis
  proof (cases "n = 0")
    case True
    then have "c = CHR ''0''" "ds = []" using s by (simp_all add: show_nat.simps digit_char_def char_of_def bit_iff_odd)
    then show ?thesis using number assms(1) by (simp add: s lex_fraction_end)
  next
    case False
    then have "c \<noteq> CHR ''0''" using show_nat_head [of n] s by simp
    moreover have "takeWhile is_digit (c # ds @ r) = c # ds \<and> dropWhile is_digit (c # ds @ r) = r"
      using ends_number_digits [OF assms(1), of "c # ds"] c by simp
    ultimately show ?thesis using number assms(1) by (simp add: s lex_fraction_end)
  qed
qed

lemma show_int_head: "\<exists>c t. show_int i = c # t \<and> (is_digit c \<or> c = CHR ''-'')"
proof (cases "i < 0")
  case False
  then show ?thesis using show_nat_digits [of "nat i"]
    by (cases "show_nat (nat i)") (simp_all add: show_int_def)
qed (simp add: show_int_def)

lemma tokenise_int:
  assumes "ends_number r"
  shows "tokenise (show_int i @ r) = Scalar (JNumber (show_int i)) # tokenise r"
proof -
  obtain c t where s: "show_int i @ r = c # t" and c: "is_digit c \<or> c = CHR ''-''"
    using show_int_head [of i] by auto
  have "lex_number (show_int i @ r) = Some (show_int i, r)"
    using lex_number_show_nat [OF assms, of "[]" "nat i"] lex_number_show_nat [OF assms, of "''-''" "nat (- i)"]
    by (simp add: show_int_def)
  moreover have "\<not> is_space c" "\<not> is_punct c" "c \<noteq> CHR 0x22" "c \<noteq> CHR ''t''" "c \<noteq> CHR ''f''" "c \<noteq> CHR ''n''"
    using c by (auto simp: is_space_def is_punct_def is_digit_def)
  ultimately show ?thesis by (subst tokenise.simps) (simp add: s)
qed

text \<open>The tree a field value is read back as, and the tokens of a struct.\<close>

fun field_json :: "field_value \<Rightarrow> json" where
  "field_json (VStr s) = JString (to_valid s)"
| "field_json (VNum i) = JNumber (show_int (sint i))"

lemma tokenise_field:
  "ends_number r \<Longrightarrow> tokenise (marshal_value v @ r) = Scalar (field_json v) # tokenise r"
  by (cases v) (simp_all add: tokenise_string tokenise_int)

fun member_tokens :: "(string \<times> field_value) list \<Rightarrow> token list" where
  "member_tokens [] = []"
| "member_tokens [(n, v)] = [Scalar (JString (to_valid n)), Punct CHR '':'', Scalar (field_json v)]"
| "member_tokens ((n, v) # f # fs) =
     [Scalar (JString (to_valid n)), Punct CHR '':'', Scalar (field_json v), Punct CHR '',''] @
     member_tokens (f # fs)"

lemma puncts [simp]:
  "is_punct CHR ''{''" "is_punct CHR ''}''" "is_punct CHR '':''" "is_punct CHR '',''"
  by (simp_all add: is_punct_def)

lemma tokenise_members:
  "ends_number r \<Longrightarrow> tokenise (marshal_members fs @ r) = member_tokens fs @ tokenise r"
proof (induction fs rule: marshal_members.induct)
  case (2 n v)
  then show ?case by (simp add: tokenise_string tokenise_punct tokenise_field)
next
  case (3 n v f fs)
  then show ?case
    by (simp add: tokenise_string tokenise_punct tokenise_field ends_number_def del: marshal_value.simps)
qed simp

lemma parse_members:
  "fs \<noteq> [] \<Longrightarrow> parse (NextKey ms) [] (member_tokens fs @ Punct CHR ''}'' # ts) =
     Some (JObject (rev ms @ map (\<lambda>(n, v). (to_valid n, field_json v)) fs), ts)"
proof (induction fs arbitrary: ms rule: member_tokens.induct)
  case (2 n v)
  show ?case by (cases v) simp_all
next
  case (3 n v f fs)
  from "3.IH" [of "(to_valid n, field_json v) # ms"] show ?case by (cases v) simp_all
qed simp

lemma first_key_next_key: "parse (FirstKey ms) st (Scalar v # ts) = parse (NextKey ms) st (Scalar v # ts)"
  by (simp split: json.split)

theorem marshal_struct_read_back:
  "decode_next (tokenise (marshal_struct fs)) =
     Decoded (JObject (map (\<lambda>(n, v). (to_valid n, field_json v)) fs)) []"
proof -
  have "tokenise (marshal_struct fs) = Punct CHR ''{'' # member_tokens fs @ [Punct CHR ''}'']"
    by (simp add: marshal_struct_def tokenise_punct tokenise_members ends_number_def tokenise.simps [of "[]"])
  moreover have "parse (FirstKey []) [] (member_tokens fs @ [Punct CHR ''}'']) =
      Some (JObject (map (\<lambda>(n, v). (to_valid n, field_json v)) fs), [])"
  proof (cases "fs = []")
    case False
    then obtain v ts where "member_tokens fs = Scalar v # ts"
      by (cases fs rule: member_tokens.cases) auto
    then have "parse (FirstKey []) [] (member_tokens fs @ [Punct CHR ''}'']) =
        parse (NextKey []) [] (member_tokens fs @ [Punct CHR ''}''])"
      using first_key_next_key by simp
    with parse_members [OF False, of "[]" "[]"] show ?thesis by simp
  qed simp
  ultimately show ?thesis by (simp add: decode_next_def max_depth_def)
qed


section \<open>ASCII\<close>

abbreviation ascii :: "string \<Rightarrow> bool" where
  "ascii s \<equiv> list_all (\<lambda>c. code c < 128) s"

lemma to_valid_ascii: "ascii s \<Longrightarrow> to_valid s = s"
proof (induction s)
  case (Cons c s)
  then have "utf8_size (c # s) = 1" by (simp add: utf8_size_def)
  with Cons show ?case by (simp add: to_valid.simps [of "c # s"])
qed (simp add: to_valid.simps)

end
