(* ===== verification/Go_Time.thy ===== *)
theory Go_Time
  imports Go_Strconv "HOL-Library.Monad_Syntax"
begin

text \<open>
  What the sources use of the text form of \<open>time.Time\<close>: the Gregorian calendar, \<open>Format\<close> with
  the layout \<open>RFC3339Nano\<close> and \<open>Parse\<close> with the layout \<open>RFC3339\<close> (whose fractional seconds,
  one-digit hours and offsets up to 24 hours the parser lets pass). The theorem is the round
  trip: a UTC time of the years 0 to 9999 that is formatted is parsed back to itself.
\<close>

section \<open>The calendar\<close>

definition leap_year :: "int \<Rightarrow> bool" where
  "leap_year y \<longleftrightarrow> 4 dvd y \<and> (\<not> 100 dvd y \<or> 400 dvd y)"

definition month_lengths :: "int \<Rightarrow> int list" where
  "month_lengths y = [31, if leap_year y then 29 else 28, 31, 30, 31, 30, 31, 31, 30, 31, 30, 31]"

text \<open>Days from the first of January of year 1.\<close>

definition days_before_year :: "int \<Rightarrow> int" where
  "days_before_year y = 365 * (y - 1) + (y - 1) div 4 - (y - 1) div 100 + (y - 1) div 400"

definition days_from_civil :: "int \<Rightarrow> int \<Rightarrow> int \<Rightarrow> int" where
  "days_from_civil y m d =
     days_before_year y + sum_list (take (nat (m - 1)) (month_lengths y)) + d - 1"

definition year_of :: "int \<Rightarrow> int" where
  "year_of n =
     (let y = 400 * n div 146097 + 1 in
      if n < days_before_year y then y - 1
      else if days_before_year (y + 1) \<le> n then y + 1
      else y)"

fun find_month :: "int list \<Rightarrow> int \<Rightarrow> int \<Rightarrow> int \<times> int" where
  "find_month [] n m = (m, n + 1)"
| "find_month (l # ls) n m = (if n < l then (m, n + 1) else find_month ls (n - l) (m + 1))"

definition civil_from_days :: "int \<Rightarrow> int \<times> int \<times> int" where
  "civil_from_days n =
     (let y = year_of n; (m, d) = find_month (month_lengths y) (n - days_before_year y) 1
      in (y, m, d))"

lemma year_of_bounds: "days_before_year (year_of n) \<le> n \<and> n < days_before_year (year_of n + 1)"
proof -
  define k where "k = 400 * n div 146097"
  have k: "146097 * k \<le> 400 * n" "400 * n < 146097 * k + 146097"
    unfolding k_def using div_mult_mod_eq [of "400 * n" 146097] pos_mod_bound [of 146097 "400 * n"]
      pos_mod_sign [of 146097 "400 * n"] by linarith+
  have b: "c * (x div c) \<le> x \<and> x < c * (x div c) + c" if "0 < c" for c x :: int
    using mult_div_mod_eq [of c x] pos_mod_bound [OF that, of x] pos_mod_sign [OF that, of x]
    by linarith
  have low: "days_before_year (k + 1 - 1) \<le> n"
    unfolding days_before_year_def using k b [of 4 "k - 1"] b [of 100 "k - 1"] b [of 400 "k - 1"] by simp
  have high: "n < days_before_year (k + 1 + 1 + 1)"
    unfolding days_before_year_def using k b [of 4 "k + 2"] b [of 100 "k + 2"] b [of 400 "k + 2"] by simp
  show ?thesis
    using low high unfolding year_of_def Let_def k_def [symmetric] by simp
qed

lemma days_before_next_year: "days_before_year (y + 1) = days_before_year y + sum_list (month_lengths y)"
proof -
  have e: "y div k = (y - 1) div k + (if k dvd y then 1 else 0)" if "0 < k" for k :: int
  proof (cases "k dvd y")
    case True
    then obtain q where "y = k * q" by (rule dvdE)
    moreover have "(k * q - 1) div k = q - 1"
      using that by (intro int_div_pos_eq [of _ _ _ "k - 1"]) (simp_all add: algebra_simps)
    ultimately show ?thesis using that by simp
  next
    case False
    then have "0 < y mod k" using that by (metis dvd_eq_mod_eq_0 pos_mod_sign order_le_less)
    then have "(y - 1) div k = y div k"
      using that pos_mod_bound [OF that, of y] div_mult_mod_eq [of y k]
      by (intro int_div_pos_eq [of _ _ _ "y mod k - 1"]) (simp_all add: mult.commute)
    with False show ?thesis by simp
  qed
  have bools: "(if p \<and> (\<not> q \<or> r) then 1 else 0 :: int) =
      (if p then 1 else 0) - (if q then 1 else 0) + (if r then 1 else 0)"
    if "q \<longrightarrow> p" and "r \<longrightarrow> q" for p q r using that by (cases p; cases q; cases r) simp_all
  have "4 dvd (100 :: int)" "100 dvd (400 :: int)" by simp_all
  then have "100 dvd y \<longrightarrow> 4 dvd y" and "400 dvd y \<longrightarrow> 100 dvd y" by (blast intro: dvd_trans)+
  then have leap: "(if leap_year y then 1 else 0 :: int) =
      (if 4 dvd y then 1 else 0) - (if 100 dvd y then 1 else 0) + (if 400 dvd y then 1 else 0)"
    unfolding leap_year_def by (rule bools)
  have "days_before_year (y + 1) = 365 * y + y div 4 - y div 100 + y div 400"
    by (simp add: days_before_year_def)
  also have "\<dots> = days_before_year y + 365 +
      ((if 4 dvd y then 1 else 0) - (if 100 dvd y then 1 else 0) + (if 400 dvd y then 1 else 0))"
    unfolding days_before_year_def e [of 4, simplified] e [of 100, simplified] e [of 400, simplified]
    by (simp only: algebra_simps)
  also have "\<dots> = days_before_year y + sum_list (month_lengths y)"
    unfolding leap [symmetric] by (simp add: month_lengths_def)
  finally show ?thesis .
qed


lemma find_month_spec:
  assumes "find_month ls n m0 = (m, d)" and "0 \<le> n" and "n < sum_list ls"
  shows "m0 \<le> m \<and> m < m0 + int (length ls) \<and> 1 \<le> d \<and> d \<le> ls ! nat (m - m0) \<and>
    sum_list (take (nat (m - m0)) ls) + d - 1 = n"
  using assms
proof (induction ls n m0 rule: find_month.induct)
  case (2 l ls n m0)
  show ?case
  proof (cases "n < l")
    case False
    with 2 have IH: "m0 + 1 \<le> m" "m < m0 + 1 + int (length ls)" "1 \<le> d"
      "d \<le> ls ! nat (m - (m0 + 1))" "sum_list (take (nat (m - (m0 + 1))) ls) + d - 1 = n - l"
      by simp_all
    moreover have "nat (m - m0) = Suc (nat (m - (m0 + 1)))" using IH(1) by simp
    ultimately show ?thesis by simp
  qed (use 2 in auto)
qed simp

text \<open>A day number and its date determine each other.\<close>

lemma civil_from_days_spec:
  assumes "civil_from_days n = (y, m, d)"
  shows "days_from_civil y m d = n \<and> 1 \<le> m \<and> m \<le> 12 \<and> 1 \<le> d \<and>
    d \<le> month_lengths y ! nat (m - 1)"
proof -
  from assms have y: "y = year_of n"
    and md: "find_month (month_lengths y) (n - days_before_year y) 1 = (m, d)"
    by (auto simp: civil_from_days_def Let_def split: prod.splits)
  have "length (month_lengths y) = 12" by (simp add: month_lengths_def)
  moreover have "0 \<le> n - days_before_year y" "n - days_before_year y < sum_list (month_lengths y)"
    using year_of_bounds [of n] days_before_next_year [of y] y by simp_all
  ultimately show ?thesis
    using find_month_spec [OF md] by (auto simp: days_from_civil_def)
qed

section \<open>Output\<close>

definition pad :: "nat \<Rightarrow> nat \<Rightarrow> string" where
  "pad k n = replicate (k - length (show_nat n)) CHR ''0'' @ show_nat n"

definition trim_zeros :: "string \<Rightarrow> string" where
  "trim_zeros s = rev (dropWhile ((=) CHR ''0'') (rev s))"

definition format_year :: "int \<Rightarrow> string" where
  "format_year y = (if y < 0 then CHR ''-'' # pad 4 (nat (- y)) else pad 4 (nat y))"

definition format_zone :: "int \<Rightarrow> string" where
  "format_zone offset =
     (if offset = 0 then ''Z''
      else let zone = \<bar>offset\<bar> div 60
           in (if offset \<le> - 60 then CHR ''-'' else CHR ''+'') #
              pad 2 (nat (zone div 60)) @ CHR '':'' # pad 2 (nat (zone mod 60)))"

definition unix_epoch_day :: int where
  "unix_epoch_day = 719162"

definition Format_RFC3339Nano :: "go_time \<Rightarrow> string" where
  "Format_RFC3339Nano t =
     (let secs = unix_nanos t div 1000000000 + zone_offset t;
          nanos = nat (unix_nanos t mod 1000000000);
          (y, m, d) = civil_from_days (secs div 86400 + unix_epoch_day);
          sod = secs mod 86400
      in format_year y @ CHR ''-'' # pad 2 (nat m) @ CHR ''-'' # pad 2 (nat d) @ CHR ''T'' #
         pad 2 (nat (sod div 3600)) @ CHR '':'' # pad 2 (nat (sod div 60 mod 60)) @ CHR '':'' #
         pad 2 (nat (sod mod 60)) @
         (if nanos = 0 then [] else CHR ''.'' # trim_zeros (pad 9 nanos)) @
         format_zone (zone_offset t))"

section \<open>Input\<close>

definition read_fixed :: "nat \<Rightarrow> string \<Rightarrow> (int \<times> string) option" where
  "read_fixed k s =
     (if k \<le> length s \<and> list_all is_digit (take k s)
      then Some (int (read_digits (take k s)), drop k s) else None)"

definition read_lax :: "string \<Rightarrow> (int \<times> string) option" where
  "read_lax s = (case read_fixed 2 s of Some x \<Rightarrow> Some x | None \<Rightarrow> read_fixed 1 s)"

definition expect_char :: "char \<Rightarrow> string \<Rightarrow> string option" where
  "expect_char c s = (case s of [] \<Rightarrow> None | d # r \<Rightarrow> if d = c then Some r else None)"

text \<open>Fractional seconds: nine digits count, the others are dropped.\<close>

definition read_fraction :: "string \<Rightarrow> int \<times> string" where
  "read_fraction s =
     (case s of
        c # r \<Rightarrow>
          (let ds = takeWhile is_digit r in
           if (c = CHR ''.'' \<or> c = CHR '','') \<and> ds \<noteq> []
           then (int (read_digits (take 9 ds)) * 10 ^ (9 - length (take 9 ds)), dropWhile is_digit r)
           else (0, s))
      | [] \<Rightarrow> (0, s))"

definition read_zone :: "string \<Rightarrow> (int \<times> string) option" where
  "read_zone s =
     (case s of
        [] \<Rightarrow> None
      | c # r \<Rightarrow>
          (if c = CHR ''Z'' then Some (0, r)
           else do {
             (hr, r1) \<leftarrow> read_fixed 2 r;
             r2 \<leftarrow> expect_char CHR '':'' r1;
             (mm, r3) \<leftarrow> read_fixed 2 r2;
             if hr > 24 \<or> mm > 60 then None
             else if c = CHR ''+'' then Some ((hr * 60 + mm) * 60, r3)
             else if c = CHR ''-'' then Some (- ((hr * 60 + mm) * 60), r3)
             else None
           }))"

definition Parse_RFC3339 :: "string \<Rightarrow> go_time option" where
  "Parse_RFC3339 s = do {
     (y, s) \<leftarrow> read_fixed 4 s;
     s \<leftarrow> expect_char CHR ''-'' s;
     (m, s) \<leftarrow> read_fixed 2 s;
     s \<leftarrow> expect_char CHR ''-'' s;
     (d, s) \<leftarrow> read_fixed 2 s;
     s \<leftarrow> expect_char CHR ''T'' s;
     (hour, s) \<leftarrow> read_lax s;
     s \<leftarrow> expect_char CHR '':'' s;
     (mins, s) \<leftarrow> read_fixed 2 s;
     s \<leftarrow> expect_char CHR '':'' s;
     (sec, s) \<leftarrow> read_fixed 2 s;
     let (nanos, s) = read_fraction s in do {
     (offset, s) \<leftarrow> read_zone s;
     if s \<noteq> [] \<or> m < 1 \<or> m > 12 \<or> d < 1 \<or> d > month_lengths y ! nat (m - 1) \<or>
        hour > 23 \<or> mins > 59 \<or> sec > 59
     then None
     else Some \<lparr>unix_nanos =
        (((days_from_civil y m d - unix_epoch_day) * 86400 + hour * 3600 + mins * 60 + sec) - offset) *
          1000000000 + nanos,
        zone_offset = offset\<rparr>
   }}"


section \<open>The round trip\<close>

lemma read_digits_append: "read_digits (s @ t) = read_digits s * 10 ^ length t + read_digits t"
proof (induction t rule: rev_induct)
  case (snoc c t)
  then show ?case by (simp add: read_digits_def algebra_simps flip: append_assoc)
qed (simp add: read_digits_def)

lemma read_digits_zeros [simp]: "read_digits (replicate k CHR ''0'') = 0"
  by (induction k) (simp_all add: read_digits_def digit_value_def)

lemma show_nat_length: "n < 10 ^ k \<Longrightarrow> 0 < k \<Longrightarrow> length (show_nat n) \<le> k"
proof (induction n arbitrary: k rule: show_nat.induct)
  case (1 n)
  show ?case
  proof (cases "n < 10")
    case True
    with 1(3) show ?thesis by (simp add: show_nat.simps [of n])
  next
    case False
    then obtain j where k: "k = Suc j" "0 < j" using 1(2,3) by (cases k; cases "k - 1") auto
    with 1(2) have "n div 10 < 10 ^ j" by (simp add: less_mult_imp_div_less mult.commute)
    from 1(1) [OF False this k(2)] False k show ?thesis by (simp add: show_nat.simps [of n])
  qed
qed

lemma pad_props:
  assumes "n < 10 ^ k" and "0 < k"
  shows "length (pad k n) = k \<and> list_all is_digit (pad k n) \<and> read_digits (pad k n) = n"
  using show_nat_length [OF assms] show_nat_digits [of n]
  by (auto simp: pad_def read_digits_append list_all_iff is_digit_def)

lemma read_fixed_pad: "n < 10 ^ k \<Longrightarrow> 0 < k \<Longrightarrow> read_fixed k (pad k n @ r) = Some (int n, r)"
  using pad_props [of n k] by (simp add: read_fixed_def)

lemma read_lax_pad: "n < 100 \<Longrightarrow> read_lax (pad 2 n @ r) = Some (int n, r)"
  using read_fixed_pad [of n 2 r] by (simp add: read_lax_def)

lemma trim_zeros_split: "\<exists>j. s = trim_zeros s @ replicate j CHR ''0''"
proof -
  have "rev s = takeWhile ((=) CHR ''0'') (rev s) @ dropWhile ((=) CHR ''0'') (rev s)" by simp
  then have s: "s = trim_zeros s @ rev (takeWhile ((=) CHR ''0'') (rev s))"
    unfolding trim_zeros_def by (metis rev_append rev_rev_ident)
  have "takeWhile ((=) CHR ''0'') xs = replicate (length (takeWhile ((=) CHR ''0'') xs)) CHR ''0''" for xs
    by (induction xs) auto
  with s show ?thesis by (metis rev_replicate)
qed

lemma read_fraction_trimmed:
  assumes "0 < n" and "n < 10 ^ 9" and "r = [] \<or> \<not> is_digit (hd r)"
  shows "read_fraction (CHR ''.'' # trim_zeros (pad 9 n) @ r) = (int n, r)"
proof -
  obtain j where j: "pad 9 n = trim_zeros (pad 9 n) @ replicate j CHR ''0''" using trim_zeros_split by blast
  let ?ds = "trim_zeros (pad 9 n)"
  have p: "length (pad 9 n) = 9" "list_all is_digit (pad 9 n)" "read_digits (pad 9 n) = n"
    using pad_props [OF assms(2)] by simp_all
  have l: "length ?ds + j = 9" using arg_cong [OF j, of length] p(1) by simp
  have ds: "list_all is_digit ?ds" using p(2) j by (metis list_all_append)
  have n: "read_digits ?ds * 10 ^ j = n"
    using p(3) by (subst (asm) j) (simp add: read_digits_append)
  have int_n: "int (read_digits ?ds) * 10 ^ j = int n" using arg_cong [OF n, of int] by simp
  have ne: "?ds \<noteq> []" using n assms(1) by (auto simp: read_digits_def)
  have all: "\<forall>c \<in> set ?ds. is_digit c" using ds by (simp add: list_all_iff)
  have "takeWhile is_digit (?ds @ r) = ?ds \<and> dropWhile is_digit (?ds @ r) = r"
    using all assms(3) by (cases r) (simp_all add: takeWhile_append2 dropWhile_append2)
  moreover have "take 9 ?ds = ?ds" "9 - length ?ds = j" using l by simp_all
  ultimately show ?thesis using ne int_n by (simp add: read_fraction_def)
qed

lemma seconds_of_day:
  fixes x :: int
  assumes "0 \<le> x" and "x < 86400"
  shows "x div 3600 * 3600 + x div 60 mod 60 * 60 + x mod 60 = x \<and> x div 3600 \<le> 23"
proof -
  define h where "h = x div 60"
  have "x div 3600 = h div 60" by (simp add: h_def flip: zdiv_zmult2_eq)
  moreover have "h div 60 * 60 + h mod 60 = h" "h * 60 + x mod 60 = x" by (simp_all add: h_def)
  moreover have "h div 60 \<le> 23" using assms by (simp add: h_def flip: zdiv_zmult2_eq)
  ultimately show ?thesis unfolding h_def [symmetric] by linarith
qed

lemma seconds_of_day_nat:
  fixes x :: int
  assumes "0 \<le> x" and "x < 86400"
  shows "int (nat (x div 3600)) * 3600 + int (nat (x div 60 mod 60)) * 60 + int (nat (x mod 60)) = x"
proof -
  have "int (nat (x div 3600)) = x div 3600" using assms(1) by (simp add: pos_imp_zdiv_nonneg_iff)
  moreover have "int (nat (y mod 60)) = y mod 60" for y :: int by simp
  ultimately show ?thesis using seconds_of_day [OF assms] by (simp only:)
qed

lemma month_lengths_le: "i < 12 \<Longrightarrow> month_lengths y ! i \<le> 31"
proof -
  assume "i < 12"
  then have "month_lengths y ! i \<in> set (month_lengths y)"
    by (intro nth_mem) (simp add: month_lengths_def)
  moreover have "\<forall>l \<in> set (month_lengths y). l \<le> 31" by (simp add: month_lengths_def)
  ultimately show ?thesis by blast
qed

lemma Parse_fields:
  assumes "y < 10 ^ 4" and "m < 10 ^ 2" and "d < 10 ^ 2" and "h < 100" and "mi < 10 ^ 2" and "s < 10 ^ 2"
    and "read_fraction (f @ ''Z'') = (n, ''Z'')"
    and "1 \<le> m" "m \<le> 12" "1 \<le> d" "int d \<le> month_lengths (int y) ! (m - 1)" "h \<le> 23" "mi \<le> 59" "s \<le> 59"
  shows "Parse_RFC3339 (pad 4 y @ CHR ''-'' # pad 2 m @ CHR ''-'' # pad 2 d @ CHR ''T'' # pad 2 h @
      CHR '':'' # pad 2 mi @ CHR '':'' # pad 2 s @ f @ ''Z'') =
    Some \<lparr>unix_nanos = ((days_from_civil (int y) (int m) (int d) - unix_epoch_day) * 86400 +
        int h * 3600 + int mi * 60 + int s) * 1000000000 + n, zone_offset = 0\<rparr>"
proof -
  have "nat (int m - 1) = m - 1" using assms(8) by simp
  then show ?thesis
    unfolding Parse_RFC3339_def using assms
    by (simp add: read_fixed_pad read_lax_pad expect_char_def read_zone_def)
qed

theorem Parse_Format:
  assumes "zone_offset t = 0"
    and "civil_from_days (unix_nanos t div 1000000000 div 86400 + unix_epoch_day) = (y, m, d)"
    and "0 \<le> y" and "y \<le> 9999"
  shows "Parse_RFC3339 (Format_RFC3339Nano t) = Some t"
proof -
  let ?secs = "unix_nanos t div 1000000000"
  let ?nanos = "nat (unix_nanos t mod 1000000000)"
  let ?sod = "?secs mod 86400"
  let ?frac = "if ?nanos = 0 then [] else CHR ''.'' # trim_zeros (pad 9 ?nanos)"
  have date: "days_from_civil y m d = ?secs div 86400 + unix_epoch_day" "1 \<le> m" "m \<le> 12" "1 \<le> d"
    "d \<le> month_lengths y ! nat (m - 1)"
    using civil_from_days_spec [OF assms(2)] by simp_all
  have d31: "d \<le> 31" using month_lengths_le [of "nat (m - 1)" y] date(2,3,5) by linarith
  have sod: "0 \<le> ?sod" "?sod < 86400" by simp_all
  have zone: "read_fraction (?frac @ ''Z'') = (int ?nanos, ''Z'')"
    using read_fraction_trimmed [of ?nanos "''Z''"]
    by (cases "?nanos = 0") (auto simp: read_fraction_def is_digit_def nat_less_iff)
  have shape: "Format_RFC3339Nano t = pad 4 (nat y) @ CHR ''-'' # pad 2 (nat m) @ CHR ''-'' # pad 2 (nat d) @
      CHR ''T'' # pad 2 (nat (?sod div 3600)) @ CHR '':'' # pad 2 (nat (?sod div 60 mod 60)) @ CHR '':'' #
      pad 2 (nat (?sod mod 60)) @ ?frac @ ''Z''"
    using assms by (simp add: Format_RFC3339Nano_def format_year_def format_zone_def Let_def)
  have "nat y < 10 ^ 4" using assms(3,4) by simp
  moreover have "nat m < 10 ^ 2" "nat d < 10 ^ 2" using date(2-4) d31 by simp_all
  moreover have "nat (?sod div 3600) < 100" using seconds_of_day [OF sod, THEN conjunct2] by simp
  moreover have small: "nat (x mod 60) < 10 ^ 2" for x :: int using pos_mod_bound [of 60 x] by simp
  ultimately have bounds: "nat y < 10 ^ 4" "nat m < 10 ^ 2" "nat d < 10 ^ 2" "nat (?sod div 3600) < 100"
    "nat (?sod div 60 mod 60) < 10 ^ 2" "nat (?sod mod 60) < 10 ^ 2" by blast+
  have "Parse_RFC3339 (Format_RFC3339Nano t) =
      Some \<lparr>unix_nanos = ((days_from_civil (int (nat y)) (int (nat m)) (int (nat d)) - unix_epoch_day) * 86400 +
        int (nat (?sod div 3600)) * 3600 + int (nat (?sod div 60 mod 60)) * 60 + int (nat (?sod mod 60))) *
        1000000000 + int ?nanos, zone_offset = 0\<rparr>"
    unfolding shape
  proof (rule Parse_fields [OF bounds zone])
    show "int (nat d) \<le> month_lengths (int (nat y)) ! (nat m - 1)"
      using date assms(3) by (simp add: nat_diff_distrib)
    show "1 \<le> nat m" "nat m \<le> 12" "1 \<le> nat d" using date(2-4) by simp_all
    show "nat (?sod div 3600) \<le> 23" using seconds_of_day [OF sod, THEN conjunct2] by simp
    show "nat (?sod div 60 mod 60) \<le> 59" "nat (?sod mod 60) \<le> 59"
      using pos_mod_bound [of 60 "?sod div 60"] pos_mod_bound [of 60 ?sod] by simp_all
  qed
  also have "\<dots> = Some \<lparr>unix_nanos = (?secs div 86400 * 86400 + ?sod) * 1000000000 + int ?nanos, zone_offset = 0\<rparr>"
  proof -
    have "int (nat (?sod div 3600)) * 3600 + int (nat (?sod div 60 mod 60)) * 60 + int (nat (?sod mod 60)) = ?sod"
      by (rule seconds_of_day_nat [OF sod])
    moreover have "int (nat y) = y" "int (nat m) = m" "int (nat d) = d" using date assms(3) by simp_all
    ultimately show ?thesis using date(1) by (simp only: add.assoc add_diff_cancel_right')
  qed
  also have "\<dots> = Some t" using assms(1) by simp
  finally show ?thesis .
qed


lemma pad_ascii: "list_all (\<lambda>c. code c < 128) (pad k n)"
  using show_nat_digits [of n] by (auto simp: pad_def list_all_iff is_digit_def)

lemma Format_ascii: "list_all (\<lambda>c. code c < 128) (Format_RFC3339Nano t)"
proof -
  have "list_all P (trim_zeros s)" if "list_all P s" for P s
    using that set_dropWhileD by (fastforce simp: trim_zeros_def list_all_iff)
  then show ?thesis
    unfolding Format_RFC3339Nano_def Let_def case_prod_beta
    by (simp add: pad_ascii format_year_def format_zone_def Let_def)
qed

end
