(* ===== verification/Message_Decode.thy ===== *)
theory Message_Decode
  imports Release_Handlers Go_Json Go_Time
begin

text \<open>
  Decoding of incoming messages (internal/messaging/rabbitmq/reservation_requested.go and
  reservation_release_requested.go): the metadata headers, the UUID pattern, and the JSON
  payload. A header table is a finite map to the values the AMQP client can hand over. Of the
  errors of \<open>encoding/json\<close> only their presence is kept, since they are printed and never
  inspected.
\<close>

section \<open>The broker's data\<close>

datatype header_value =
    HString string
  | HInt go_int
  | HInt32 go_int32
  | HInt64 go_int
  | HOther

type_synonym amqp_table = "(string, header_value) fmap"

record Delivery =
  del_Headers :: amqp_table
  del_ContentType :: string
  del_CorrelationId :: string
  del_MessageId :: string
  del_Timestamp :: go_time
  del_DeliveryTag :: go_int
  del_Body :: string

section \<open>Headers\<close>

definition invalid_header :: "string \<Rightarrow> string \<Rightarrow> go_error" where
  "invalid_header name problem =
     Wrapf [] (Sentinel ErrInvalidMessage) [Lit '': header '', Quoted name, Lit '' '', Lit problem]"

definition requiredStringHeader :: "amqp_table \<Rightarrow> string \<Rightarrow> string result" where
  "requiredStringHeader headers name =
     (case fmlookup headers name of
        None \<Rightarrow> Inl (invalid_header name ''is required'')
      | Some value \<Rightarrow>
          (case value of
             HString stringValue \<Rightarrow>
               (if TrimSpace stringValue = '''' then Inl (invalid_header name ''must be a non-empty string'')
                else Inr stringValue)
           | _ \<Rightarrow> Inl (invalid_header name ''must be a non-empty string'')))"

text \<open>The pattern: five blocks of hexadecimal digits, of 8, 4, 4, 4 and 12, joined by dashes.\<close>

fun hex_blocks :: "nat list \<Rightarrow> string \<Rightarrow> bool" where
  "hex_blocks [] s \<longleftrightarrow> s = []"
| "hex_blocks [k] s \<longleftrightarrow> length s = k \<and> list_all (\<lambda>c. hex_value c \<noteq> None) s"
| "hex_blocks (k # ks) s \<longleftrightarrow>
     k < length s \<and> list_all (\<lambda>c. hex_value c \<noteq> None) (take k s) \<and> s ! k = CHR ''-'' \<and>
     hex_blocks ks (drop (Suc k) s)"

definition uuidPattern :: "string \<Rightarrow> bool" where
  "uuidPattern s \<longleftrightarrow> hex_blocks [8, 4, 4, 4, 12] s"

definition requiredUUIDHeader :: "amqp_table \<Rightarrow> string \<Rightarrow> string result" where
  "requiredUUIDHeader headers name =
     (case requiredStringHeader headers name of
        Inl err \<Rightarrow> Inl err
      | Inr value \<Rightarrow>
          (if \<not> uuidPattern value then Inl (invalid_header name ''must be a UUID'') else Inr value))"

definition requiredIntegerHeader :: "amqp_table \<Rightarrow> string \<Rightarrow> go_int result" where
  "requiredIntegerHeader headers name =
     (case fmlookup headers name of
        None \<Rightarrow> Inl (invalid_header name ''is required'')
      | Some value \<Rightarrow>
          (case value of
             HInt i \<Rightarrow> Inr i
           | HInt32 i \<Rightarrow> Inr (scast i)
           | HInt64 i \<Rightarrow> Inr i
           | _ \<Rightarrow> Inl (invalid_header name ''must be an integer'')))"

definition decodeMessageMetadata :: "amqp_table \<Rightarrow> MessageMetadata result" where
  "decodeMessageMetadata headers =
     (case requiredUUIDHeader headers ''message_id'' of Inl err \<Rightarrow> Inl err | Inr messageID \<Rightarrow>
     (case requiredUUIDHeader headers ''correlation_id'' of Inl err \<Rightarrow> Inl err | Inr correlationID \<Rightarrow>
     (case requiredStringHeader headers ''causation_id'' of Inl err \<Rightarrow> Inl err | Inr causationID \<Rightarrow>
     (case requiredStringHeader headers ''idempotency_key'' of Inl err \<Rightarrow> Inl err | Inr idempotencyKey \<Rightarrow>
     (case requiredStringHeader headers ''occurred_at'' of Inl err \<Rightarrow> Inl err | Inr occurredAtValue \<Rightarrow>
     (case Parse_RFC3339 occurredAtValue of
        None \<Rightarrow> Inl (invalid_header ''occurred_at'' ''must be an RFC3339 timestamp'')
      | Some occurredAt \<Rightarrow>
     (case requiredIntegerHeader headers ''schema_version'' of Inl err \<Rightarrow> Inl err | Inr schemaVersion \<Rightarrow>
      if schemaVersion \<noteq> 1
      then Inl (Wrapf [] (Sentinel ErrInvalidMessage) [Lit '': unsupported schema_version '', Num schemaVersion])
      else
     (case requiredIntegerHeader headers ''retry_count'' of Inl err \<Rightarrow> Inl err | Inr retryCount \<Rightarrow>
      if sint retryCount < 0 then Inl (invalid_header ''retry_count'' ''must not be negative'')
      else Inr \<lparr>MessageID = messageID, CorrelationID = correlationID, CausationID = causationID,
                IdempotencyKey = idempotencyKey, OccurredAt = occurredAt,
                SchemaVersion = schemaVersion, RetryCount = retryCount\<rparr>))))))))"

section \<open>Payloads\<close>

text \<open>
  Both decoders read one value into a struct, refusing unknown fields, and then insist on the
  end of the input.
\<close>

definition decode_payload :: "(string \<times> field_kind) list \<Rightarrow> string \<Rightarrow> (string \<rightharpoonup> read_value) result" where
  "decode_payload kinds body =
     (let failed = Inl (Wrapf [] (Sentinel ErrInvalidMessage)
                          [Lit '': decode payload: '', Shown (ForeignError ''json'')])
      in case decode_next (tokenise body) of
           EndOfInput \<Rightarrow> failed
         | Refused \<Rightarrow> failed
         | Decoded v rest \<Rightarrow>
             (case decode_struct kinds v of
                None \<Rightarrow> failed
              | Some payload \<Rightarrow>
                  (if decode_next rest \<noteq> EndOfInput
                   then Inl (wrap_text ErrInvalidMessage ''payload must contain a single JSON object'')
                   else Inr payload)))"

definition reservationRequestedPayload :: "(string \<times> field_kind) list" where
  "reservationRequestedPayload =
     [(''reservation_id'', StringField), (''order_id'', StringField), (''sku'', StringField),
      (''quantity'', IntField)]"

definition decodeReservationRequested :: "Delivery \<Rightarrow> ReservationRequest result" where
  "decodeReservationRequested delivery =
     (case decodeMessageMetadata (del_Headers delivery) of
        Inl err \<Rightarrow> Inl err
      | Inr metadata \<Rightarrow>
     (case decode_payload reservationRequestedPayload (del_Body delivery) of
        Inl err \<Rightarrow> Inl err
      | Inr payload \<Rightarrow>
          (if TrimSpace (string_field payload ''reservation_id'') = ''''
           then Inl (wrap_text ErrInvalidMessage ''reservation_id is required'')
           else if TrimSpace (string_field payload ''order_id'') = ''''
           then Inl (wrap_text ErrInvalidMessage ''order_id is required'')
           else if TrimSpace (string_field payload ''sku'') = ''''
           then Inl (wrap_text ErrInvalidMessage ''sku is required'')
           else if sint (int_field payload ''quantity'') \<le> 0
           then Inl (wrap_text ErrInvalidMessage ''quantity must be positive'')
           else Inr \<lparr>req_Metadata = metadata,
                     ReservationID = string_field payload ''reservation_id'',
                     OrderID = string_field payload ''order_id'',
                     req_SKU = string_field payload ''sku'',
                     req_Quantity = int_field payload ''quantity''\<rparr>)))"

definition reservationReleaseRequestedPayload :: "(string \<times> field_kind) list" where
  "reservationReleaseRequestedPayload = [(''reservation_id'', StringField), (''reason'', StringField)]"

definition decodeReservationReleaseRequested :: "Delivery \<Rightarrow> ReservationReleaseRequest result" where
  "decodeReservationReleaseRequested delivery =
     (case decodeMessageMetadata (del_Headers delivery) of
        Inl err \<Rightarrow> Inl err
      | Inr metadata \<Rightarrow>
     (case decode_payload reservationReleaseRequestedPayload (del_Body delivery) of
        Inl err \<Rightarrow> Inl err
      | Inr payload \<Rightarrow>
          (if TrimSpace (string_field payload ''reservation_id'') = ''''
           then Inl (wrap_text ErrInvalidMessage ''reservation_id is required'')
           else Inr \<lparr>rel_Metadata = metadata,
                     rel_ReservationID = string_field payload ''reservation_id'',
                     Reason = string_field payload ''reason''\<rparr>)))"

section \<open>What decoding guarantees\<close>

lemma requiredStringHeader_Inr:
  "requiredStringHeader headers name = Inr v \<longleftrightarrow>
     fmlookup headers name = Some (HString v) \<and> TrimSpace v \<noteq> ''''"
  by (auto simp: requiredStringHeader_def split: option.splits header_value.splits if_splits)

lemma requiredUUIDHeader_Inr:
  "requiredUUIDHeader headers name = Inr v \<longleftrightarrow>
     fmlookup headers name = Some (HString v) \<and> TrimSpace v \<noteq> '''' \<and> uuidPattern v"
  by (auto simp: requiredUUIDHeader_def requiredStringHeader_Inr split: sum.splits)
    (auto simp: requiredStringHeader_def split: option.splits header_value.splits if_splits)

lemma requiredIntegerHeader_Inr:
  "requiredIntegerHeader headers name = Inr i \<longleftrightarrow>
     fmlookup headers name \<in> {Some (HInt i), Some (HInt64 i)} \<or>
     (\<exists>j. fmlookup headers name = Some (HInt32 j) \<and> i = scast j)"
  by (auto simp: requiredIntegerHeader_def split: option.splits header_value.splits)

lemma decodeMessageMetadata_Inr:
  assumes "decodeMessageMetadata headers = Inr m"
  shows "uuidPattern (MessageID m) \<and> uuidPattern (CorrelationID m) \<and>
    TrimSpace (MessageID m) \<noteq> '''' \<and> TrimSpace (CorrelationID m) \<noteq> '''' \<and>
    TrimSpace (CausationID m) \<noteq> '''' \<and> TrimSpace (IdempotencyKey m) \<noteq> '''' \<and>
    SchemaVersion m = 1 \<and> 0 \<le> sint (RetryCount m)"
  using assms unfolding decodeMessageMetadata_def
  by (auto simp: requiredUUIDHeader_Inr requiredStringHeader_Inr not_less
      split: sum.splits option.splits if_splits)


section \<open>A concrete message\<close>

definition sample_uuid :: string where
  "sample_uuid = ''0b7c6a52-3f0e-4d5b-9a41-6c2f8e1d7a90''"

definition sample_headers :: amqp_table where
  "sample_headers = fmap_of_list
     [(''message_id'', HString sample_uuid), (''correlation_id'', HString sample_uuid),
      (''causation_id'', HString ''order-1''), (''idempotency_key'', HString ''key-1''),
      (''occurred_at'', HString ''1970-01-01T00:00:00Z''), (''schema_version'', HInt32 1),
      (''retry_count'', HInt32 0)]"

definition sample_decoded_metadata :: MessageMetadata where
  "sample_decoded_metadata = \<lparr>MessageID = sample_uuid, CorrelationID = sample_uuid,
     CausationID = ''order-1'', IdempotencyKey = ''key-1'',
     OccurredAt = \<lparr>unix_nanos = 0, zone_offset = 0\<rparr>, SchemaVersion = 1, RetryCount = 0\<rparr>"

lemma sample_uuid_ok: "uuidPattern sample_uuid \<and> TrimSpace sample_uuid \<noteq> []"
  by (simp add: sample_uuid_def uuidPattern_def hex_value_def is_digit_def trim_defs)

lemma sample_time: "Parse_RFC3339 ''1970-01-01T00:00:00Z'' = Some \<lparr>unix_nanos = 0, zone_offset = 0\<rparr>"
  by (simp add: Parse_RFC3339_def read_fixed_def read_lax_def expect_char_def read_fraction_def
      read_zone_def is_digit_def read_digits_def digit_value_def month_lengths_def days_from_civil_def
      days_before_year_def unix_epoch_day_def Let_def)

lemma sample_headers_decode: "decodeMessageMetadata sample_headers = Inr sample_decoded_metadata"
proof -
  have "requiredUUIDHeader sample_headers ''message_id'' = Inr sample_uuid"
    "requiredUUIDHeader sample_headers ''correlation_id'' = Inr sample_uuid"
    "requiredStringHeader sample_headers ''causation_id'' = Inr ''order-1''"
    "requiredStringHeader sample_headers ''idempotency_key'' = Inr ''key-1''"
    "requiredStringHeader sample_headers ''occurred_at'' = Inr ''1970-01-01T00:00:00Z''"
    using sample_uuid_ok
    by (simp_all add: requiredUUIDHeader_Inr requiredStringHeader_Inr sample_headers_def trim_defs)
  moreover have "requiredIntegerHeader sample_headers ''schema_version'' = Inr 1"
    "requiredIntegerHeader sample_headers ''retry_count'' = Inr 0"
    by (simp_all add: requiredIntegerHeader_def sample_headers_def)
  ultimately show ?thesis
    by (simp add: decodeMessageMetadata_def sample_time sample_decoded_metadata_def)
qed

text \<open>Bodies that the headers above may come with.\<close>

definition sample_body :: string where
  "sample_body = marshal_struct [(''reservation_id'', VStr ''res-1''), (''order_id'', VStr ''order-1''),
     (''sku'', VStr ''sku-1''), (''quantity'', VNum 4)]"

definition sample_decoded_request :: "MessageMetadata \<Rightarrow> ReservationRequest" where
  "sample_decoded_request m = \<lparr>req_Metadata = m, ReservationID = ''res-1'', OrderID = ''order-1'',
     req_SKU = ''sku-1'', req_Quantity = 4\<rparr>"

lemma sample_request_decodes:
  assumes "del_Body d = sample_body" and "decodeMessageMetadata (del_Headers d) = Inr m"
  shows "decodeReservationRequested d = Inr (sample_decoded_request m)"
proof -
  have "case decode_payload reservationRequestedPayload sample_body of
      Inl _ \<Rightarrow> False
    | Inr p \<Rightarrow> string_field p ''reservation_id'' = ''res-1'' \<and> string_field p ''order_id'' = ''order-1'' \<and>
        string_field p ''sku'' = ''sku-1'' \<and> int_field p ''quantity'' = 4"
    by code_simp
  moreover have "TrimSpace ''res-1'' \<noteq> []" "TrimSpace ''order-1'' \<noteq> []" "TrimSpace ''sku-1'' \<noteq> []"
    by (simp_all add: trim_defs)
  ultimately show ?thesis
    using assms by (auto simp: decodeReservationRequested_def sample_decoded_request_def split: sum.splits)
qed

definition sample_release_body :: string where
  "sample_release_body = marshal_struct [(''reservation_id'', VStr ''res-1''), (''reason'', VStr ''cancelled'')]"

definition sample_decoded_release :: "MessageMetadata \<Rightarrow> ReservationReleaseRequest" where
  "sample_decoded_release m = \<lparr>rel_Metadata = m, rel_ReservationID = ''res-1'', Reason = ''cancelled''\<rparr>"

lemma sample_release_decodes:
  assumes "del_Body d = sample_release_body" and "decodeMessageMetadata (del_Headers d) = Inr m"
  shows "decodeReservationReleaseRequested d = Inr (sample_decoded_release m)"
proof -
  have "case decode_payload reservationReleaseRequestedPayload sample_release_body of
      Inl _ \<Rightarrow> False
    | Inr p \<Rightarrow> string_field p ''reservation_id'' = ''res-1'' \<and> string_field p ''reason'' = ''cancelled''"
    by code_simp
  moreover have "TrimSpace ''res-1'' \<noteq> []" by (simp add: trim_defs)
  ultimately show ?thesis
    using assms by (auto simp: decodeReservationReleaseRequested_def sample_decoded_release_def split: sum.splits)
qed

end
