(* ===== verification/Amqp_World.thy ===== *)
theory Amqp_World
  imports Message_Decode
begin

text \<open>
  The outside of the program as the messaging package sees it: the AMQP client library with
  its connections and channels, the clock and the random source. What the code calls of them
  are the fields of the record \<open>world_ops\<close>, functions on a state \<open>'b\<close> about which nothing is
  assumed; the calls on AMQP channels are also kept in a history, which the code never reads
  and the statements are about. The program opens three connections with one channel each, for
  the consumer, the publisher and the dead-letter administration.
\<close>

datatype client = ConsumerClient | PublisherClient | AdminClient

type_synonym byte = "8 word"

record Publishing =
  pub_Headers :: amqp_table
  pub_ContentType :: string
  pub_DeliveryMode :: byte
  pub_MessageId :: string
  pub_CorrelationId :: string
  pub_Timestamp :: go_time
  pub_Body :: string

abbreviation amqp_Persistent :: byte where "amqp_Persistent \<equiv> 2"

text \<open>
  The calls that set up and tear down, with the arguments that vary in the code. The flags
  that these calls always get as \<open>false\<close> (\<open>exclusive\<close>, \<open>noWait\<close>, \<open>noLocal\<close> and so on) are left out;
  \<open>DeclareExchange\<close> has the kind and \<open>durable\<close>, \<open>DeclareQueue\<close> has \<open>durable\<close> and the argument
  table, \<open>BindQueue\<close> is queue, routing key, exchange, and \<open>StartConsume\<close> has \<open>autoAck\<close>.
\<close>

datatype amqp_command =
    Dial string
  | OpenChannel
  | CloseChannel
  | CloseConnection
  | DeclareExchange string string bool
  | DeclareQueue string bool amqp_table
  | BindQueue string string string
  | SetQos go_int
  | ConfirmMode
  | StartConsume string string bool
  | CancelConsume string

text \<open>
  What the select of \<open>publishWithConfirmation\<close> sees: a confirmation with its delivery tag and
  its \<open>Ack\<close> flag, the closed channel, or the end of the publish context with its error.
\<close>

datatype confirmation_event = Confirmation nat bool | ConfirmationsClosed | PublishContextDone go_error

datatype amqp_event =
    Called client amqp_command "go_error option"
  | Published client string string Publishing "go_error option"
  | Awaited client confirmation_event
  | Fetched client string "Delivery option result"
  | Acked client go_int "go_error option"
  | Nacked client go_int bool "go_error option"

record 'b world =
  outside :: 'b
  history :: "amqp_event list"

text \<open>\<open>amqp_Messages\<close> is the message count in what \<open>QueueDeclare\<close> returns; its flag is \<open>noWait\<close>.\<close>

record 'b world_ops =
  rand_Read :: "'b \<Rightarrow> byte list result \<times> 'b"
  time_Now :: "'b \<Rightarrow> go_time \<times> 'b"
  time_Since :: "go_time \<Rightarrow> 'b \<Rightarrow> duration \<times> 'b"
  amqp_Call :: "client \<Rightarrow> amqp_command \<Rightarrow> 'b \<Rightarrow> go_error option \<times> 'b"
  amqp_Publish :: "client \<Rightarrow> go_context \<Rightarrow> string \<Rightarrow> string \<Rightarrow> Publishing \<Rightarrow> 'b \<Rightarrow> go_error option \<times> 'b"
  amqp_Confirmation :: "client \<Rightarrow> go_context \<Rightarrow> 'b \<Rightarrow> confirmation_event \<times> 'b"
  amqp_Ack :: "client \<Rightarrow> go_int \<Rightarrow> 'b \<Rightarrow> go_error option \<times> 'b"
  amqp_Nack :: "client \<Rightarrow> go_int \<Rightarrow> bool \<Rightarrow> 'b \<Rightarrow> go_error option \<times> 'b"
  amqp_Get :: "client \<Rightarrow> string \<Rightarrow> 'b \<Rightarrow> Delivery option result \<times> 'b"
  amqp_Messages :: "client \<Rightarrow> string \<Rightarrow> bool \<Rightarrow> 'b \<Rightarrow> go_int result \<times> 'b"

definition observe :: "('b \<Rightarrow> 'a \<times> 'b) \<Rightarrow> 'b world \<Rightarrow> 'a \<times> 'b world" where
  "observe f w = (let (x, b) = f (outside w) in (x, w\<lparr>outside := b\<rparr>))"

definition perform :: "('b \<Rightarrow> 'a \<times> 'b) \<Rightarrow> ('a \<Rightarrow> amqp_event) \<Rightarrow> 'b world \<Rightarrow> 'a \<times> 'b world" where
  "perform f event w =
     (let (x, b) = f (outside w) in (x, w\<lparr>outside := b, history := history w @ [event x]\<rparr>))"

lemma observe_history: "observe f w = (x, w') \<Longrightarrow> history w' = history w"
  by (auto simp: observe_def split: prod.splits)

lemma perform_history: "perform f event w = (x, w') \<Longrightarrow> history w' = history w @ [event x]"
  by (auto simp: perform_def split: prod.splits)

text \<open>What a call adds to the history.\<close>

definition extends :: "(amqp_event \<Rightarrow> bool) \<Rightarrow> 'b world \<Rightarrow> 'b world \<Rightarrow> bool" where
  "extends P w w' \<longleftrightarrow> (\<exists>evs. history w' = history w @ evs \<and> list_all P evs)"

lemma extends_refl [simp]: "extends P w w"
  by (simp add: extends_def)

lemma extends_trans [trans]: "extends P w w' \<Longrightarrow> extends P w' w'' \<Longrightarrow> extends P w w''"
  by (auto simp: extends_def)

lemma extends_mono: "extends P w w' \<Longrightarrow> (\<And>ev. P ev \<Longrightarrow> Q ev) \<Longrightarrow> extends Q w w'"
  by (auto simp: extends_def list_all_iff)

lemma extends_perform: "perform f event w = (x, w') \<Longrightarrow> P (event x) \<Longrightarrow> extends P w w'"
  by (auto simp: extends_def dest!: perform_history)

section \<open>Sequences of calls\<close>

text \<open>
  Steps that return an error: \<open>and_then\<close> goes on only without one, as a chain of
  \<open>if err := ...; err != nil { return ... }\<close> does, and \<open>wrapping\<close> wraps it with \<open>fmt.Errorf\<close>.
\<close>

type_synonym 'b step = "'b world \<Rightarrow> go_error option \<times> 'b world"

definition no_step :: "'b step" where
  "no_step w = (None, w)"

definition and_then :: "'b step \<Rightarrow> 'b step \<Rightarrow> 'b step" where
  "and_then f g w = (case f w of (Some err, w') \<Rightarrow> (Some err, w') | (None, w') \<Rightarrow> g w')"

definition wrapping :: "frag list \<Rightarrow> 'b step \<Rightarrow> 'b step" where
  "wrapping fs f w = (case f w of (Some err, w') \<Rightarrow> (Some (Wrapf fs err []), w') | (None, w') \<Rightarrow> (None, w'))"

definition call_amqp :: "'b world_ops \<Rightarrow> client \<Rightarrow> amqp_command \<Rightarrow> 'b step" where
  "call_amqp ops c cmd = perform (amqp_Call ops c cmd) (Called c cmd)"

fun in_order :: "'b step list \<Rightarrow> 'b step" where
  "in_order [] = no_step"
| "in_order (f # fs) = and_then f (in_order fs)"

text \<open>A step issues calls of \<open>c\<close> out of \<open>cmds\<close>: all of them, in this order, if it succeeds,
  and otherwise a prefix whose last call failed.\<close>

fun called :: "client \<Rightarrow> amqp_command list \<Rightarrow> 'b world \<Rightarrow> go_error option \<times> 'b world \<Rightarrow> bool" where
  "called c cmds w (None, w') \<longleftrightarrow> history w' = history w @ map (\<lambda>cmd. Called c cmd None) cmds"
| "called c cmds w (Some e, w') \<longleftrightarrow> (\<exists>done cmd rest e'. cmds = done @ cmd # rest \<and>
     history w' = history w @ map (\<lambda>cmd. Called c cmd None) done @ [Called c cmd (Some e')])"

definition calls :: "client \<Rightarrow> amqp_command list \<Rightarrow> 'b step \<Rightarrow> bool" where
  "calls c cmds f \<longleftrightarrow> (\<forall>w. called c cmds w (f w))"

lemma calls_no_step: "calls c [] no_step"
  by (simp add: calls_def no_step_def)

lemma calls_call_amqp: "calls c [cmd] (call_amqp ops c cmd)"
proof -
  have "called c [cmd] w (call_amqp ops c cmd w)" for w
    by (cases "call_amqp ops c cmd w"; cases "fst (call_amqp ops c cmd w)")
      (auto simp: call_amqp_def dest!: perform_history)
  then show ?thesis by (simp add: calls_def)
qed

lemma calls_wrapping: "calls c cmds f \<Longrightarrow> calls c cmds (wrapping fs f)"
  by (auto simp: calls_def wrapping_def split: prod.split option.split) (metis called.simps)+

lemma called_and_then:
  assumes "called c xs w (None, w1)" and "called c ys w1 r"
  shows "called c (xs @ ys) w r"
proof (cases r)
  case (Pair err w')
  show ?thesis
  proof (cases err)
    case None
    with assms Pair show ?thesis by simp
  next
    case (Some e)
    with assms Pair obtain "done" cmd rest e' where "ys = done @ cmd # rest"
      "history w' = history w1 @ map (\<lambda>cmd. Called c cmd None) done @ [Called c cmd (Some e')]"
      by auto
    with assms(1) have "xs @ ys = (xs @ done) @ cmd # rest \<and> history w' = history w @
        map (\<lambda>cmd. Called c cmd None) (xs @ done) @ [Called c cmd (Some e')]" by simp
    with Some Pair show ?thesis by (simp only: called.simps) blast
  qed
qed

lemma called_stopped: "called c xs w (Some e, w') \<Longrightarrow> called c (xs @ ys) w (Some e, w')"
  by (simp only: called.simps) (metis append_Cons append_assoc)

lemma calls_and_then:
  assumes "calls c xs f" and "calls c ys g"
  shows "calls c (xs @ ys) (and_then f g)"
  unfolding calls_def
proof
  fix w
  from assms(1) have "called c xs w (f w)" by (simp add: calls_def)
  then show "called c (xs @ ys) w (and_then f g w)"
    using assms(2) unfolding and_then_def calls_def
    by (auto split: prod.split option.split intro: called_and_then called_stopped simp del: called.simps)
qed

lemma calls_in_order:
  "list_all2 (calls c) cmdss fs \<Longrightarrow> calls c (concat cmdss) (in_order fs)"
  by (induction rule: list_all2_induct) (auto intro: calls_no_step calls_and_then)

lemmas calls_intros = calls_no_step calls_call_amqp calls_wrapping calls_and_then

lemma calls_success: "calls c cmds f \<Longrightarrow> f w = (None, w') \<Longrightarrow>
    history w' = history w @ map (\<lambda>cmd. Called c cmd None) cmds"
  using called.simps(1) by (metis calls_def)

end
