(* ===== verification/Message_Publish.thy ===== *)
theory Message_Publish
  imports Amqp_World
begin

text \<open>
  Outgoing messages (internal/messaging/rabbitmq/publisher.go and
  failure_simulation_publisher.go): message identifiers, payloads, headers, forwarded
  deliveries, publishing with a confirmation, and the publisher that simulates failures. A
  value of the Go interface \<open>ReservationResultPublisher\<close> is a record of its methods.
\<close>

unbundle bit_operations_syntax

section \<open>Names\<close>

abbreviation InventoryDeadLetterExchangeName :: string where
  "InventoryDeadLetterExchangeName \<equiv> ''stockflow.inventory.dlx''"
abbreviation InventoryExchangeName :: string where
  "InventoryExchangeName \<equiv> ''stockflow.inventory''"
abbreviation InventoryRetryExchangeName :: string where
  "InventoryRetryExchangeName \<equiv> ''stockflow.inventory.retry''"

abbreviation ReservationConfirmedRoutingKey :: string where
  "ReservationConfirmedRoutingKey \<equiv> ''inventory.reservation.confirmed.v1''"
abbreviation ReservationRejectedRoutingKey :: string where
  "ReservationRejectedRoutingKey \<equiv> ''inventory.reservation.rejected.v1''"
abbreviation ReservationReleasedRoutingKey :: string where
  "ReservationReleasedRoutingKey \<equiv> ''inventory.reservation.released.v1''"
abbreviation ReservationReleaseFailedRoutingKey :: string where
  "ReservationReleaseFailedRoutingKey \<equiv> ''inventory.reservation.release_failed.v1''"

section \<open>Message identifiers\<close>

definition hex_bytes :: "byte list \<Rightarrow> string" where
  "hex_bytes bs = concat (map (\<lambda>b. [hex_char (unat b div 16), hex_char (unat b mod 16)]) bs)"

text \<open>The argument is what \<open>rand.Read\<close> filled the 16 bytes with, or its error.\<close>

definition newUUID :: "byte list result \<Rightarrow> string result" where
  "newUUID read =
     (case read of
        Inl err \<Rightarrow> Inl err
      | Inr value \<Rightarrow>
          (let value = value[6 := ((value ! 6) AND 0x0F) OR 0x40];
               value = value[8 := ((value ! 8) AND 0x3F) OR 0x80]
           in Inr (hex_bytes (take 4 value) @ ''-'' @ hex_bytes (take 2 (drop 4 value)) @ ''-'' @
                   hex_bytes (take 2 (drop 6 value)) @ ''-'' @ hex_bytes (take 2 (drop 8 value)) @ ''-'' @
                   hex_bytes (take 6 (drop 10 value)))))"

section \<open>Payloads\<close>

text \<open>
  A payload struct is the list of its JSON names and values. A time is written in its RFC 3339
  form, which needs no escaping, and refused when its year does not have four digits or its
  zone lies a day or more away.
\<close>

datatype payload_value = PString string | PInt go_int | PTime go_time

type_synonym payload = "(string \<times> payload_value) list"

definition year_of_time :: "go_time \<Rightarrow> int" where
  "year_of_time t =
     fst (civil_from_days ((unix_nanos t div 1000000000 + zone_offset t) div 86400 + unix_epoch_day))"

definition time_marshals :: "go_time \<Rightarrow> bool" where
  "time_marshals t \<longleftrightarrow> 0 \<le> year_of_time t \<and> year_of_time t \<le> 9999 \<and> \<bar>zone_offset t\<bar> < 86400"

fun payload_field :: "payload_value \<Rightarrow> field_value result" where
  "payload_field (PString s) = Inr (VStr s)"
| "payload_field (PInt i) = Inr (VNum i)"
| "payload_field (PTime t) =
     (if time_marshals t then Inr (VStr (Format_RFC3339Nano t))
      else Inl (ForeignError ''Time.MarshalJSON''))"

fun payload_fields :: "payload \<Rightarrow> (string \<times> field_value) list result" where
  "payload_fields [] = Inr []"
| "payload_fields ((n, v) # fs) =
     (case payload_field v of
        Inl err \<Rightarrow> Inl err
      | Inr w \<Rightarrow>
          (case payload_fields fs of Inl err \<Rightarrow> Inl err | Inr ws \<Rightarrow> Inr ((n, w) # ws)))"

definition json_Marshal :: "payload \<Rightarrow> string result" where
  "json_Marshal p = (case payload_fields p of Inl err \<Rightarrow> Inl err | Inr fs \<Rightarrow> Inr (marshal_struct fs))"

definition reservationConfirmedPayload :: "ReservationResult \<Rightarrow> payload" where
  "reservationConfirmedPayload result =
     [(''reservation_id'', PString (ReservationID (Request result))),
      (''order_id'', PString (OrderID (Request result))),
      (''sku'', PString (req_SKU (Request result))),
      (''quantity'', PInt (req_Quantity (Request result))),
      (''reserved_at'', PTime (CreatedAt (result_Reservation result)))]"

definition reservationRejectedPayload :: "ReservationResult \<Rightarrow> payload" where
  "reservationRejectedPayload result =
     [(''reservation_id'', PString (ReservationID (Request result))),
      (''order_id'', PString (OrderID (Request result))),
      (''sku'', PString (req_SKU (Request result))),
      (''quantity'', PInt (req_Quantity (Request result))),
      (''reason'', PString (RejectionReason result)),
      (''details'', PString ''Requested quantity exceeds available stock.'')]"

definition reservationResultPayload :: "ReservationResult \<Rightarrow> (string \<times> payload) result" where
  "reservationResultPayload result =
     (if Decision result = ReservationDecisionConfirmed
      then Inr (ReservationConfirmedRoutingKey, reservationConfirmedPayload result)
      else if Decision result = ReservationDecisionRejected
      then Inr (ReservationRejectedRoutingKey, reservationRejectedPayload result)
      else Inl (Errorf [Lit ''unsupported reservation decision '', Quoted (Decision result)]))"

definition reservationReleasedPayload :: "ReservationReleaseResult \<Rightarrow> go_time \<Rightarrow> payload" where
  "reservationReleasedPayload result releasedAt =
     [(''reservation_id'', PString (rel_ReservationID (rel_Request result))),
      (''released_at'', PTime releasedAt)]"

definition reservationReleaseFailedPayload :: "ReservationReleaseResult \<Rightarrow> payload" where
  "reservationReleaseFailedPayload result =
     [(''reservation_id'', PString (rel_ReservationID (rel_Request result))),
      (''reason'', PString (FailureReason result)),
      (''details'', PString ''Reservation release could not be completed.'')]"

definition reservationReleaseResultPayload :: "ReservationReleaseResult \<Rightarrow> (string \<times> payload) result" where
  "reservationReleaseResultPayload result =
     (if rel_Decision result = ReservationReleaseDecisionReleased
      then (case ReleasedAt (rel_Reservation result) of
              None \<Rightarrow> Inl (Errorf [Lit ''released reservation timestamp is required''])
            | Some releasedAt \<Rightarrow>
                Inr (ReservationReleasedRoutingKey, reservationReleasedPayload result releasedAt))
      else if rel_Decision result = ReservationReleaseDecisionFailed
      then Inr (ReservationReleaseFailedRoutingKey, reservationReleaseFailedPayload result)
      else Inl (Errorf [Lit ''unsupported reservation release decision '', Quoted (rel_Decision result)]))"

section \<open>Messages\<close>

definition result_headers :: "MessageMetadata \<Rightarrow> string \<Rightarrow> string \<Rightarrow> go_time \<Rightarrow> amqp_table" where
  "result_headers metadata decision messageID occurredAt = fmap_of_list
     [(''message_id'', HString messageID),
      (''correlation_id'', HString (CorrelationID metadata)),
      (''causation_id'', HString (MessageID metadata)),
      (''idempotency_key'', HString (IdempotencyKey metadata @ '':'' @ decision)),
      (''occurred_at'', HString (Format_RFC3339Nano occurredAt)),
      (''schema_version'', HInt32 1),
      (''retry_count'', HInt32 0)]"

definition result_publishing ::
  "MessageMetadata \<Rightarrow> string \<Rightarrow> string \<Rightarrow> go_time \<Rightarrow> string \<Rightarrow> Publishing" where
  "result_publishing metadata decision messageID occurredAt body =
     \<lparr>pub_Headers = result_headers metadata decision messageID occurredAt,
      pub_ContentType = ''application/json'', pub_DeliveryMode = amqp_Persistent,
      pub_MessageId = messageID, pub_CorrelationId = CorrelationID metadata,
      pub_Timestamp = occurredAt, pub_Body = body\<rparr>"

definition newReservationResultMessage ::
  "ReservationResult \<Rightarrow> string \<Rightarrow> go_time \<Rightarrow> (string \<times> Publishing) result" where
  "newReservationResultMessage result messageID occurredAt =
     (case reservationResultPayload result of
        Inl err \<Rightarrow> Inl err
      | Inr (routingKey, payload) \<Rightarrow>
          (case json_Marshal payload of
             Inl err \<Rightarrow> Inl (Wrapf [Lit ''marshal reservation result payload: ''] err [])
           | Inr body \<Rightarrow>
               Inr (routingKey, result_publishing (req_Metadata (Request result)) (Decision result)
                      messageID occurredAt body)))"

definition newReservationReleaseResultMessage ::
  "ReservationReleaseResult \<Rightarrow> string \<Rightarrow> go_time \<Rightarrow> (string \<times> Publishing) result" where
  "newReservationReleaseResultMessage result messageID occurredAt =
     (case reservationReleaseResultPayload result of
        Inl err \<Rightarrow> Inl err
      | Inr (routingKey, payload) \<Rightarrow>
          (case json_Marshal payload of
             Inl err \<Rightarrow> Inl (Wrapf [Lit ''marshal reservation release result payload: ''] err [])
           | Inr body \<Rightarrow>
               Inr (routingKey, result_publishing (rel_Metadata (rel_Request result)) (rel_Decision result)
                      messageID occurredAt body)))"

text \<open>A forwarded delivery keeps everything but the retry count, which is cut to 32 bits.\<close>

definition newForwardedDelivery :: "Delivery \<Rightarrow> go_int \<Rightarrow> Publishing" where
  "newForwardedDelivery delivery retryCount =
     \<lparr>pub_Headers = fmupd ''retry_count'' (HInt32 (ucast retryCount)) (del_Headers delivery),
      pub_ContentType = del_ContentType delivery, pub_DeliveryMode = amqp_Persistent,
      pub_MessageId = del_MessageId delivery, pub_CorrelationId = del_CorrelationId delivery,
      pub_Timestamp = del_Timestamp delivery, pub_Body = del_Body delivery\<rparr>"

section \<open>Publishing\<close>

definition publishWithConfirmation ::
  "'b world_ops \<Rightarrow> go_context \<Rightarrow> string \<Rightarrow> string \<Rightarrow> Publishing \<Rightarrow> 'b world \<Rightarrow> go_error option \<times> 'b world" where
  "publishWithConfirmation ops ctx exchange routingKey publishing w =
     (case perform (amqp_Publish ops PublisherClient ctx exchange routingKey publishing)
             (Published PublisherClient exchange routingKey publishing) w of
        (Some err, w') \<Rightarrow> (Some (Wrapf [Lit ''publish RabbitMQ message: ''] err []), w')
      | (None, w') \<Rightarrow>
          (case perform (amqp_Confirmation ops PublisherClient ctx) (Awaited PublisherClient) w' of
             (ConfirmationsClosed, w'') \<Rightarrow>
               (Some (Errorf [Lit ''wait for reservation result confirmation: RabbitMQ channel closed'']), w'')
           | (Confirmation tag ack, w'') \<Rightarrow>
               (if \<not> ack
                then (Some (Errorf [Lit ''wait for reservation result confirmation: message was not acknowledged'']), w'')
                else (None, w''))
           | (PublishContextDone err, w'') \<Rightarrow>
               (Some (Wrapf [Lit ''wait for reservation result confirmation: ''] err []), w'')))"

record 'w ReservationResultPublisher =
  PublishReservationResult :: "go_context \<Rightarrow> ReservationResult \<Rightarrow> 'w \<Rightarrow> go_error option \<times> 'w"
  PublishReservationReleaseResult ::
    "go_context \<Rightarrow> ReservationReleaseResult \<Rightarrow> 'w \<Rightarrow> go_error option \<times> 'w"
  PublishRetry :: "go_context \<Rightarrow> Delivery \<Rightarrow> string \<Rightarrow> go_int \<Rightarrow> 'w \<Rightarrow> go_error option \<times> 'w"
  PublishDeadLetter :: "go_context \<Rightarrow> Delivery \<Rightarrow> string \<Rightarrow> go_int \<Rightarrow> 'w \<Rightarrow> go_error option \<times> 'w"

definition Publisher_PublishReservationResult ::
  "'b world_ops \<Rightarrow> go_context \<Rightarrow> ReservationResult \<Rightarrow> 'b world \<Rightarrow> go_error option \<times> 'b world" where
  "Publisher_PublishReservationResult ops ctx result w =
     (let (read, w1) = observe (rand_Read ops) w in
      case newUUID read of
        Inl err \<Rightarrow> (Some (Wrapf [Lit ''generate message ID: ''] err []), w1)
      | Inr messageID \<Rightarrow>
          (let (now, w2) = observe (time_Now ops) w1 in
           case newReservationResultMessage result messageID (UTC now) of
             Inl err \<Rightarrow> (Some err, w2)
           | Inr (routingKey, publishing) \<Rightarrow>
               publishWithConfirmation ops ctx InventoryExchangeName routingKey publishing w2))"

definition Publisher_PublishReservationReleaseResult ::
  "'b world_ops \<Rightarrow> go_context \<Rightarrow> ReservationReleaseResult \<Rightarrow> 'b world \<Rightarrow> go_error option \<times> 'b world" where
  "Publisher_PublishReservationReleaseResult ops ctx result w =
     (let (read, w1) = observe (rand_Read ops) w in
      case newUUID read of
        Inl err \<Rightarrow> (Some (Wrapf [Lit ''generate message ID: ''] err []), w1)
      | Inr messageID \<Rightarrow>
          (let (now, w2) = observe (time_Now ops) w1 in
           case newReservationReleaseResultMessage result messageID (UTC now) of
             Inl err \<Rightarrow> (Some err, w2)
           | Inr (routingKey, publishing) \<Rightarrow>
               publishWithConfirmation ops ctx InventoryExchangeName routingKey publishing w2))"

definition Publisher_PublishRetry ::
  "'b world_ops \<Rightarrow> go_context \<Rightarrow> Delivery \<Rightarrow> string \<Rightarrow> go_int \<Rightarrow> 'b world \<Rightarrow> go_error option \<times> 'b world" where
  "Publisher_PublishRetry ops ctx delivery routingKey retryCount w =
     publishWithConfirmation ops ctx InventoryRetryExchangeName routingKey
       (newForwardedDelivery delivery retryCount) w"

definition Publisher_PublishDeadLetter ::
  "'b world_ops \<Rightarrow> go_context \<Rightarrow> Delivery \<Rightarrow> string \<Rightarrow> go_int \<Rightarrow> 'b world \<Rightarrow> go_error option \<times> 'b world" where
  "Publisher_PublishDeadLetter ops ctx delivery routingKey retryCount w =
     publishWithConfirmation ops ctx InventoryDeadLetterExchangeName routingKey
       (newForwardedDelivery delivery retryCount) w"

definition Publisher :: "'b world_ops \<Rightarrow> 'b world ReservationResultPublisher" where
  "Publisher ops =
     \<lparr>PublishReservationResult = Publisher_PublishReservationResult ops,
      PublishReservationReleaseResult = Publisher_PublishReservationReleaseResult ops,
      PublishRetry = Publisher_PublishRetry ops,
      PublishDeadLetter = Publisher_PublishDeadLetter ops\<rparr>"

section \<open>Simulated failures\<close>

definition publishResult ::
  "FailureModeController \<Rightarrow> ('w \<Rightarrow> go_error option \<times> 'w) \<Rightarrow> 'w \<Rightarrow> go_error option \<times> 'w" where
  "publishResult modes publish w =
     (if Mode (FailureModeController_Get modes) = FailureModePublishFailure
      then (Some (Sentinel ErrSimulatedPublishFailure), w)
      else if Mode (FailureModeController_Get modes) = FailureModeDuplicateResponse
      then (case publish w of
              (Some err, w') \<Rightarrow> (Some err, w')
            | (None, w') \<Rightarrow>
                (case publish w' of
                   (Some err, w'') \<Rightarrow> (Some (Wrapf [Lit ''publish duplicate result: ''] err []), w'')
                 | (None, w'') \<Rightarrow> (None, w'')))
      else publish w)"

definition FailureSimulationPublisher ::
  "'w ReservationResultPublisher \<Rightarrow> FailureModeController \<Rightarrow> 'w ReservationResultPublisher" where
  "FailureSimulationPublisher publisher modes =
     \<lparr>PublishReservationResult = (\<lambda>ctx result.
        publishResult modes (PublishReservationResult publisher ctx result)),
      PublishReservationReleaseResult = (\<lambda>ctx result.
        publishResult modes (PublishReservationReleaseResult publisher ctx result)),
      PublishRetry = PublishRetry publisher,
      PublishDeadLetter = PublishDeadLetter publisher\<rparr>"


section \<open>Identifiers are UUIDs\<close>

lemma hex_bytes_Cons [simp]:
  "hex_bytes [] = []" "hex_bytes (b # bs) = hex_char (unat b div 16) # hex_char (unat b mod 16) # hex_bytes bs"
  by (simp_all add: hex_bytes_def)

lemma byte_nibbles [simp]:
  fixes b :: byte
  shows "unat b div 16 < 16" and "unat b mod 16 < 16"
  using unsigned_less [of b, where ?'a = nat] by (simp_all add: less_mult_imp_div_less)

text \<open>The bits that mark version 4 and the variant, read off the high nibbles.\<close>

lemma version_nibble: "unat (((b :: byte) AND 0x0F) OR 0x40) div 16 = 4"
proof -
  have "(unat b AND 15 OR 64) div 16 = drop_bit 4 (unat b AND 15 OR 64)" by (simp add: drop_bit_eq_div)
  also have "\<dots> = 4" by (simp only: drop_bit_and drop_bit_or) (simp add: drop_bit_eq_div)
  finally show ?thesis by (simp add: unsigned_and_eq unsigned_or_eq)
qed

lemma variant_nibble: "unat (((b :: byte) AND 0x3F) OR 0x80) div 16 \<in> {8, 9, 10, 11}"
proof -
  let ?n = "drop_bit 4 (unat b)"
  have "(unat b AND 63 OR 128) div 16 = drop_bit 4 (unat b AND 63 OR 128)" by (simp add: drop_bit_eq_div)
  also have "\<dots> = (?n AND 3) OR 8" by (simp only: drop_bit_and drop_bit_or) (simp add: drop_bit_eq_div)
  finally have e: "(unat b AND 63 OR 128) div 16 = (?n AND 3) OR 8" .
  have "?n AND 3 = ?n mod 4"
    using take_bit_eq_mask [of 2 ?n] by (simp add: take_bit_eq_mod mask_eq_exp_minus_1)
  then have "?n AND 3 < 4" by simp
  then have "?n AND 3 \<in> {0, 1, 2, 3}" by auto
  then have "(unat b AND 63 OR 128) div 16 \<in> {8, 9, 10, 11}" unfolding e by (elim insertE) auto
  then show ?thesis by (simp add: unsigned_and_eq unsigned_or_eq)
qed

lemma sixteen_bytes:
  assumes "length bs = 16"
  obtains b0 b1 b2 b3 b4 b5 b6 b7 b8 b9 b10 b11 b12 b13 b14 b15
  where "bs = [b0, b1, b2, b3, b4, b5, b6, b7, b8, b9, b10, b11, b12, b13, b14, b15]"
  using assms by (auto simp: length_Suc_conv numeral_eq_Suc)

text \<open>
  Property C32. Every message identifier the publisher makes is a version 4 UUID in the form
  the decoder asks for: whatever 16 bytes the random source gives, the text has five blocks of
  lower-case hexadecimal digits, the version digit is 4 and the variant digit is one of 8, 9,
  a and b.
\<close>

theorem newUUID_valid:
  assumes "length bs = 16"
  shows "\<exists>u. newUUID (Inr bs) = Inr u \<and> uuidPattern u \<and> u ! 14 = CHR ''4'' \<and>
    u ! 19 \<in> {CHR ''8'', CHR ''9'', CHR ''a'', CHR ''b''}"
proof -
  obtain b0 b1 b2 b3 b4 b5 b6 b7 b8 b9 b10 b11 b12 b13 b14 b15
    where bs: "bs = [b0, b1, b2, b3, b4, b5, b6, b7, b8, b9, b10, b11, b12, b13, b14, b15]"
    using sixteen_bytes [OF assms] .
  let ?v = "(b6 AND 0x0F) OR 0x40" and ?w = "(b8 AND 0x3F) OR 0x80"
  have u: "newUUID (Inr bs) = Inr (hex_bytes [b0, b1, b2, b3] @ ''-'' @ hex_bytes [b4, b5] @ ''-'' @
      hex_bytes [?v, b7] @ ''-'' @ hex_bytes [?w, b9] @ ''-'' @ hex_bytes [b10, b11, b12, b13, b14, b15])"
    by (simp add: newUUID_def bs)
  have four: "hex_char 4 = CHR ''4''" by (simp add: hex_char_def char_of_def bit_iff_odd)
  have four_hex: "hex_value CHR ''4'' = Some 4" by (simp add: hex_value_def is_digit_def)
  have "hex_char (unat ?w div 16) \<in> {CHR ''8'', CHR ''9'', CHR ''a'', CHR ''b''}"
    using variant_nibble [of b8] by (elim insertE) (simp_all add: hex_char_def char_of_def bit_iff_odd)
  then show ?thesis unfolding u by (simp add: uuidPattern_def version_nibble four four_hex)
qed

theorem newUUID_valid_witness:
  "\<exists>u. newUUID (Inr (replicate 16 0xFF)) = Inr u \<and> uuidPattern u \<and> u ! 14 = CHR ''4''"
  using newUUID_valid [of "replicate 16 0xFF"] by auto


section \<open>Outgoing messages meet the incoming contract\<close>

lemma ends_solid_append [simp]:
  "y \<noteq> [] \<Longrightarrow> ends_solid (x @ y) = ends_solid y" "y \<noteq> [] \<Longrightarrow> ends_solid (c # y) = ends_solid y"
  by (simp_all add: ends_solid_def)

lemma Format_ends_solid:
  assumes "zone_offset t = 0"
  shows "ends_solid (Format_RFC3339Nano t)"
proof -
  have "ends_solid ''Z''" by (simp add: ends_solid_def space1_def)
  with assms show ?thesis
    unfolding Format_RFC3339Nano_def Let_def case_prod_beta format_zone_def by simp
qed

lemma Parse_Format_UTC:
  assumes "zone_offset t = 0" and "0 \<le> year_of_time t" and "year_of_time t \<le> 9999"
  shows "Parse_RFC3339 (Format_RFC3339Nano t) = Some t"
proof -
  obtain y m d where c: "civil_from_days (unix_nanos t div 1000000000 div 86400 + unix_epoch_day) = (y, m, d)"
    by (cases "civil_from_days (unix_nanos t div 1000000000 div 86400 + unix_epoch_day)") auto
  with assms show ?thesis by (intro Parse_Format [OF _ c]) (simp_all add: year_of_time_def)
qed

lemma fmlookup_result_headers:
  "fmlookup (result_headers m decision u t) ''message_id'' = Some (HString u)"
  "fmlookup (result_headers m decision u t) ''correlation_id'' = Some (HString (CorrelationID m))"
  "fmlookup (result_headers m decision u t) ''causation_id'' = Some (HString (MessageID m))"
  "fmlookup (result_headers m decision u t) ''idempotency_key'' =
     Some (HString (IdempotencyKey m @ '':'' @ decision))"
  "fmlookup (result_headers m decision u t) ''occurred_at'' = Some (HString (Format_RFC3339Nano t))"
  "fmlookup (result_headers m decision u t) ''schema_version'' = Some (HInt32 1)"
  "fmlookup (result_headers m decision u t) ''retry_count'' = Some (HInt32 0)"
  by (simp_all add: result_headers_def)

lemma required_result_headers:
  assumes "uuidPattern u" and "TrimSpace u \<noteq> ''''"
    and "uuidPattern (CorrelationID m)" and "TrimSpace (CorrelationID m) \<noteq> ''''"
    and "TrimSpace (MessageID m) \<noteq> ''''" and "ends_solid decision"
    and "zone_offset t = 0" and "0 \<le> year_of_time t" and "year_of_time t \<le> 9999"
  shows "decodeMessageMetadata (result_headers m decision u t) =
    Inr \<lparr>MessageID = u, CorrelationID = CorrelationID m, CausationID = MessageID m,
         IdempotencyKey = IdempotencyKey m @ '':'' @ decision, OccurredAt = t,
         SchemaVersion = 1, RetryCount = 0\<rparr>"
proof -
  let ?h = "result_headers m decision u t"
  have key: "TrimSpace (IdempotencyKey m @ '':'' @ decision) \<noteq> []"
    using assms(6) by (intro TrimSpace_ends_solid) (simp add: ends_solid_def)
  have at: "TrimSpace (Format_RFC3339Nano t) \<noteq> []"
    by (rule TrimSpace_ends_solid [OF Format_ends_solid [OF assms(7)]])
  have "requiredUUIDHeader ?h ''message_id'' = Inr u"
    "requiredUUIDHeader ?h ''correlation_id'' = Inr (CorrelationID m)"
    "requiredStringHeader ?h ''causation_id'' = Inr (MessageID m)"
    "requiredStringHeader ?h ''idempotency_key'' = Inr (IdempotencyKey m @ '':'' @ decision)"
    "requiredStringHeader ?h ''occurred_at'' = Inr (Format_RFC3339Nano t)"
    unfolding requiredUUIDHeader_Inr requiredStringHeader_Inr fmlookup_result_headers
    using assms key at by simp_all
  moreover have "requiredIntegerHeader ?h ''schema_version'' = Inr 1"
    "requiredIntegerHeader ?h ''retry_count'' = Inr 0"
    by (simp_all add: requiredIntegerHeader_def fmlookup_result_headers)
  ultimately show ?thesis
    unfolding decodeMessageMetadata_def using Parse_Format_UTC [OF assms(7-9)] by simp
qed

lemma hex_blocks_last:
  "hex_blocks ks s \<Longrightarrow> ks \<noteq> [] \<Longrightarrow> 0 < last ks \<Longrightarrow> s \<noteq> [] \<and> hex_value (last s) \<noteq> None"
proof (induction ks s rule: hex_blocks.induct)
  case (2 k s)
  then show ?case by (cases s rule: rev_cases) auto
next
  case (3 k k' ks s)
  then have "drop (Suc k) s \<noteq> [] \<and> hex_value (last (drop (Suc k) s)) \<noteq> None" by fastforce
  moreover from this have "last (drop (Suc k) s) = last s" by (intro last_drop) simp
  ultimately show ?case by auto
qed simp

lemma uuidPattern_not_blank: "uuidPattern u \<Longrightarrow> TrimSpace u \<noteq> []"
proof (rule TrimSpace_ends_solid)
  assume "uuidPattern u"
  then have "u \<noteq> []" "hex_value (last u) \<noteq> None"
    using hex_blocks_last [of "[8, 4, 4, 4, 12]" u] by (auto simp: uuidPattern_def)
  then show "ends_solid u"
    by (auto simp: ends_solid_def hex_value_def is_digit_def space1_def split: if_splits)
qed


fun payload_json :: "payload_value \<Rightarrow> json" where
  "payload_json (PString s) = JString (to_valid s)"
| "payload_json (PInt i) = JNumber (show_int (sint i))"
| "payload_json (PTime t) = JString (Format_RFC3339Nano t)"

text \<open>A marshalled payload is one JSON object with the payload's names and values.\<close>

lemma json_Marshal_read_back:
  assumes "json_Marshal p = Inr body" and "\<forall>n \<in> set (map fst p). ascii n"
  shows "decode_next (tokenise body) = Decoded (JObject (map (\<lambda>(n, v). (n, payload_json v)) p)) []"
proof -
  from assms(1) obtain fs where fs: "payload_fields p = Inr fs" "body = marshal_struct fs"
    by (auto simp: json_Marshal_def split: sum.splits)
  have "field_json w = payload_json v" if "payload_field v = Inr w" for v w
    using that by (cases v) (auto simp: to_valid_ascii [OF Format_ascii] split: if_splits)
  with fs(1) assms(2) have "map (\<lambda>(n, v). (to_valid n, field_json v)) fs = map (\<lambda>(n, v). (n, payload_json v)) p"
    by (induction p arbitrary: fs rule: payload_fields.induct)
      (auto simp: to_valid_ascii split: sum.splits)
  with marshal_struct_read_back [of fs] fs(2) show ?thesis by simp
qed

text \<open>
  Property C30. A result message meets the contract of the messages the service itself takes.
  For a request with valid metadata, a UUID as identifier and a UTC time with a four-digit
  year, the headers decode: the correlation is passed on, the request's identifier becomes the
  causation, the key is the request's key with the decision appended, the retry count is 0.
  The routing key and the body say what was decided: the body is a single JSON object with
  exactly the fields of the decision, strings repaired to valid UTF-8.
\<close>

theorem reservation_result_message:
  assumes "decodeMessageMetadata h = Inr (req_Metadata (Request result))"
    and "uuidPattern u" and "zone_offset t = 0" and "0 \<le> year_of_time t" and "year_of_time t \<le> 9999"
    and "newReservationResultMessage result u t = Inr (key, p)"
  shows "decodeMessageMetadata (pub_Headers p) =
      Inr \<lparr>MessageID = u, CorrelationID = CorrelationID (req_Metadata (Request result)),
           CausationID = MessageID (req_Metadata (Request result)),
           IdempotencyKey = IdempotencyKey (req_Metadata (Request result)) @ '':'' @ Decision result,
           OccurredAt = t, SchemaVersion = 1, RetryCount = 0\<rparr> \<and>
    (Decision result = ReservationDecisionConfirmed \<and> key = ReservationConfirmedRoutingKey \<and>
       decode_next (tokenise (pub_Body p)) = Decoded (JObject
         [(''reservation_id'', JString (to_valid (ReservationID (Request result)))),
          (''order_id'', JString (to_valid (OrderID (Request result)))),
          (''sku'', JString (to_valid (req_SKU (Request result)))),
          (''quantity'', JNumber (show_int (sint (req_Quantity (Request result))))),
          (''reserved_at'', JString (Format_RFC3339Nano (CreatedAt (result_Reservation result))))]) [] \<or>
     Decision result = ReservationDecisionRejected \<and> key = ReservationRejectedRoutingKey \<and>
       decode_next (tokenise (pub_Body p)) = Decoded (JObject
         [(''reservation_id'', JString (to_valid (ReservationID (Request result)))),
          (''order_id'', JString (to_valid (OrderID (Request result)))),
          (''sku'', JString (to_valid (req_SKU (Request result)))),
          (''quantity'', JNumber (show_int (sint (req_Quantity (Request result))))),
          (''reason'', JString (to_valid (RejectionReason result))),
          (''details'', JString ''Requested quantity exceeds available stock.'')]) [])"
proof -
  from assms(6) obtain load body where load: "reservationResultPayload result = Inr (key, load)"
    "json_Marshal load = Inr body"
    and p: "p = result_publishing (req_Metadata (Request result)) (Decision result) u t body"
    by (auto simp: newReservationResultMessage_def split: sum.splits)
  from load(1) consider (confirmed) "Decision result = ReservationDecisionConfirmed"
      "key = ReservationConfirmedRoutingKey" "load = reservationConfirmedPayload result"
    | (rejected) "Decision result = ReservationDecisionRejected"
      "key = ReservationRejectedRoutingKey" "load = reservationRejectedPayload result"
    by (auto simp: reservationResultPayload_def split: if_splits)
  note kind = this
  have solid: "ends_solid (Decision result)"
    using kind by cases (simp_all add: ends_solid_def space1_def)
  note m = decodeMessageMetadata_Inr [OF assms(1)]
  have headers: "decodeMessageMetadata (pub_Headers p) =
      Inr \<lparr>MessageID = u, CorrelationID = CorrelationID (req_Metadata (Request result)),
           CausationID = MessageID (req_Metadata (Request result)),
           IdempotencyKey = IdempotencyKey (req_Metadata (Request result)) @ '':'' @ Decision result,
           OccurredAt = t, SchemaVersion = 1, RetryCount = 0\<rparr>"
    unfolding p result_publishing_def Publishing.simps
    using m by (intro required_result_headers) (simp_all add: assms uuidPattern_not_blank solid)
  have body: "pub_Body p = body" by (simp add: p result_publishing_def)
  from kind show ?thesis
  proof cases
    case confirmed
    with json_Marshal_read_back [OF load(2)] headers show ?thesis
      by (simp add: reservationConfirmedPayload_def body)
  next
    case rejected
    with json_Marshal_read_back [OF load(2)] headers show ?thesis
      by (simp add: reservationRejectedPayload_def body to_valid_ascii)
  qed
qed


text \<open>
  Property C31. A release result message meets the same contract, for a request with valid
  metadata: its headers decode as those of a reservation result do, its routing key names the
  decision, and its body is a single JSON object with the reservation, and the release time or
  the reason of the failure.
\<close>

theorem release_result_message:
  assumes "decodeMessageMetadata h = Inr (rel_Metadata (rel_Request result))"
    and "uuidPattern u" and "zone_offset t = 0" and "0 \<le> year_of_time t" and "year_of_time t \<le> 9999"
    and "newReservationReleaseResultMessage result u t = Inr (key, p)"
  shows "decodeMessageMetadata (pub_Headers p) =
      Inr \<lparr>MessageID = u, CorrelationID = CorrelationID (rel_Metadata (rel_Request result)),
           CausationID = MessageID (rel_Metadata (rel_Request result)),
           IdempotencyKey = IdempotencyKey (rel_Metadata (rel_Request result)) @ '':'' @ rel_Decision result,
           OccurredAt = t, SchemaVersion = 1, RetryCount = 0\<rparr> \<and>
    (rel_Decision result = ReservationReleaseDecisionReleased \<and> key = ReservationReleasedRoutingKey \<and>
       (\<exists>time. ReleasedAt (rel_Reservation result) = Some time \<and>
         decode_next (tokenise (pub_Body p)) = Decoded (JObject
           [(''reservation_id'', JString (to_valid (rel_ReservationID (rel_Request result)))),
            (''released_at'', JString (Format_RFC3339Nano time))]) []) \<or>
     rel_Decision result = ReservationReleaseDecisionFailed \<and> key = ReservationReleaseFailedRoutingKey \<and>
       decode_next (tokenise (pub_Body p)) = Decoded (JObject
         [(''reservation_id'', JString (to_valid (rel_ReservationID (rel_Request result)))),
          (''reason'', JString (to_valid (FailureReason result))),
          (''details'', JString ''Reservation release could not be completed.'')]) [])"
proof -
  from assms(6) obtain load body where load: "reservationReleaseResultPayload result = Inr (key, load)"
    "json_Marshal load = Inr body"
    and p: "p = result_publishing (rel_Metadata (rel_Request result)) (rel_Decision result) u t body"
    by (auto simp: newReservationReleaseResultMessage_def split: sum.splits)
  from load(1) consider (released) time where "rel_Decision result = ReservationReleaseDecisionReleased"
      "key = ReservationReleasedRoutingKey" "ReleasedAt (rel_Reservation result) = Some time"
      "load = reservationReleasedPayload result time"
    | (failed) "rel_Decision result = ReservationReleaseDecisionFailed"
      "key = ReservationReleaseFailedRoutingKey" "load = reservationReleaseFailedPayload result"
    by (auto simp: reservationReleaseResultPayload_def split: if_splits option.splits)
  note kind = this
  have solid: "ends_solid (rel_Decision result)"
    using kind by cases (simp_all add: ends_solid_def space1_def)
  note m = decodeMessageMetadata_Inr [OF assms(1)]
  have headers: "decodeMessageMetadata (pub_Headers p) =
      Inr \<lparr>MessageID = u, CorrelationID = CorrelationID (rel_Metadata (rel_Request result)),
           CausationID = MessageID (rel_Metadata (rel_Request result)),
           IdempotencyKey = IdempotencyKey (rel_Metadata (rel_Request result)) @ '':'' @ rel_Decision result,
           OccurredAt = t, SchemaVersion = 1, RetryCount = 0\<rparr>"
    unfolding p result_publishing_def Publishing.simps
    using m by (intro required_result_headers) (simp_all add: assms uuidPattern_not_blank solid)
  have body: "pub_Body p = body" by (simp add: p result_publishing_def)
  from kind show ?thesis
  proof cases
    case released
    with json_Marshal_read_back [OF load(2)] headers show ?thesis
      by (simp add: reservationReleasedPayload_def body)
  next
    case failed
    with json_Marshal_read_back [OF load(2)] headers show ?thesis
      by (simp add: reservationReleaseFailedPayload_def body to_valid_ascii)
  qed
qed

section \<open>Forwarded deliveries\<close>

lemma scast_ucast_small:
  fixes n :: go_int
  assumes "0 \<le> sint n" and "sint n < 2147483648"
  shows "scast (ucast n :: go_int32) = n"
proof -
  have u: "uint n = sint n" using assms by (simp add: uint_sint take_bit_int_eq_self)
  have e: "(ucast n :: go_int32) = word_of_int (sint n)" by (simp only: ucast_eq u)
  have "sint (word_of_int i :: go_int32) = i" if "0 \<le> i" "i < 2147483648" for i
    using that by (simp add: signed_of_int signed_take_bit_int_eq_self)
  from this [OF assms] have s: "sint (ucast n :: go_int32) = sint n" by (simp only: e)
  have "scast (ucast n :: go_int32) = (word_of_int (sint (ucast n :: go_int32)) :: go_int)" by (rule scast_eq)
  also have "\<dots> = n" unfolding s by simp
  finally show ?thesis .
qed


lemma decode_retry_header:
  assumes "decodeMessageMetadata h = Inr m"
    and "requiredIntegerHeader (fmupd ''retry_count'' v h) ''retry_count'' = Inr n"
  shows "decodeMessageMetadata (fmupd ''retry_count'' v h) =
    (if sint n < 0 then Inl (invalid_header ''retry_count'' ''must not be negative'')
     else Inr (m\<lparr>RetryCount := n\<rparr>))"
proof -
  let ?h = "fmupd ''retry_count'' v h"
  have "requiredStringHeader ?h name = requiredStringHeader h name"
    "requiredUUIDHeader ?h name = requiredUUIDHeader h name"
    "requiredIntegerHeader ?h name = requiredIntegerHeader h name"
    if "name \<noteq> ''retry_count''" for name
    using that by (simp_all add: requiredStringHeader_def requiredUUIDHeader_def requiredIntegerHeader_def)
  with assms show ?thesis
    by (auto simp: decodeMessageMetadata_def split: sum.splits option.splits if_splits)
qed

lemma decode_new_retry_count:
  assumes "decodeMessageMetadata h = Inr m"
  shows "decodeMessageMetadata (fmupd ''retry_count'' (HInt32 n) h) =
    (if sint (scast n :: go_int) < 0 then Inl (invalid_header ''retry_count'' ''must not be negative'')
     else Inr (m\<lparr>RetryCount := scast n\<rparr>))"
  by (rule decode_retry_header [OF assms]) (simp add: requiredIntegerHeader_def)



text \<open>
  Outside that range the forwarded copy is refused: a count of 2147483648 is
  written as a negative 32-bit header, and decoding the copy fails although decoding the
  original, whose retry count came in a 64-bit header, succeeds.
\<close>

lemma forwarded_count_truncated:
  assumes "decodeMessageMetadata (del_Headers delivery) = Inr m"
  shows "\<exists>e. decodeMessageMetadata (pub_Headers (newForwardedDelivery delivery 2147483648)) = Inl e \<and>
    errors_Is e ErrInvalidMessage"
  using decode_new_retry_count [OF assms, of "ucast (2147483648 :: go_int)"]
  by (simp add: newForwardedDelivery_def invalid_header_def)

theorem forwarded_count_truncated_witness:
  "\<exists>e. decodeMessageMetadata (pub_Headers (newForwardedDelivery
      \<lparr>del_Headers = sample_headers, del_ContentType = [], del_CorrelationId = [], del_MessageId = [],
       del_Timestamp = zero_time, del_DeliveryTag = 1, del_Body = []\<rparr> 2147483648)) = Inl e"
  using forwarded_count_truncated [of "\<lparr>del_Headers = sample_headers, del_ContentType = [],
      del_CorrelationId = [], del_MessageId = [], del_Timestamp = zero_time, del_DeliveryTag = 1,
      del_Body = []\<rparr>" sample_decoded_metadata]
  by (auto simp: sample_headers_decode)


section \<open>Concrete results\<close>

definition epoch :: go_time where
  "epoch = \<lparr>unix_nanos = 0, zone_offset = 0\<rparr>"

definition confirmed_sample :: ReservationResult where
  "confirmed_sample = \<lparr>Decision = ''confirmed'', IdempotencyHit = False,
     Request = \<lparr>req_Metadata = sample_decoded_metadata, ReservationID = ''res-1'', OrderID = ''order-1'',
                req_SKU = ''sku-1'', req_Quantity = 4\<rparr>,
     result_Reservation = \<lparr>ID = ''res-1'', res_SKU = ''sku-1'', Quantity = 4, Status = ''active'',
                CreatedAt = epoch, ReleasedAt = None\<rparr>, RejectionReason = ''''\<rparr>"

definition released_sample :: ReservationReleaseResult where
  "released_sample = \<lparr>rel_Decision = ''released'', FailureReason = '''', rel_IdempotencyHit = False,
     rel_Request = \<lparr>rel_Metadata = sample_decoded_metadata, rel_ReservationID = ''res-1'', Reason = ''''\<rparr>,
     rel_Reservation = \<lparr>ID = ''res-1'', res_SKU = ''sku-1'', Quantity = 4, Status = ''released'',
                CreatedAt = epoch, ReleasedAt = Some epoch\<rparr>\<rparr>"

lemma epoch_year: "year_of_time epoch = 1970"
  by (simp add: year_of_time_def epoch_def unix_epoch_day_def civil_from_days_def year_of_def
      days_before_year_def Let_def split: prod.splits)

lemma confirmed_sample_message: "\<exists>p. newReservationResultMessage confirmed_sample sample_uuid epoch =
    Inr (ReservationConfirmedRoutingKey, p)"
  by (simp add: newReservationResultMessage_def reservationResultPayload_def reservationConfirmedPayload_def
      json_Marshal_def confirmed_sample_def time_marshals_def epoch_year)
    (simp add: epoch_def)

lemma released_sample_message: "\<exists>p. newReservationReleaseResultMessage released_sample sample_uuid epoch =
    Inr (ReservationReleasedRoutingKey, p)"
  by (simp add: newReservationReleaseResultMessage_def reservationReleaseResultPayload_def
      reservationReleasedPayload_def json_Marshal_def released_sample_def time_marshals_def epoch_year)
    (simp add: epoch_def)

theorem reservation_result_message_witness:
  "\<exists>p m. newReservationResultMessage confirmed_sample sample_uuid epoch =
      Inr (ReservationConfirmedRoutingKey, p) \<and>
    decodeMessageMetadata (pub_Headers p) = Inr m \<and> IdempotencyKey m = ''key-1:confirmed'' \<and>
    (\<exists>fs. decode_next (tokenise (pub_Body p)) = Decoded (JObject fs) [])"
proof -
  from confirmed_sample_message obtain p where
    p: "newReservationResultMessage confirmed_sample sample_uuid epoch = Inr (ReservationConfirmedRoutingKey, p)"
    by blast
  have "decodeMessageMetadata sample_headers = Inr (req_Metadata (Request confirmed_sample))"
    by (simp add: sample_headers_decode confirmed_sample_def)
  from reservation_result_message [OF this _ _ _ _ p] show ?thesis
    using p by (auto simp: sample_uuid_ok epoch_year)
      (simp_all add: epoch_def confirmed_sample_def sample_decoded_metadata_def)
qed

theorem release_result_message_witness:
  "\<exists>p m. newReservationReleaseResultMessage released_sample sample_uuid epoch =
      Inr (ReservationReleasedRoutingKey, p) \<and>
    decodeMessageMetadata (pub_Headers p) = Inr m \<and> IdempotencyKey m = ''key-1:released'' \<and>
    (\<exists>fs. decode_next (tokenise (pub_Body p)) = Decoded (JObject fs) [])"
proof -
  from released_sample_message obtain p where
    p: "newReservationReleaseResultMessage released_sample sample_uuid epoch = Inr (ReservationReleasedRoutingKey, p)"
    by blast
  have "decodeMessageMetadata sample_headers = Inr (rel_Metadata (rel_Request released_sample))"
    by (simp add: sample_headers_decode released_sample_def)
  from release_result_message [OF this _ _ _ _ p] show ?thesis
    using p by (auto simp: sample_uuid_ok epoch_year)
      (simp_all add: epoch_def released_sample_def sample_decoded_metadata_def)
qed

end
