(* ===== verification/Publish_Contract.thy ===== *)
theory Publish_Contract
  imports Message_Publish
begin

text \<open>
  The contract of the Go interface \<open>ReservationResultPublisher\<close> (consumer.go): what a method
  leaves in the history. It only publishes and waits, it settles no delivery, and it reports
  success only after a confirmed publication of the message it stands for. The publisher of
  publisher.go meets it whatever the AMQP client does, and so does the publisher that simulates
  failures around any publisher that meets it.
\<close>

fun publish_event :: "amqp_event \<Rightarrow> bool" where
  "publish_event (Published c exchange key p err) \<longleftrightarrow> c = PublisherClient"
| "publish_event (Awaited c ev) \<longleftrightarrow> c = PublisherClient"
| "publish_event _ \<longleftrightarrow> False"

text \<open>A publication that was accepted by the channel and positively confirmed.\<close>

definition confirmed :: "string \<Rightarrow> string \<Rightarrow> Publishing \<Rightarrow> amqp_event list \<Rightarrow> bool" where
  "confirmed exchange key p evs \<longleftrightarrow> (\<exists>pre post tag. evs = pre @
     [Published PublisherClient exchange key p None, Awaited PublisherClient (Confirmation tag True)] @ post)"

text \<open>The events of one call: nothing but publications of \<open>what\<close> is wanted, one of them confirmed
  if the call reports success.\<close>

definition publication ::
  "(string \<Rightarrow> string \<Rightarrow> Publishing \<Rightarrow> bool) \<Rightarrow> go_error option \<Rightarrow> amqp_event list \<Rightarrow> bool" where
  "publication what err evs \<longleftrightarrow> list_all publish_event evs \<and>
     (\<forall>exchange key p e. Published PublisherClient exchange key p e \<in> set evs \<longrightarrow> what exchange key p) \<and>
     (err = None \<longrightarrow> (\<exists>exchange key p. confirmed exchange key p evs))"

definition publishes :: "(string \<Rightarrow> string \<Rightarrow> Publishing \<Rightarrow> bool) \<Rightarrow> 'b step \<Rightarrow> bool" where
  "publishes what publish \<longleftrightarrow> (\<forall>w err w'. publish w = (err, w') \<longrightarrow>
     (\<exists>evs. history w' = history w @ evs \<and> publication what err evs))"

definition reservation_answer :: "ReservationResult \<Rightarrow> string \<Rightarrow> string \<Rightarrow> Publishing \<Rightarrow> bool" where
  "reservation_answer result exchange key p \<longleftrightarrow> exchange = InventoryExchangeName \<and>
     (\<exists>messageID occurredAt. newReservationResultMessage result messageID occurredAt = Inr (key, p))"

definition release_answer :: "ReservationReleaseResult \<Rightarrow> string \<Rightarrow> string \<Rightarrow> Publishing \<Rightarrow> bool" where
  "release_answer result exchange key p \<longleftrightarrow> exchange = InventoryExchangeName \<and>
     (\<exists>messageID occurredAt. newReservationReleaseResultMessage result messageID occurredAt = Inr (key, p))"

definition forwarded_copy ::
  "string \<Rightarrow> Delivery \<Rightarrow> string \<Rightarrow> go_int \<Rightarrow> string \<Rightarrow> string \<Rightarrow> Publishing \<Rightarrow> bool" where
  "forwarded_copy target delivery routingKey n exchange key p \<longleftrightarrow>
     exchange = target \<and> key = routingKey \<and> p = newForwardedDelivery delivery n"

section \<open>Building blocks\<close>

lemma confirmed_append: "confirmed exchange key p evs \<Longrightarrow> confirmed exchange key p (pre @ evs @ post)"
  unfolding confirmed_def by (metis append.assoc)

lemma confirmed_Published:
  "confirmed exchange key p evs \<Longrightarrow> Published PublisherClient exchange key p None \<in> set evs"
  by (auto simp: confirmed_def)

lemma publicationD:
  "publication what err evs \<Longrightarrow> Published PublisherClient exchange key p e \<in> set evs \<Longrightarrow> what exchange key p"
  unfolding publication_def by blast

lemma publication_confirmed:
  "publication what None evs \<Longrightarrow> \<exists>exchange key p. what exchange key p \<and> confirmed exchange key p evs"
  unfolding publication_def by (meson confirmed_Published)

lemma publication_append:
  assumes "publication what None evs" and "publication what err evs'"
  shows "publication what err (evs @ evs')"
proof -
  from assms have "confirmed exchange key p (evs @ evs')" if "confirmed exchange key p evs'" for exchange key p
    using confirmed_append [OF that, of evs "[]"] by simp
  with assms show ?thesis unfolding publication_def
    by (simp only: list_all_append set_append Un_iff) blast
qed

lemma publishesD:
  assumes "publishes what publish" and "publish w = (err, w')"
  obtains evs where "history w' = history w @ evs" "publication what err evs"
  using assms unfolding publishes_def by blast

lemma publishes_publishWithConfirmation:
  assumes "what exchange key p"
  shows "publishes what (publishWithConfirmation ops ctx exchange key p)"
  unfolding publishes_def
proof (intro allI impI)
  fix w err w'
  assume run: "publishWithConfirmation ops ctx exchange key p w = (err, w')"
  obtain e w1 where pub: "perform (amqp_Publish ops PublisherClient ctx exchange key p)
      (Published PublisherClient exchange key p) w = (e, w1)" by fastforce
  note h1 = perform_history [OF pub]
  show "\<exists>evs. history w' = history w @ evs \<and> publication what err evs"
  proof (cases e)
    case (Some _)
    with run pub h1 show ?thesis using assms
      by (intro exI [of _ "[Published PublisherClient exchange key p e]"])
        (auto simp: publishWithConfirmation_def publication_def)
  next
    case None
    obtain ev w2 where await: "perform (amqp_Confirmation ops PublisherClient ctx)
        (Awaited PublisherClient) w1 = (ev, w2)"
      by fastforce
    from perform_history [OF await] h1 None
    have h2: "history w2 = history w @ [Published PublisherClient exchange key p None, Awaited PublisherClient ev]"
      by simp
    have "confirmed exchange key p [Published PublisherClient exchange key p None,
        Awaited PublisherClient (Confirmation tag True)]" for tag
      unfolding confirmed_def by (metis append.right_neutral append_Nil)
    with run pub await None h2 show ?thesis using assms
      by (intro exI [of _ "[Published PublisherClient exchange key p None, Awaited PublisherClient ev]"])
        (auto simp: publishWithConfirmation_def publication_def split: confirmation_event.splits if_splits)
  qed
qed

lemma publishes_observe:
  assumes "\<And>x. publishes what (f x)"
  shows "publishes what (\<lambda>w. case observe g w of (x, w') \<Rightarrow> f x w')"
  unfolding publishes_def
proof (intro allI impI)
  fix w err w'
  assume "(case observe g w of (x, w') \<Rightarrow> f x w') = (err, w')"
  then obtain x w1 where "observe g w = (x, w1)" "f x w1 = (err, w')" by (auto split: prod.splits)
  with assms [of x] show "\<exists>evs. history w' = history w @ evs \<and> publication what err evs"
    by (metis publishesD observe_history)
qed

lemma publishes_failed: "publishes what (Pair (Some err))"
  by (simp add: publishes_def publication_def)

lemma publishes_message:
  assumes "\<And>key p. r = Inr (key, p) \<Longrightarrow> publishes what (f key p)"
  shows "publishes what (\<lambda>w. case r of Inl err \<Rightarrow> (Some err, w) | Inr (key, p) \<Rightarrow> f key p w)"
  using assms publishes_failed by (cases r) auto

lemma publishes_result_message:
  assumes "\<And>messageID t key p. message messageID t = Inr (key, p) \<Longrightarrow> what InventoryExchangeName key p"
  shows "publishes what (\<lambda>w. let (read, w1) = observe (rand_Read ops) w in
      case newUUID read of
        Inl err \<Rightarrow> (Some (Wrapf fs err []), w1)
      | Inr messageID \<Rightarrow>
          (let (now, w2) = observe (time_Now ops) w1 in
           case message messageID (UTC now) of
             Inl err \<Rightarrow> (Some err, w2)
           | Inr (key, p) \<Rightarrow> publishWithConfirmation ops ctx InventoryExchangeName key p w2))"
  unfolding Let_def
proof (rule publishes_observe)
  fix read
  show "publishes what (\<lambda>w1. case newUUID read of
        Inl err \<Rightarrow> (Some (Wrapf fs err []), w1)
      | Inr messageID \<Rightarrow>
          (case observe (time_Now ops) w1 of (now, w2) \<Rightarrow>
           case message messageID (UTC now) of
             Inl err \<Rightarrow> (Some err, w2)
           | Inr (key, p) \<Rightarrow> publishWithConfirmation ops ctx InventoryExchangeName key p w2))"
  proof (cases "newUUID read")
    case (Inl e)
    then show ?thesis using publishes_failed by simp
  next
    case (Inr u)
    then show ?thesis
      by simp (intro publishes_observe publishes_message publishes_publishWithConfirmation assms)
  qed
qed

section \<open>The contract\<close>

locale result_publisher =
  fixes publisher :: "'b world ReservationResultPublisher"
  assumes publishes_result: "publishes (reservation_answer result) (PublishReservationResult publisher ctx result)"
    and publishes_release: "publishes (release_answer result') (PublishReservationReleaseResult publisher ctx result')"
    and publishes_retry: "publishes (forwarded_copy InventoryRetryExchangeName delivery key n)
      (PublishRetry publisher ctx delivery key n)"
    and publishes_dead_letter: "publishes (forwarded_copy InventoryDeadLetterExchangeName delivery key n)
      (PublishDeadLetter publisher ctx delivery key n)"

interpretation amqp_publisher: result_publisher "Publisher ops" for ops
proof
  fix ctx result result' delivery key n
  show "publishes (reservation_answer result) (PublishReservationResult (Publisher ops) ctx result)"
    unfolding Publisher_def Publisher_PublishReservationResult_def [abs_def] ReservationResultPublisher.simps
    by (rule publishes_result_message) (auto simp: reservation_answer_def)
  show "publishes (release_answer result') (PublishReservationReleaseResult (Publisher ops) ctx result')"
    unfolding Publisher_def Publisher_PublishReservationReleaseResult_def [abs_def] ReservationResultPublisher.simps
    by (rule publishes_result_message) (auto simp: release_answer_def)
  show "publishes (forwarded_copy InventoryRetryExchangeName delivery key n)
      (PublishRetry (Publisher ops) ctx delivery key n)"
    by (simp add: Publisher_def Publisher_PublishRetry_def [abs_def] publishes_publishWithConfirmation
        forwarded_copy_def)
  show "publishes (forwarded_copy InventoryDeadLetterExchangeName delivery key n)
      (PublishDeadLetter (Publisher ops) ctx delivery key n)"
    by (simp add: Publisher_def Publisher_PublishDeadLetter_def [abs_def] publishes_publishWithConfirmation
        forwarded_copy_def)
qed

text \<open>Simulated failures keep the contract: a suppressed publication is an error, a duplicate
  publishes twice.\<close>

lemma publishes_twice:
  assumes "publishes what publish"
  shows "publishes what (and_then publish (wrapping fs publish))"
  unfolding publishes_def
proof (intro allI impI)
  fix w err w'
  assume run: "and_then publish (wrapping fs publish) w = (err, w')"
  obtain e1 w1 where one: "publish w = (e1, w1)" by fastforce
  obtain evs1 where evs1: "history w1 = history w @ evs1" "publication what e1 evs1"
    by (rule publishesD [OF assms one])
  show "\<exists>evs. history w' = history w @ evs \<and> publication what err evs"
  proof (cases e1)
    case (Some _)
    with run one evs1 show ?thesis by (auto simp: and_then_def)
  next
    case None
    obtain e2 where two: "publish w1 = (e2, w')" and e2: "err = None \<longleftrightarrow> e2 = None"
      using run one None by (auto simp: and_then_def wrapping_def split: prod.splits option.splits)
    obtain evs2 where evs2: "history w' = history w1 @ evs2" "publication what e2 evs2"
      by (rule publishesD [OF assms two])
    from evs2(2) e2 have "publication what err evs2" by (simp add: publication_def)
    with evs1 evs2(1) None show ?thesis by (auto intro!: publication_append)
  qed
qed

lemma publishResult_eq: "publishResult modes publish =
    (if Mode (FailureModeController_Get modes) = FailureModePublishFailure
     then Pair (Some (Sentinel ErrSimulatedPublishFailure))
     else if Mode (FailureModeController_Get modes) = FailureModeDuplicateResponse
     then and_then publish (wrapping [Lit ''publish duplicate result: ''] publish)
     else publish)"
  by (auto simp: publishResult_def and_then_def wrapping_def fun_eq_iff split: prod.splits option.splits)

lemma publishes_publishResult: "publishes what publish \<Longrightarrow> publishes what (publishResult modes publish)"
  by (simp add: publishResult_eq publishes_failed publishes_twice)

locale simulated_publisher = result_publisher publisher
  for publisher :: "'b world ReservationResultPublisher" +
  fixes modes :: FailureModeController

sublocale simulated_publisher \<subseteq> simulated: result_publisher "FailureSimulationPublisher publisher modes"
  by standard (simp_all add: FailureSimulationPublisher_def publishes_publishResult
      publishes_result publishes_release publishes_retry publishes_dead_letter)

interpretation wired_publisher: simulated_publisher "Publisher ops" modes for ops modes ..

section \<open>Late confirmations\<close>

text \<open>
  A channel as the AMQP client documents it: publications are numbered from 1, every one of
  them is confirmed or refused once, and the notifications arrive in the order in which they
  are put into the Go channel. Here the notification of a publication in \<open>slow\<close> arrives only
  after a wait for it has timed out; \<open>refused\<close> says which publications the broker refuses.
\<close>

record confirm_channel =
  published :: nat
  arrived :: "confirmation_event list"
  delayed :: "confirmation_event list"

definition channel_Publish :: "nat set \<Rightarrow> nat set \<Rightarrow> confirm_channel \<Rightarrow> go_error option \<times> confirm_channel" where
  "channel_Publish slow refused b =
     (let tag = Suc (published b); ev = Confirmation tag (tag \<notin> refused) in
      (None, if tag \<in> slow then b\<lparr>published := tag, delayed := delayed b @ [ev]\<rparr>
             else b\<lparr>published := tag, arrived := arrived b @ [ev]\<rparr>))"

definition channel_Confirmation :: "confirm_channel \<Rightarrow> confirmation_event \<times> confirm_channel" where
  "channel_Confirmation b =
     (case arrived b of
        [] \<Rightarrow> (PublishContextDone (Sentinel ContextDeadlineExceeded),
               b\<lparr>arrived := delayed b, delayed := []\<rparr>)
      | ev # evs \<Rightarrow> (ev, b\<lparr>arrived := evs\<rparr>))"

definition new_channel :: "confirm_channel world" where
  "new_channel = \<lparr>outside = \<lparr>published = 0, arrived = [], delayed = []\<rparr>, history = []\<rparr>"

text \<open>
  Property C36. A confirmation that arrives after its wait has timed out is taken for the
  confirmation of the next publication. The first publication times out and is reported as
  failed, although the broker confirms it; its late confirmation has tag 1. The broker then
  refuses the second publication, and the publisher reports it as published, for any two
  messages: the tag is not compared.
\<close>

theorem late_confirmation_misattributed:
  fixes ops :: "confirm_channel world_ops"
  assumes "\<And>c ctx exchange key p. amqp_Publish ops c ctx exchange key p = channel_Publish {1} {2}"
    and "\<And>c ctx. amqp_Confirmation ops c ctx = channel_Confirmation"
  shows "\<exists>e w. publishWithConfirmation ops ctx exchange key p new_channel = (Some e, w) \<and>
    errors_Is e ContextDeadlineExceeded \<and> arrived (outside w) = [Confirmation 1 True] \<and>
    (\<exists>w'. publishWithConfirmation ops ctx' exchange' key' p' w = (None, w') \<and>
       arrived (outside w') = [Confirmation 2 False])"
  using assms
  by (simp add: publishWithConfirmation_def perform_def channel_Publish_def channel_Confirmation_def
      new_channel_def)

definition channel_ops :: "confirm_channel world_ops" where
  "channel_ops =
     \<lparr>rand_Read = (\<lambda>b. (Inr (replicate 16 0), b)), time_Now = (\<lambda>b. (zero_time, b)),
      time_Since = (\<lambda>_ b. (0, b)), amqp_Call = (\<lambda>_ _ b. (None, b)),
      amqp_Publish = (\<lambda>_ _ _ _ _. channel_Publish {1} {2}),
      amqp_Confirmation = (\<lambda>_ _. channel_Confirmation),
      amqp_Ack = (\<lambda>_ _ b. (None, b)), amqp_Nack = (\<lambda>_ _ _ b. (None, b)),
      amqp_Get = (\<lambda>_ _ b. (Inr None, b)), amqp_Messages = (\<lambda>_ _ _ b. (Inr 0, b))\<rparr>"

definition sample_delivery :: Delivery where
  "sample_delivery = \<lparr>del_Headers = sample_headers, del_ContentType = ''application/json'',
     del_CorrelationId = sample_uuid, del_MessageId = sample_uuid, del_Timestamp = zero_time,
     del_DeliveryTag = 1, del_Body = sample_body\<rparr>"

theorem late_confirmation_misattributed_witness:
  "\<exists>e w w'. publishWithConfirmation channel_ops Background InventoryRetryExchangeName ''a''
        (newForwardedDelivery sample_delivery 1) new_channel = (Some e, w) \<and>
     publishWithConfirmation channel_ops Background InventoryRetryExchangeName ''b''
        (newForwardedDelivery sample_delivery 2) w = (None, w') \<and>
     arrived (outside w') = [Confirmation 2 False]"
  using late_confirmation_misattributed [of channel_ops Background InventoryRetryExchangeName "''a''"
      "newForwardedDelivery sample_delivery 1" Background InventoryRetryExchangeName "''b''"
      "newForwardedDelivery sample_delivery 2"]
  by (auto simp: channel_ops_def)

end
