(* ===== verification/Consumer.thy ===== *)
theory Consumer
  imports Publish_Contract
begin

text \<open>
  The consumer of reservation and release requests (internal/messaging/rabbitmq/consumer.go):
  its names, the declaration of the topology, the handling of a delivery from decoding to its
  settlement, retries and dead letters, and the select loop. The handlers and the publisher are
  arguments; the state is the triple of the handlers' state, the metrics' state and the world.
  Log calls are left out.
\<close>

section \<open>Names\<close>

abbreviation ReservationReleaseRequestedDeadLetterQueueName :: string where
  "ReservationReleaseRequestedDeadLetterQueueName \<equiv>
     ''stockflow.erp-mock.inventory.reservation.release.requested.v1.dlq''"
abbreviation ReservationReleaseRequestedQueueName :: string where
  "ReservationReleaseRequestedQueueName \<equiv> ''stockflow.erp-mock.inventory.reservation.release.requested.v1''"
abbreviation ReservationReleaseRequestedRetryQueueName :: string where
  "ReservationReleaseRequestedRetryQueueName \<equiv>
     ''stockflow.erp-mock.inventory.reservation.release.requested.v1.retry''"
abbreviation ReservationReleaseRequestedRoutingKey :: string where
  "ReservationReleaseRequestedRoutingKey \<equiv> ''inventory.reservation.release.requested.v1''"
abbreviation ReservationRequestedDeadLetterQueueName :: string where
  "ReservationRequestedDeadLetterQueueName \<equiv> ''stockflow.erp-mock.inventory.reservation.requested.v1.dlq''"
abbreviation ReservationRequestedQueueName :: string where
  "ReservationRequestedQueueName \<equiv> ''stockflow.erp-mock.inventory.reservation.requested.v1''"
abbreviation ReservationRequestedRetryQueueName :: string where
  "ReservationRequestedRetryQueueName \<equiv> ''stockflow.erp-mock.inventory.reservation.requested.v1.retry''"
abbreviation ReservationRequestedRoutingKey :: string where
  "ReservationRequestedRoutingKey \<equiv> ''inventory.reservation.requested.v1''"

section \<open>Metrics\<close>

record 'm ConsumerMetrics =
  ObserveProcessed :: "string \<Rightarrow> string \<Rightarrow> duration \<Rightarrow> 'm \<Rightarrow> 'm"
  IncrementFailed :: "string \<Rightarrow> string \<Rightarrow> 'm \<Rightarrow> 'm"
  IncrementRejectedReservation :: "'m \<Rightarrow> 'm"
  IncrementConfirmedReservation :: "'m \<Rightarrow> 'm"
  IncrementReleasedReservation :: "'m \<Rightarrow> 'm"
  IncrementIdempotencyHit :: "'m \<Rightarrow> 'm"

definition noopConsumerMetrics :: "'m ConsumerMetrics" where
  "noopConsumerMetrics =
     \<lparr>ObserveProcessed = (\<lambda>_ _ _ m. m), IncrementFailed = (\<lambda>_ _ m. m),
      IncrementRejectedReservation = (\<lambda>m. m), IncrementConfirmedReservation = (\<lambda>m. m),
      IncrementReleasedReservation = (\<lambda>m. m), IncrementIdempotencyHit = (\<lambda>m. m)\<rparr>"

section \<open>The consumer\<close>

record ConsumerConfig =
  con_URL :: string
  con_ConsumerTag :: string
  con_MaxRetryCount :: go_int
  con_PrefetchCount :: go_int
  con_RetryDelay :: duration

record 'm Consumer =
  consumerTag :: string
  maxRetryCount :: go_int
  metrics :: "'m ConsumerMetrics option"

definition SetMetrics :: "'m ConsumerMetrics \<Rightarrow> 'm Consumer \<Rightarrow> 'm Consumer" where
  "SetMetrics ms c = c\<lparr>metrics := Some ms\<rparr>"

definition consumerMetrics :: "'m Consumer \<Rightarrow> 'm ConsumerMetrics" where
  "consumerMetrics c = (case metrics c of None \<Rightarrow> noopConsumerMetrics | Some ms \<Rightarrow> ms)"

text \<open>\<open>Duration.Milliseconds\<close> divides towards zero.\<close>

definition Milliseconds :: "duration \<Rightarrow> go_int" where
  "Milliseconds d = word_of_int (sgn (sint d) * (\<bar>sint d\<bar> div 1000000))"

definition declareRequestTopology ::
  "'b world_ops \<Rightarrow> string \<Rightarrow> string \<Rightarrow> string \<Rightarrow> string \<Rightarrow> duration \<Rightarrow> 'b step" where
  "declareRequestTopology ops queueName retryQueueName deadLetterQueueName routingKey retryDelay =
     in_order
       [wrapping [Lit ''declare queue '', Quoted queueName, Lit '': '']
          (call_amqp ops ConsumerClient (DeclareQueue queueName True (fmap_of_list
             [(''x-dead-letter-exchange'', HString InventoryDeadLetterExchangeName),
              (''x-dead-letter-routing-key'', HString routingKey)]))),
        wrapping [Lit ''bind queue '', Quoted queueName, Lit '': '']
          (call_amqp ops ConsumerClient (BindQueue queueName routingKey InventoryExchangeName)),
        wrapping [Lit ''declare retry queue '', Quoted retryQueueName, Lit '': '']
          (call_amqp ops ConsumerClient (DeclareQueue retryQueueName True (fmap_of_list
             [(''x-dead-letter-exchange'', HString InventoryExchangeName),
              (''x-dead-letter-routing-key'', HString routingKey),
              (''x-message-ttl'', HInt64 (Milliseconds retryDelay))]))),
        wrapping [Lit ''bind retry queue '', Quoted retryQueueName, Lit '': '']
          (call_amqp ops ConsumerClient (BindQueue retryQueueName routingKey InventoryRetryExchangeName)),
        wrapping [Lit ''declare dead-letter queue '', Quoted deadLetterQueueName, Lit '': '']
          (call_amqp ops ConsumerClient (DeclareQueue deadLetterQueueName True fmempty)),
        wrapping [Lit ''bind dead-letter queue '', Quoted deadLetterQueueName, Lit '': '']
          (call_amqp ops ConsumerClient
             (BindQueue deadLetterQueueName routingKey InventoryDeadLetterExchangeName))]"

definition Consumer_declareTopology :: "'b world_ops \<Rightarrow> go_int \<Rightarrow> duration \<Rightarrow> 'b step" where
  "Consumer_declareTopology ops prefetchCount retryDelay =
     in_order
       [wrapping [Lit ''declare inventory exchange: '']
          (call_amqp ops ConsumerClient (DeclareExchange InventoryExchangeName ''topic'' True)),
        wrapping [Lit ''declare inventory retry exchange: '']
          (call_amqp ops ConsumerClient (DeclareExchange InventoryRetryExchangeName ''topic'' True)),
        wrapping [Lit ''declare inventory dead-letter exchange: '']
          (call_amqp ops ConsumerClient (DeclareExchange InventoryDeadLetterExchangeName ''topic'' True)),
        wrapping [Lit ''declare reservation requested topology: '']
          (declareRequestTopology ops ReservationRequestedQueueName ReservationRequestedRetryQueueName
             ReservationRequestedDeadLetterQueueName ReservationRequestedRoutingKey retryDelay),
        wrapping [Lit ''declare reservation release requested topology: '']
          (declareRequestTopology ops ReservationReleaseRequestedQueueName
             ReservationReleaseRequestedRetryQueueName ReservationReleaseRequestedDeadLetterQueueName
             ReservationReleaseRequestedRoutingKey retryDelay),
        wrapping [Lit ''configure RabbitMQ prefetch: '']
          (call_amqp ops ConsumerClient (SetQos prefetchCount))]"

section \<open>Handling a delivery\<close>

definition isPermanentHandlerError :: "go_error \<Rightarrow> bool" where
  "isPermanentHandlerError err \<longleftrightarrow>
     errors_Is err ErrInvalidArgument \<or> errors_Is err ErrReservationAlreadyExists \<or>
     errors_Is err ErrIdempotencyConflict"

definition nack :: "'b world_ops \<Rightarrow> Delivery \<Rightarrow> bool \<Rightarrow> 'b step" where
  "nack ops delivery requeue =
     wrapping [Lit ''nack RabbitMQ delivery: '']
       (perform (amqp_Nack ops ConsumerClient (del_DeliveryTag delivery) requeue)
          (Nacked ConsumerClient (del_DeliveryTag delivery) requeue))"

definition ack :: "'b world_ops \<Rightarrow> Delivery \<Rightarrow> 'b step" where
  "ack ops delivery =
     wrapping [Lit ''ack RabbitMQ delivery: '']
       (perform (amqp_Ack ops ConsumerClient (del_DeliveryTag delivery))
          (Acked ConsumerClient (del_DeliveryTag delivery)))"

definition retryOrDeadLetter ::
  "'b world_ops \<Rightarrow> 'm Consumer \<Rightarrow> go_context \<Rightarrow> Delivery \<Rightarrow> string \<Rightarrow> go_int \<Rightarrow>
   'b world ReservationResultPublisher \<Rightarrow> 'b step" where
  "retryOrDeadLetter ops c ctx delivery routingKey retryCount publisher w =
     (let nextRetryCount = retryCount + 1 in
      if sint (maxRetryCount c) < sint nextRetryCount
      then (case PublishDeadLetter publisher ctx delivery routingKey retryCount w of
              (Some err, w') \<Rightarrow> nack ops delivery True w'
            | (None, w') \<Rightarrow> ack ops delivery w')
      else (case PublishRetry publisher ctx delivery routingKey nextRetryCount w of
              (Some err, w') \<Rightarrow> nack ops delivery True w'
            | (None, w') \<Rightarrow> ack ops delivery w'))"

definition observeFailure ::
  "'b world_ops \<Rightarrow> 'm Consumer \<Rightarrow> string \<Rightarrow> string \<Rightarrow> go_time \<Rightarrow> 'm \<times> 'b world \<Rightarrow> 'm \<times> 'b world" where
  "observeFailure ops c messageType reason startedAt = (\<lambda>(m, w).
     let m = IncrementFailed (consumerMetrics c) messageType reason m;
         (elapsed, w) = observe (time_Since ops startedAt) w
     in (ObserveProcessed (consumerMetrics c) messageType ''failed'' elapsed m, w))"

type_synonym ('h, 'm, 'b) consumer_state = "'h \<times> 'm \<times> 'b world"

definition handleDelivery ::
  "'b world_ops \<Rightarrow> 'm Consumer \<Rightarrow> go_context \<Rightarrow> Delivery \<Rightarrow>
   (go_context \<Rightarrow> ReservationRequest \<Rightarrow> (ReservationResult, 'h) op) \<Rightarrow>
   'b world ReservationResultPublisher \<Rightarrow> ('h, 'm, 'b) consumer_state \<Rightarrow>
   go_error option \<times> ('h, 'm, 'b) consumer_state" where
  "handleDelivery ops c ctx delivery handler publisher = (\<lambda>(h, m, w).
     let (startedAt, w) = observe (time_Now ops) w in
     case decodeReservationRequested delivery of
       Inl err \<Rightarrow>
         (let (m, w) = observeFailure ops c ReservationRequestedRoutingKey ''invalid_message'' startedAt (m, w);
              (e, w) = nack ops delivery False w
          in (e, (h, m, w)))
     | Inr request \<Rightarrow>
         (case handler ctx request h of
            (Inl err, h) \<Rightarrow>
              (let (m, w) = observeFailure ops c ReservationRequestedRoutingKey ''handler_error'' startedAt (m, w);
                   (e, w) = (if isPermanentHandlerError err then nack ops delivery False w
                             else retryOrDeadLetter ops c ctx delivery ReservationRequestedRoutingKey
                                    (RetryCount (req_Metadata request)) publisher w)
               in (e, (h, m, w)))
          | (Inr result, h) \<Rightarrow>
              (let m = (if IdempotencyHit result then IncrementIdempotencyHit (consumerMetrics c) m else m) in
               case PublishReservationResult publisher ctx result w of
                 (Some err, w) \<Rightarrow>
                   (let (m, w) = observeFailure ops c ReservationRequestedRoutingKey ''publisher_error''
                                   startedAt (m, w);
                        (e, w) = retryOrDeadLetter ops c ctx delivery ReservationRequestedRoutingKey
                                   (RetryCount (req_Metadata request)) publisher w
                    in (e, (h, m, w)))
               | (None, w) \<Rightarrow>
                   (let (elapsed, w) = observe (time_Since ops startedAt) w;
                        m = ObserveProcessed (consumerMetrics c) ReservationRequestedRoutingKey
                              (Decision result) elapsed m;
                        m = (if Decision result = ReservationDecisionConfirmed
                             then IncrementConfirmedReservation (consumerMetrics c) m
                             else if Decision result = ReservationDecisionRejected
                             then IncrementRejectedReservation (consumerMetrics c) m
                             else m);
                        (e, w) = ack ops delivery w
                    in (e, (h, m, w))))))"

definition handleReleaseDelivery ::
  "'b world_ops \<Rightarrow> 'm Consumer \<Rightarrow> go_context \<Rightarrow> Delivery \<Rightarrow>
   (go_context \<Rightarrow> ReservationReleaseRequest \<Rightarrow> (ReservationReleaseResult, 'h) op) \<Rightarrow>
   'b world ReservationResultPublisher \<Rightarrow> ('h, 'm, 'b) consumer_state \<Rightarrow>
   go_error option \<times> ('h, 'm, 'b) consumer_state" where
  "handleReleaseDelivery ops c ctx delivery handler publisher = (\<lambda>(h, m, w).
     let (startedAt, w) = observe (time_Now ops) w in
     case decodeReservationReleaseRequested delivery of
       Inl err \<Rightarrow>
         (let (m, w) = observeFailure ops c ReservationReleaseRequestedRoutingKey ''invalid_message''
                         startedAt (m, w);
              (e, w) = nack ops delivery False w
          in (e, (h, m, w)))
     | Inr request \<Rightarrow>
         (case handler ctx request h of
            (Inl err, h) \<Rightarrow>
              (let (m, w) = observeFailure ops c ReservationReleaseRequestedRoutingKey ''handler_error''
                              startedAt (m, w);
                   (e, w) = (if isPermanentHandlerError err then nack ops delivery False w
                             else retryOrDeadLetter ops c ctx delivery ReservationReleaseRequestedRoutingKey
                                    (RetryCount (rel_Metadata request)) publisher w)
               in (e, (h, m, w)))
          | (Inr result, h) \<Rightarrow>
              (let m = (if rel_IdempotencyHit result then IncrementIdempotencyHit (consumerMetrics c) m else m) in
               case PublishReservationReleaseResult publisher ctx result w of
                 (Some err, w) \<Rightarrow>
                   (let (m, w) = observeFailure ops c ReservationReleaseRequestedRoutingKey ''publisher_error''
                                   startedAt (m, w);
                        (e, w) = retryOrDeadLetter ops c ctx delivery ReservationReleaseRequestedRoutingKey
                                   (RetryCount (rel_Metadata request)) publisher w
                    in (e, (h, m, w)))
               | (None, w) \<Rightarrow>
                   (let (elapsed, w) = observe (time_Since ops startedAt) w;
                        m = ObserveProcessed (consumerMetrics c) ReservationReleaseRequestedRoutingKey
                              (rel_Decision result) elapsed m;
                        m = (if rel_Decision result = ReservationReleaseDecisionReleased
                             then IncrementReleasedReservation (consumerMetrics c) m
                             else m);
                        (e, w) = ack ops delivery w
                    in (e, (h, m, w))))))"

section \<open>The loop\<close>

text \<open>
  What one round of the select in \<open>Consume\<close> sees: the cancelled context, or a receive from one
  of the two delivery channels, which gives a delivery or finds the channel closed. With it
  come the surroundings \<open>'e\<close> of that moment (clock, random draw, failure mode), on which the
  handlers and the publisher depend, and the context's later answers. The loop ends only by
  itself; at the end of the given rounds it is \<open>Waiting\<close>.
\<close>

datatype 'e round =
    ContextDone
  | DeliveryReceived 'e go_context "Delivery option"
  | ReleaseReceived 'e go_context "Delivery option"

type_synonym ('e, 'h) reservation_handler =
  "'e \<Rightarrow> go_context \<Rightarrow> ReservationRequest \<Rightarrow> (ReservationResult, 'h) op"

type_synonym ('e, 'h) release_handler =
  "'e \<Rightarrow> go_context \<Rightarrow> ReservationReleaseRequest \<Rightarrow> (ReservationReleaseResult, 'h) op"

datatype consume_status = Waiting | Returned "go_error option"

definition cancel_consumer :: "'b world_ops \<Rightarrow> string \<Rightarrow> frag list \<Rightarrow> 'b step" where
  "cancel_consumer ops tag fs w =
     (case call_amqp ops ConsumerClient (CancelConsume tag) w of
        (Some err, w') \<Rightarrow> (if errors_Is err AmqpErrClosed then (None, w') else (Some (Wrapf fs err []), w'))
      | (None, w') \<Rightarrow> (None, w'))"

definition closed_result :: "go_context \<Rightarrow> string \<Rightarrow> go_error option" where
  "closed_result ctx message = (if ctx_Err ctx \<noteq> None then None else Some (Errorf [Lit message]))"

fun consume_loop ::
  "'b world_ops \<Rightarrow> 'm Consumer \<Rightarrow> ('e, 'h) reservation_handler \<Rightarrow> ('e, 'h) release_handler \<Rightarrow>
   ('e \<Rightarrow> 'b world ReservationResultPublisher) \<Rightarrow> 'e round list \<Rightarrow> ('h, 'm, 'b) consumer_state \<Rightarrow>
   consume_status \<times> ('h, 'm, 'b) consumer_state" where
  "consume_loop ops c handler releaseHandler publisher [] s = (Waiting, s)"
| "consume_loop ops c handler releaseHandler publisher (ContextDone # rounds) (h, m, w) =
     (let (e, w') = and_then
            (cancel_consumer ops (consumerTag c @ ''-reservation-requested'')
               [Lit ''cancel RabbitMQ reservation requested consumer: ''])
            (cancel_consumer ops (consumerTag c @ ''-reservation-release-requested'')
               [Lit ''cancel RabbitMQ reservation release requested consumer: '']) w
      in (Returned e, (h, m, w')))"
| "consume_loop ops c handler releaseHandler publisher (DeliveryReceived env ctx None # rounds) s =
     (Returned (closed_result ctx ''RabbitMQ deliveries channel closed''), s)"
| "consume_loop ops c handler releaseHandler publisher (DeliveryReceived env ctx (Some delivery) # rounds) s =
     (case handleDelivery ops c ctx delivery (handler env) (publisher env) s of
        (Some err, s') \<Rightarrow> (Returned (Some err), s')
      | (None, s') \<Rightarrow> consume_loop ops c handler releaseHandler publisher rounds s')"
| "consume_loop ops c handler releaseHandler publisher (ReleaseReceived env ctx None # rounds) s =
     (Returned (closed_result ctx ''RabbitMQ reservation release deliveries channel closed''), s)"
| "consume_loop ops c handler releaseHandler publisher (ReleaseReceived env ctx (Some delivery) # rounds) s =
     (case handleReleaseDelivery ops c ctx delivery (releaseHandler env) (publisher env) s of
        (Some err, s') \<Rightarrow> (Returned (Some err), s')
      | (None, s') \<Rightarrow> consume_loop ops c handler releaseHandler publisher rounds s')"

definition Consume ::
  "'b world_ops \<Rightarrow> 'm Consumer \<Rightarrow> ('e, 'h) reservation_handler \<Rightarrow> ('e, 'h) release_handler \<Rightarrow>
   ('e \<Rightarrow> 'b world ReservationResultPublisher) \<Rightarrow> 'e round list \<Rightarrow> ('h, 'm, 'b) consumer_state \<Rightarrow>
   consume_status \<times> ('h, 'm, 'b) consumer_state" where
  "Consume ops c handler releaseHandler publisher rounds = (\<lambda>(h, m, w).
     (case in_order
        [wrapping [Lit ''start RabbitMQ reservation requested consumer: '']
           (call_amqp ops ConsumerClient (StartConsume ReservationRequestedQueueName
              (consumerTag c @ ''-reservation-requested'') False)),
         wrapping [Lit ''start RabbitMQ reservation release requested consumer: '']
           (call_amqp ops ConsumerClient (StartConsume ReservationReleaseRequestedQueueName
              (consumerTag c @ ''-reservation-release-requested'') False))] w of
        (Some err, w') \<Rightarrow> (Returned (Some err), (h, m, w'))
      | (None, w') \<Rightarrow> consume_loop ops c handler releaseHandler publisher rounds (h, m, w')))"

end
