(* ===== verification/Delivery_Handling.thy ===== *)
theory Delivery_Handling
  imports Consumer
begin

text \<open>
  What the consumer does with a delivery: a specification of the events each outcome of decoding
  and handling must leave, and proofs that \<open>handleDelivery\<close> and \<open>handleReleaseDelivery\<close> meet it,
  for every publisher that meets its contract (the locales \<open>delivery_handling\<close> and \<open>consuming\<close>)
  and so for the one \<open>run\<close> wires; acknowledgements are justified, and the loop settles what it
  takes.
\<close>

section \<open>What becomes of a delivery\<close>

text \<open>
  The specification: the events that the handling of one delivery leaves in the history, from
  what decoding and the handler gave. A delivery that does not decode, or that the handler
  refuses for good, is refused without requeue. A decided one is answered by a confirmed
  publication and then acknowledged. What fails otherwise is forwarded: to the retry exchange
  with the next count while that is within the limit, to the dead-letter exchange after that;
  it is acknowledged only once the copy is confirmed and requeued if it is not.
\<close>

datatype processing =
    Undecodable
  | HandlerFailed go_int go_error
  | Decided go_int "string \<Rightarrow> string \<Rightarrow> Publishing \<Rightarrow> bool"

definition refused_delivery :: "Delivery \<Rightarrow> go_error option \<Rightarrow> amqp_event list \<Rightarrow> bool" where
  "refused_delivery d err evs \<longleftrightarrow> (\<exists>e. evs = [Nacked ConsumerClient (del_DeliveryTag d) False e] \<and>
     (err = None \<longleftrightarrow> e = None))"

definition answered_delivery ::
  "Delivery \<Rightarrow> (string \<Rightarrow> string \<Rightarrow> Publishing \<Rightarrow> bool) \<Rightarrow> go_error option \<Rightarrow> amqp_event list \<Rightarrow> bool" where
  "answered_delivery d answer err evs \<longleftrightarrow> (\<exists>pre e. evs = pre @ [Acked ConsumerClient (del_DeliveryTag d) e] \<and>
     publication answer None pre \<and> (err = None \<longleftrightarrow> e = None))"

definition forwarded_delivery ::
  "go_int \<Rightarrow> Delivery \<Rightarrow> string \<Rightarrow> go_int \<Rightarrow> go_error option \<Rightarrow> amqp_event list \<Rightarrow> bool" where
  "forwarded_delivery maxCount d key n err evs \<longleftrightarrow> (\<exists>pre failed e.
     publication (if sint maxCount < sint (n + 1)
                  then forwarded_copy InventoryDeadLetterExchangeName d key n
                  else forwarded_copy InventoryRetryExchangeName d key (n + 1)) failed pre \<and>
     evs = pre @ [if failed = None then Acked ConsumerClient (del_DeliveryTag d) e
                  else Nacked ConsumerClient (del_DeliveryTag d) True e] \<and>
     (err = None \<longleftrightarrow> e = None))"

fun disposed :: "go_int \<Rightarrow> Delivery \<Rightarrow> string \<Rightarrow> processing \<Rightarrow> go_error option \<Rightarrow> amqp_event list \<Rightarrow> bool" where
  "disposed maxCount d key Undecodable err evs \<longleftrightarrow> refused_delivery d err evs"
| "disposed maxCount d key (HandlerFailed n e) err evs \<longleftrightarrow>
     (if isPermanentHandlerError e then refused_delivery d err evs
      else forwarded_delivery maxCount d key n err evs)"
| "disposed maxCount d key (Decided n answer) err evs \<longleftrightarrow>
     answered_delivery d answer err evs \<or>
     (\<exists>pre post e. evs = pre @ post \<and> publication answer (Some e) pre \<and>
        forwarded_delivery maxCount d key n err post)"

definition reservation_processing ::
  "(ReservationRequest \<Rightarrow> (ReservationResult, 'h) op) \<Rightarrow> Delivery \<Rightarrow> 'h \<Rightarrow> processing" where
  "reservation_processing handle delivery h =
     (case decodeReservationRequested delivery of
        Inl _ \<Rightarrow> Undecodable
      | Inr q \<Rightarrow> (case fst (handle q h) of
                   Inl e \<Rightarrow> HandlerFailed (RetryCount (req_Metadata q)) e
                 | Inr res \<Rightarrow> Decided (RetryCount (req_Metadata q)) (reservation_answer res)))"

definition release_processing ::
  "(ReservationReleaseRequest \<Rightarrow> (ReservationReleaseResult, 'h) op) \<Rightarrow> Delivery \<Rightarrow> 'h \<Rightarrow> processing" where
  "release_processing handle delivery h =
     (case decodeReservationReleaseRequested delivery of
        Inl _ \<Rightarrow> Undecodable
      | Inr q \<Rightarrow> (case fst (handle q h) of
                   Inl e \<Rightarrow> HandlerFailed (RetryCount (rel_Metadata q)) e
                 | Inr res \<Rightarrow> Decided (RetryCount (rel_Metadata q)) (release_answer res)))"

text \<open>The handler's state afterwards: the handler runs once on a delivery that decodes.\<close>

definition handled_state :: "go_error + 'q \<Rightarrow> ('q \<Rightarrow> ('r, 'h) op) \<Rightarrow> 'h \<Rightarrow> 'h" where
  "handled_state decoded handle h = (case decoded of Inl _ \<Rightarrow> h | Inr q \<Rightarrow> snd (handle q h))"

lemma nack_events:
  "nack ops d requeue w = (err, w') \<Longrightarrow>
     \<exists>e. history w' = history w @ [Nacked ConsumerClient (del_DeliveryTag d) requeue e] \<and>
       (err = None \<longleftrightarrow> e = None)"
  by (auto simp: nack_def wrapping_def dest!: perform_history split: prod.splits option.splits)

lemma ack_events:
  "ack ops d w = (err, w') \<Longrightarrow>
     \<exists>e. history w' = history w @ [Acked ConsumerClient (del_DeliveryTag d) e] \<and>
       (err = None \<longleftrightarrow> e = None)"
  by (auto simp: ack_def wrapping_def dest!: perform_history split: prod.splits option.splits)

lemma observeFailure_history:
  "observeFailure ops c t reason startedAt (m, w) = (m', w') \<Longrightarrow> history w' = history w"
  by (auto simp: observeFailure_def Let_def dest!: observe_history split: prod.splits)

locale delivery_handling = result_publisher publisher
  for publisher :: "'b world ReservationResultPublisher" +
  fixes ops :: "'b world_ops" and c :: "'m Consumer"
begin

lemma retryOrDeadLetter_events:
  assumes "retryOrDeadLetter ops c ctx d key n publisher w = (err, w')"
  shows "\<exists>evs. history w' = history w @ evs \<and> forwarded_delivery (maxRetryCount c) d key n err evs"
proof -
  let ?dead = "sint (maxRetryCount c) < sint (n + 1)"
  let ?publish = "if ?dead then PublishDeadLetter publisher ctx d key n
    else PublishRetry publisher ctx d key (n + 1)"
  let ?copy = "if ?dead then forwarded_copy InventoryDeadLetterExchangeName d key n
    else forwarded_copy InventoryRetryExchangeName d key (n + 1)"
  obtain failed w1 where pub: "?publish w = (failed, w1)" by fastforce
  have "publishes ?copy ?publish" by (simp add: publishes_retry publishes_dead_letter)
  then obtain pre where pre: "history w1 = history w @ pre" "publication ?copy failed pre"
    using pub by (rule publishesD)
  have run: "(if failed = None then ack ops d else nack ops d True) w1 = (err, w')"
    using assms pub by (auto simp: retryOrDeadLetter_def Let_def split: if_splits option.splits)
  then obtain e where "history w' = history w1 @ [if failed = None
        then Acked ConsumerClient (del_DeliveryTag d) e else Nacked ConsumerClient (del_DeliveryTag d) True e]"
      "err = None \<longleftrightarrow> e = None"
    by (cases "failed = None") (auto dest!: ack_events nack_events)
  with pre show ?thesis unfolding forwarded_delivery_def by (intro exI conjI; simp)
qed

lemma handleDelivery_events:
  assumes "handleDelivery ops c ctx d handler publisher (h, m, w) = (err, (h', m', w'))"
  shows "h' = handled_state (decodeReservationRequested d) (handler ctx) h \<and>
    (\<exists>evs. history w' = history w @ evs \<and> disposed (maxRetryCount c) d ReservationRequestedRoutingKey
      (reservation_processing (handler ctx) d h) err evs)"
proof -
  obtain startedAt w1 where now: "observe (time_Now ops) w = (startedAt, w1)" by fastforce
  note h1 = observe_history [OF now]
  note defs = handleDelivery_def now reservation_processing_def handled_state_def
  show ?thesis
  proof (cases "decodeReservationRequested d")
    case (Inl e)
    with assms show ?thesis
      by (auto simp: defs h1 refused_delivery_def Let_def
          dest!: observeFailure_history nack_events split: prod.splits)
  next
    case (Inr q)
    obtain out h1 where handled: "handler ctx q h = (out, h1)" by fastforce
    show ?thesis
    proof (cases out)
      case (Inl e)
      with Inr handled assms show ?thesis
        by (auto simp: defs h1 refused_delivery_def Let_def
            dest!: observeFailure_history nack_events retryOrDeadLetter_events split: prod.splits if_splits)
    next
      case (Inr res)
      obtain failed w2 where pub: "PublishReservationResult publisher ctx res w1 = (failed, w2)" by fastforce
      obtain pre where pre: "history w2 = history w1 @ pre" "publication (reservation_answer res) failed pre"
        using publishes_result pub by (rule publishesD)
      note defs = defs \<open>decodeReservationRequested d = Inr q\<close> handled Inr pub
      show ?thesis
      proof (cases failed)
        case None
        with assms obtain w3 where "ack ops d w3 = (err, w')" "history w3 = history w2" "h' = h1"
          by (auto simp: defs Let_def dest!: observe_history split: prod.splits)
        with pre None h1 show ?thesis
          by (fastforce simp: defs answered_delivery_def dest!: ack_events)
      next
        case (Some e)
        with assms obtain w3 where "retryOrDeadLetter ops c ctx d ReservationRequestedRoutingKey (RetryCount (req_Metadata q))
            publisher w3 = (err, w')" "history w3 = history w2" "h' = h1"
          by (auto simp: defs Let_def dest!: observeFailure_history split: prod.splits)
        with pre Some h1 show ?thesis
          by (fastforce simp: defs dest!: retryOrDeadLetter_events)
      qed
    qed
  qed
qed

lemma handleReleaseDelivery_events:
  assumes "handleReleaseDelivery ops c ctx d handler publisher (h, m, w) = (err, (h', m', w'))"
  shows "h' = handled_state (decodeReservationReleaseRequested d) (handler ctx) h \<and>
    (\<exists>evs. history w' = history w @ evs \<and> disposed (maxRetryCount c) d ReservationReleaseRequestedRoutingKey
      (release_processing (handler ctx) d h) err evs)"
proof -
  obtain startedAt w1 where now: "observe (time_Now ops) w = (startedAt, w1)" by fastforce
  note h1 = observe_history [OF now]
  note defs = handleReleaseDelivery_def now release_processing_def handled_state_def
  show ?thesis
  proof (cases "decodeReservationReleaseRequested d")
    case (Inl e)
    with assms show ?thesis
      by (auto simp: defs h1 refused_delivery_def Let_def
          dest!: observeFailure_history nack_events split: prod.splits)
  next
    case (Inr q)
    obtain out h1 where handled: "handler ctx q h = (out, h1)" by fastforce
    show ?thesis
    proof (cases out)
      case (Inl e)
      with Inr handled assms show ?thesis
        by (auto simp: defs h1 refused_delivery_def Let_def
            dest!: observeFailure_history nack_events retryOrDeadLetter_events split: prod.splits if_splits)
    next
      case (Inr res)
      obtain failed w2 where pub: "PublishReservationReleaseResult publisher ctx res w1 = (failed, w2)" by fastforce
      obtain pre where pre: "history w2 = history w1 @ pre" "publication (release_answer res) failed pre"
        using publishes_release pub by (rule publishesD)
      note defs = defs \<open>decodeReservationReleaseRequested d = Inr q\<close> handled Inr pub
      show ?thesis
      proof (cases failed)
        case None
        with assms obtain w3 where "ack ops d w3 = (err, w')" "history w3 = history w2" "h' = h1"
          by (auto simp: defs Let_def dest!: observe_history split: prod.splits)
        with pre None h1 show ?thesis
          by (fastforce simp: defs answered_delivery_def dest!: ack_events)
      next
        case (Some e)
        with assms obtain w3 where "retryOrDeadLetter ops c ctx d ReservationReleaseRequestedRoutingKey (RetryCount (rel_Metadata q))
            publisher w3 = (err, w')" "history w3 = history w2" "h' = h1"
          by (auto simp: defs Let_def dest!: observeFailure_history split: prod.splits)
        with pre Some h1 show ?thesis
          by (fastforce simp: defs dest!: retryOrDeadLetter_events)
      qed
    qed
  qed
qed

end

interpretation wired_delivery: delivery_handling
  "FailureSimulationPublisher (Publisher ops) modes" ops c for ops modes c ..

section \<open>Settlements\<close>

text \<open>The delivery tags that a history settles, in order.\<close>

fun settled_tag :: "amqp_event \<Rightarrow> go_int option" where
  "settled_tag (Acked client tag e) = (if client = ConsumerClient then Some tag else None)"
| "settled_tag (Nacked client tag requeue e) = (if client = ConsumerClient then Some tag else None)"
| "settled_tag _ = None"

definition settled_tags :: "amqp_event list \<Rightarrow> go_int list" where
  "settled_tags evs = List.map_filter settled_tag evs"

lemma settled_tags_simps [simp]:
  "settled_tags [] = []"
  "settled_tags (ev # evs) = (case settled_tag ev of None \<Rightarrow> [] | Some t \<Rightarrow> [t]) @ settled_tags evs"
  "settled_tags (evs @ evs') = settled_tags evs @ settled_tags evs'"
proof -
  show simps: "settled_tags [] = []"
    "settled_tags (ev # evs) = (case settled_tag ev of None \<Rightarrow> [] | Some t \<Rightarrow> [t]) @ settled_tags evs"
    for ev evs by (simp_all add: settled_tags_def List.map_filter_simps split: option.split)
  show "settled_tags (evs @ evs') = settled_tags evs @ settled_tags evs'"
    by (induction evs) (simp_all add: simps)
qed

lemma settled_tags_publish: "list_all publish_event evs \<Longrightarrow> settled_tags evs = []"
proof (induction evs)
  case (Cons ev evs)
  then show ?case by (cases ev) simp_all
qed simp

lemma publication_settles_nothing: "publication what err evs \<Longrightarrow> settled_tags evs = []"
  by (simp add: publication_def settled_tags_publish)

lemma disposed_settles:
  assumes "disposed maxCount d key p err evs"
  shows "settled_tags evs = [del_DeliveryTag d]"
  using assms
  by (cases p) (auto simp: refused_delivery_def answered_delivery_def forwarded_delivery_def
      publication_settles_nothing split: if_splits)

text \<open>
  Property C10. A delivery of a reservation request gets what the specification says, whatever the
  broker, the clock and the handler do: the handler runs once if the message decodes and not at
  all otherwise, its effect is kept, and the delivery is answered, retried, dead-lettered, refused
  or requeued as \<open>disposed\<close> has it, with exactly one settlement.
\<close>

theorem delivery_disposition:
  assumes "handleDelivery ops c ctx d handler (FailureSimulationPublisher (Publisher ops) modes) (h, m, w) =
      (err, (h', m', w'))"
  shows "h' = handled_state (decodeReservationRequested d) (handler ctx) h \<and>
    (\<exists>evs. history w' = history w @ evs \<and> settled_tags evs = [del_DeliveryTag d] \<and>
      disposed (maxRetryCount c) d ReservationRequestedRoutingKey
        (reservation_processing (handler ctx) d h) err evs)"
  using wired_delivery.handleDelivery_events [OF assms] by (auto dest: disposed_settles)

text \<open>
  Property C27. A delivery of a release request gets what the specification says in the same
  way, with its own routing key.
\<close>

theorem release_delivery_disposition:
  assumes "handleReleaseDelivery ops c ctx d handler (FailureSimulationPublisher (Publisher ops) modes)
      (h, m, w) = (err, (h', m', w'))"
  shows "h' = handled_state (decodeReservationReleaseRequested d) (handler ctx) h \<and>
    (\<exists>evs. history w' = history w @ evs \<and> settled_tags evs = [del_DeliveryTag d] \<and>
      disposed (maxRetryCount c) d ReservationReleaseRequestedRoutingKey
        (release_processing (handler ctx) d h) err evs)"
  using wired_delivery.handleReleaseDelivery_events [OF assms] by (auto dest: disposed_settles)

text \<open>Processing that may be tried again, with its retry count.\<close>

fun retryable :: "processing \<Rightarrow> go_int \<Rightarrow> bool" where
  "retryable Undecodable k \<longleftrightarrow> False"
| "retryable (HandlerFailed n e) k \<longleftrightarrow> k = n \<and> \<not> isPermanentHandlerError e"
| "retryable (Decided n answer) k \<longleftrightarrow> k = n"

lemma disposed_acked:
  assumes "disposed maxCount d key p err evs" and "Acked client tag e \<in> set evs"
  shows "(\<exists>n answer exchange akey q. p = Decided n answer \<and> answer exchange akey q \<and>
       confirmed exchange akey q evs) \<or>
    (\<exists>n. retryable p n \<and>
       (if sint maxCount < sint (n + 1)
        then confirmed InventoryDeadLetterExchangeName key (newForwardedDelivery d n) evs
        else confirmed InventoryRetryExchangeName key (newForwardedDelivery d (n + 1)) evs))"
proof -
  have no_ack: "Acked client tag e \<notin> set evs" if "publication what err evs" for what err evs
    using that by (auto simp: publication_def list_all_iff)
  have forward: "if sint maxCount < sint (n + 1)
        then confirmed InventoryDeadLetterExchangeName key (newForwardedDelivery d n) (pre @ post)
        else confirmed InventoryRetryExchangeName key (newForwardedDelivery d (n + 1)) (pre @ post)"
    if post: "forwarded_delivery maxCount d key n err post" "Acked client tag e \<in> set post" for n pre post
  proof -
    from post obtain copies s where "post = copies @ [s]"
      "publication (if sint maxCount < sint (n + 1)
          then forwarded_copy InventoryDeadLetterExchangeName d key n
          else forwarded_copy InventoryRetryExchangeName d key (n + 1)) None copies"
      by (auto simp: forwarded_delivery_def dest: no_ack split: if_splits)
    then show ?thesis
      by (auto dest!: publication_confirmed simp: forwarded_copy_def
          intro: confirmed_append [of _ _ _ copies pre "[s]"] split: if_splits)
  qed
  show ?thesis
  proof (cases p)
    case Undecodable
    with assms show ?thesis by (auto simp: refused_delivery_def)
  next
    case (HandlerFailed n e')
    with assms forward [of n evs "[]"] show ?thesis by (auto simp: refused_delivery_def split: if_splits)
  next
    case (Decided n answer)
    with assms(1) consider "answered_delivery d answer err evs"
      | pre post e' where "evs = pre @ post" "publication answer (Some e') pre"
        "forwarded_delivery maxCount d key n err post"
      by auto
    then show ?thesis
    proof cases
      case 1
      then obtain pre s where "evs = pre @ [s]" "publication answer None pre"
        by (auto simp: answered_delivery_def)
      with Decided show ?thesis
        by (auto dest!: publication_confirmed intro!: confirmed_append [of _ _ _ pre "[]" "[s]", simplified])
    next
      case 2
      with assms(2) have "Acked client tag e \<in> set post" by (auto dest: no_ack)
      from forward [OF 2(3) this, of pre] 2(1) Decided show ?thesis by auto
    qed
  qed
qed


section \<open>The loop settles what it takes\<close>

fun round_delivery :: "'e round \<Rightarrow> Delivery option" where
  "round_delivery ContextDone = None"
| "round_delivery (DeliveryReceived env ctx d) = d"
| "round_delivery (ReleaseReceived env ctx d) = d"

definition received :: "'e round list \<Rightarrow> Delivery list" where
  "received rounds = List.map_filter round_delivery rounds"

lemma received_simps [simp]:
  "received [] = []"
  "received (r # rounds) = (case round_delivery r of None \<Rightarrow> [] | Some d \<Rightarrow> [d]) @ received rounds"
  by (simp_all add: received_def List.map_filter_simps split: option.split)

lemma cancel_consumer_settles:
  "cancel_consumer ops tag fs w = (e, w') \<Longrightarrow> settled_tags (history w') = settled_tags (history w)"
  by (auto simp: cancel_consumer_def call_amqp_def dest!: perform_history
      split: prod.splits option.splits if_splits)

locale consuming =
  fixes ops :: "'b world_ops" and c :: "'m Consumer"
    and handler :: "('e, 'h) reservation_handler" and releaseHandler :: "('e, 'h) release_handler"
    and publisher :: "'e \<Rightarrow> 'b world ReservationResultPublisher"
  assumes publishers: "result_publisher (publisher env)"
begin

lemma delivery_handled: "delivery_handling (publisher env)"
  using publishers by (simp add: delivery_handling_def)

text \<open>The tags settled by a loop are those of an initial part of the received deliveries, and
  of all of them while the loop is still running.\<close>

lemma consume_loop_settles:
  assumes "consume_loop ops c handler releaseHandler publisher rounds (h, m, w) = (status, (h', m', w'))"
  shows "\<exists>n. settled_tags (history w') =
      settled_tags (history w) @ map del_DeliveryTag (take n (received rounds)) \<and>
    (status = Waiting \<longrightarrow> n = length (received rounds))"
  using assms
proof (induction rounds arbitrary: h m w)
  case (Cons r rounds)
  have settle: ?case
    if "r = DeliveryReceived env ctx (Some d) \<or> r = ReleaseReceived env ctx (Some d)"
      and w1: "settled_tags (history w1) = settled_tags (history w) @ [del_DeliveryTag d]"
      and rest: "case err of None \<Rightarrow>
          consume_loop ops c handler releaseHandler publisher rounds (h1, m1, w1) = (status, (h', m', w'))
        | Some e \<Rightarrow> status = Returned (Some e) \<and> w' = w1"
    for env :: 'e and ctx d err h1 m1 w1
  proof (cases err)
    case None
    with rest Cons.IH obtain n where "settled_tags (history w') =
        settled_tags (history w1) @ map del_DeliveryTag (take n (received rounds))"
      "status = Waiting \<longrightarrow> n = length (received rounds)" by force
    with that(1) w1 show ?thesis by (intro exI [of _ "Suc n"]) auto
  next
    case (Some e)
    with that(1) rest w1 show ?thesis by (intro exI [of _ "Suc 0"]) auto
  qed
  show ?case
  proof (cases r)
    case ContextDone
    with Cons.prems show ?thesis
      by (intro exI [of _ 0]) (auto simp: Let_def and_then_def dest!: cancel_consumer_settles
          split: prod.splits option.splits)
  next
    case (DeliveryReceived env ctx od)
    show ?thesis
    proof (cases od)
      case None
      with DeliveryReceived Cons.prems show ?thesis by (intro exI [of _ 0]) auto
    next
      case (Some d)
      obtain err h1 m1 w1 where run: "handleDelivery ops c ctx d (handler env) (publisher env) (h, m, w) =
          (err, (h1, m1, w1))" by (metis prod_cases3)
      from delivery_handling.handleDelivery_events [OF delivery_handled run]
      have settled: "settled_tags (history w1) = settled_tags (history w) @ [del_DeliveryTag d]"
        by (auto dest: disposed_settles)
      have rest: "case err of None \<Rightarrow>
          consume_loop ops c handler releaseHandler publisher rounds (h1, m1, w1) = (status, (h', m', w'))
        | Some e \<Rightarrow> status = Returned (Some e) \<and> w' = w1"
        using DeliveryReceived Some Cons.prems run by (cases err) simp_all
      have "r = DeliveryReceived env ctx (Some d) \<or> r = ReleaseReceived env ctx (Some d)"
        by (simp add: DeliveryReceived Some)
      then show ?thesis using settled rest by (rule settle)
    qed
  next
    case (ReleaseReceived env ctx od)
    show ?thesis
    proof (cases od)
      case None
      with ReleaseReceived Cons.prems show ?thesis by (intro exI [of _ 0]) auto
    next
      case (Some d)
      obtain err h1 m1 w1 where run: "handleReleaseDelivery ops c ctx d (releaseHandler env) (publisher env)
          (h, m, w) = (err, (h1, m1, w1))" by (metis prod_cases3)
      from delivery_handling.handleReleaseDelivery_events [OF delivery_handled run]
      have settled: "settled_tags (history w1) = settled_tags (history w) @ [del_DeliveryTag d]"
        by (auto dest: disposed_settles)
      have rest: "case err of None \<Rightarrow>
          consume_loop ops c handler releaseHandler publisher rounds (h1, m1, w1) = (status, (h', m', w'))
        | Some e \<Rightarrow> status = Returned (Some e) \<and> w' = w1"
        using ReleaseReceived Some Cons.prems run by (cases err) simp_all
      have "r = DeliveryReceived env ctx (Some d) \<or> r = ReleaseReceived env ctx (Some d)"
        by (simp add: ReleaseReceived Some)
      then show ?thesis using settled rest by (rule settle)
    qed
  qed
qed simp

end

interpretation wired_consumer: consuming ops c handler releaseHandler
  "\<lambda>env. FailureSimulationPublisher (Publisher ops) (failureModes env)"
  for ops c handler releaseHandler
  ..

text \<open>
  Property C18. The consumer settles every delivery it takes, each once and in the order of
  arrival: the tags settled since the start are those of an initial part of the deliveries
  received, and of all of them as long as the loop has not returned. This holds for any
  interleaving of the two queues, any handlers and any behaviour of the broker.
\<close>

theorem consume_settles:
  assumes "Consume ops c handler releaseHandler
      (\<lambda>env. FailureSimulationPublisher (Publisher ops) (failureModes env)) rounds (h, m, w) =
      (status, (h', m', w'))"
  shows "\<exists>n. settled_tags (history w') =
      settled_tags (history w) @ map del_DeliveryTag (take n (received rounds)) \<and>
    (status = Waiting \<longrightarrow> n = length (received rounds))"
proof -
  let ?start = "\<lambda>queue suffix. call_amqp ops ConsumerClient (StartConsume queue (consumerTag c @ suffix) False)"
  let ?both = "in_order [wrapping [Lit ''start RabbitMQ reservation requested consumer: '']
      (?start ReservationRequestedQueueName ''-reservation-requested''),
    wrapping [Lit ''start RabbitMQ reservation release requested consumer: '']
      (?start ReservationReleaseRequestedQueueName ''-reservation-release-requested'')]"
  obtain e w1 where start: "?both w = (e, w1)" by fastforce
  have quiet: "settled_tags (map (\<lambda>cmd. Called client cmd e) cmds) = []" for client e cmds
    by (induction cmds) simp_all
  have "calls ConsumerClient (concat [[StartConsume ReservationRequestedQueueName
        (consumerTag c @ ''-reservation-requested'') False],
      [StartConsume ReservationReleaseRequestedQueueName
        (consumerTag c @ ''-reservation-release-requested'') False]]) ?both"
    by (rule calls_in_order) (simp add: calls_intros)
  then have "called ConsumerClient (concat [[StartConsume ReservationRequestedQueueName
        (consumerTag c @ ''-reservation-requested'') False],
      [StartConsume ReservationReleaseRequestedQueueName
        (consumerTag c @ ''-reservation-release-requested'') False]]) w (e, w1)"
    unfolding calls_def start [symmetric] by blast
  then have w1: "settled_tags (history w1) = settled_tags (history w)"
    by (cases e) (auto simp: quiet)
  show ?thesis
  proof (cases e)
    case None
    with assms start have "consume_loop ops c handler releaseHandler
        (\<lambda>env. FailureSimulationPublisher (Publisher ops) (failureModes env)) rounds (h, m, w1) =
        (status, (h', m', w'))" by (simp add: Consume_def)
    from wired_consumer.consume_loop_settles [OF this] w1 show ?thesis by simp
  next
    case (Some err)
    with assms start w1 show ?thesis by (intro exI [of _ 0]) (auto simp: Consume_def)
  qed
qed

section \<open>Concrete deliveries\<close>

text \<open>A broker that accepts and confirms everything, and handlers that fail for the moment.\<close>

definition steady_ops :: "unit world_ops" where
  "steady_ops =
     \<lparr>rand_Read = (\<lambda>b. (Inr (replicate 16 0), b)), time_Now = (\<lambda>b. (zero_time, b)),
      time_Since = (\<lambda>_ b. (0, b)), amqp_Call = (\<lambda>_ _ b. (None, b)),
      amqp_Publish = (\<lambda>_ _ _ _ _ b. (None, b)),
      amqp_Confirmation = (\<lambda>_ _ b. (Confirmation 1 True, b)),
      amqp_Ack = (\<lambda>_ _ b. (None, b)), amqp_Nack = (\<lambda>_ _ _ b. (None, b)),
      amqp_Get = (\<lambda>_ _ b. (Inr None, b)), amqp_Messages = (\<lambda>_ _ _ b. (Inr 0, b))\<rparr>"

definition steady_world :: "unit world" where
  "steady_world = \<lparr>outside = (), history = []\<rparr>"

definition sample_consumer :: "unit Consumer" where
  "sample_consumer = \<lparr>consumerTag = ''erp'', maxRetryCount = 3, metrics = None\<rparr>"

definition failing_handler :: "'e \<Rightarrow> go_context \<Rightarrow> 'q \<Rightarrow> ('r, unit) op" where
  "failing_handler env ctx q h = (Inl (Sentinel ContextCanceled), h)"

definition sample_simulation :: "unit simulation" where
  "sample_simulation = \<lparr>failureModes = NewFailureModeController, timerFirst = True,
     randomFloat = Finite 0, inner_env = ()\<rparr>"

definition sample_publisher :: "unit world ReservationResultPublisher" where
  "sample_publisher = FailureSimulationPublisher (Publisher steady_ops) NewFailureModeController"

definition sample_release_delivery :: Delivery where
  "sample_release_delivery = sample_delivery\<lparr>del_DeliveryTag := 2, del_Body := sample_release_body\<rparr>"

lemma sample_delivery_decodes:
  "decodeReservationRequested sample_delivery = Inr (sample_decoded_request sample_decoded_metadata)"
  "decodeReservationReleaseRequested sample_release_delivery = Inr (sample_decoded_release sample_decoded_metadata)"
  by (simp_all add: sample_request_decodes sample_release_decodes sample_delivery_def
      sample_release_delivery_def sample_headers_decode)

lemma steady_forward:
  "publishWithConfirmation steady_ops ctx exchange key p w =
     (None, w\<lparr>history := history w @ [Published PublisherClient exchange key p None,
        Awaited PublisherClient (Confirmation 1 True)]\<rparr>)"
  by (simp add: publishWithConfirmation_def perform_def steady_ops_def)

lemmas consumer_eval = observe_def perform_def observeFailure_def nack_def ack_def wrapping_def
  retryOrDeadLetter_def consumerMetrics_def noopConsumerMetrics_def sample_consumer_def
  FailureSimulationPublisher_def Publisher_def Publisher_PublishRetry_def Publisher_PublishDeadLetter_def
  isPermanentHandlerError_def failing_handler_def

text \<open>A first failing delivery is put on the retry exchange with count 1 and acknowledged.\<close>

definition sample_retry_events :: "Delivery \<Rightarrow> string \<Rightarrow> amqp_event list" where
  "sample_retry_events d key =
     [Published PublisherClient InventoryRetryExchangeName key (newForwardedDelivery d 1) None,
      Awaited PublisherClient (Confirmation 1 True), Acked ConsumerClient (del_DeliveryTag d) None]"

lemma sample_failing_run:
  "handleDelivery steady_ops sample_consumer Background sample_delivery (failing_handler ())
     sample_publisher ((), (), steady_world) =
   (None, ((), (), steady_world\<lparr>history := sample_retry_events sample_delivery ReservationRequestedRoutingKey\<rparr>))"
proof -
  have "RetryCount (req_Metadata (sample_decoded_request sample_decoded_metadata)) = 0"
    by (simp add: sample_decoded_request_def sample_decoded_metadata_def)
  then show ?thesis
    by (simp add: handleDelivery_def sample_delivery_decodes consumer_eval sample_publisher_def steady_forward
        sample_retry_events_def steady_world_def) (simp add: steady_ops_def)
qed

lemma sample_failing_release_run:
  "handleReleaseDelivery steady_ops sample_consumer Background sample_release_delivery (failing_handler ())
     sample_publisher ((), (), steady_world) =
   (None, ((), (), steady_world\<lparr>history :=
      sample_retry_events sample_release_delivery ReservationReleaseRequestedRoutingKey\<rparr>))"
proof -
  have "RetryCount (rel_Metadata (sample_decoded_release sample_decoded_metadata)) = 0"
    by (simp add: sample_decoded_release_def sample_decoded_metadata_def)
  then show ?thesis
    by (simp add: handleReleaseDelivery_def sample_delivery_decodes consumer_eval sample_publisher_def
        steady_forward sample_retry_events_def steady_world_def) (simp add: steady_ops_def)
qed

theorem delivery_disposition_witness:
  "disposed 3 sample_delivery ReservationRequestedRoutingKey
     (HandlerFailed 0 (Sentinel ContextCanceled)) None
     (sample_retry_events sample_delivery ReservationRequestedRoutingKey)"
  using delivery_disposition [OF sample_failing_run [unfolded sample_publisher_def]]
  by (simp add: reservation_processing_def sample_delivery_decodes failing_handler_def steady_world_def
      sample_consumer_def sample_decoded_request_def sample_decoded_metadata_def)

theorem release_delivery_disposition_witness:
  "disposed 3 sample_release_delivery ReservationReleaseRequestedRoutingKey
     (HandlerFailed 0 (Sentinel ContextCanceled)) None
     (sample_retry_events sample_release_delivery ReservationReleaseRequestedRoutingKey)"
  using release_delivery_disposition [OF sample_failing_release_run [unfolded sample_publisher_def]]
  by (simp add: release_processing_def sample_delivery_decodes failing_handler_def steady_world_def
      sample_consumer_def sample_decoded_release_def sample_decoded_metadata_def)


theorem consume_settles_witness:
  "\<exists>status h m w. Consume steady_ops sample_consumer failing_handler failing_handler
      (\<lambda>env. FailureSimulationPublisher (Publisher steady_ops) (failureModes env))
      [DeliveryReceived sample_simulation Background (Some sample_delivery), ContextDone]
      ((), (), steady_world) = (status, (h, m, w)) \<and> (\<exists>n. settled_tags (history w) = take n [1])"
proof -
  obtain status h m w where run: "Consume steady_ops sample_consumer failing_handler failing_handler
      (\<lambda>env. FailureSimulationPublisher (Publisher steady_ops) (failureModes env))
      [DeliveryReceived sample_simulation Background (Some sample_delivery), ContextDone]
      ((), (), steady_world) = (status, (h, m, w))" by (metis prod_cases3)
  from consume_settles [OF run] obtain n where
    "settled_tags (history w) = map del_DeliveryTag (take n [sample_delivery])"
    by (auto simp: steady_world_def)
  then have "settled_tags (history w) = take n [1]"
    by (cases n) (simp_all add: sample_delivery_def)
  with run show ?thesis by blast
qed

end
