(* ===== verification/Retry_Limits.thy ===== *)
theory Retry_Limits
  imports Delivery_Handling
begin

text \<open>
  The way of a failing message through the retry exchange: a message comes back a bounded number
  of times, except that the count wraps at the largest 64-bit integer.
\<close>

section \<open>Retries end\<close>

text \<open>
  A message published to the retry exchange waits in the retry queue and comes back to the
  request queue. The broker keeps body and the headers it was given and may add headers of its
  own, such as \<open>x-death\<close>.
\<close>

definition metadata_headers :: "string list" where
  "metadata_headers = [''message_id'', ''correlation_id'', ''causation_id'', ''idempotency_key'',
     ''occurred_at'', ''schema_version'', ''retry_count'']"

definition returns_as :: "Publishing \<Rightarrow> Delivery \<Rightarrow> bool" where
  "returns_as p d \<longleftrightarrow> del_Body d = pub_Body p \<and>
     list_all (\<lambda>name. fmlookup (del_Headers d) name = fmlookup (pub_Headers p) name) metadata_headers"

text \<open>\<open>d'\<close> is a delivery of a copy that the handling of \<open>d\<close> put on the retry exchange.\<close>

inductive retried ::
  "'b world_ops \<Rightarrow> 'm Consumer \<Rightarrow> ('e, 'h) reservation_handler \<Rightarrow> ('e, 'h) release_handler \<Rightarrow>
   ('e \<Rightarrow> FailureModeController) \<Rightarrow> Delivery \<Rightarrow> Delivery \<Rightarrow> bool"
  for ops c handler releaseHandler modes where
  retried_reservation:
    "handleDelivery ops c ctx d (handler env) (FailureSimulationPublisher (Publisher ops) (modes env))
       (h, m, w) = (err, (h', m', w')) \<Longrightarrow>
     history w' = history w @ evs \<Longrightarrow>
     Published PublisherClient InventoryRetryExchangeName key p e \<in> set evs \<Longrightarrow> returns_as p d' \<Longrightarrow>
     retried ops c handler releaseHandler modes d d'"
| retried_release:
    "handleReleaseDelivery ops c ctx d (releaseHandler env)
       (FailureSimulationPublisher (Publisher ops) (modes env)) (h, m, w) = (err, (h', m', w')) \<Longrightarrow>
     history w' = history w @ evs \<Longrightarrow>
     Published PublisherClient InventoryRetryExchangeName key p e \<in> set evs \<Longrightarrow> returns_as p d' \<Longrightarrow>
     retried ops c handler releaseHandler modes d d'"

lemma decodeMessageMetadata_cong:
  assumes "\<And>name. name \<in> set metadata_headers \<Longrightarrow> fmlookup h name = fmlookup h' name"
  shows "decodeMessageMetadata h = decodeMessageMetadata h'"
proof -
  have "requiredStringHeader h name = requiredStringHeader h' name"
    "requiredUUIDHeader h name = requiredUUIDHeader h' name"
    "requiredIntegerHeader h name = requiredIntegerHeader h' name"
    if "name \<in> set metadata_headers" for name
    using assms [OF that] by (simp_all add: requiredStringHeader_def requiredUUIDHeader_def requiredIntegerHeader_def)
  then show ?thesis unfolding decodeMessageMetadata_def
    by (simp add: metadata_headers_def cong: sum.case_cong option.case_cong if_cong)
qed

text \<open>Only a forwarded copy with a count within the limit goes to the retry exchange.\<close>

fun answers_to_inventory :: "processing \<Rightarrow> bool" where
  "answers_to_inventory (Decided n answer) \<longleftrightarrow>
     (\<forall>exchange key p. answer exchange key p \<longrightarrow> exchange = InventoryExchangeName)"
| "answers_to_inventory _ \<longleftrightarrow> True"

lemma answers_to_inventory_exchange:
  "answers_to_inventory (reservation_processing handle d h)"
  "answers_to_inventory (release_processing handle' d h)"
  by (auto simp: reservation_processing_def reservation_answer_def release_processing_def
      release_answer_def split: sum.splits)

lemma disposed_retry:
  assumes "disposed maxCount d key p err evs"
    and "Published PublisherClient InventoryRetryExchangeName k q e \<in> set evs"
    and answers: "answers_to_inventory p"
  shows "\<exists>n. retryable p n \<and> sint (n + 1) \<le> sint maxCount \<and> q = newForwardedDelivery d (n + 1)"
proof -
  have forward: ?thesis if "forwarded_delivery maxCount d key n err post" "retryable p n"
    "Published PublisherClient InventoryRetryExchangeName k q e \<in> set post" for n post
    using that by (intro exI [of _ n])
      (auto simp: forwarded_delivery_def forwarded_copy_def dest!: publicationD split: if_splits)
  have no_answer: "Published PublisherClient InventoryRetryExchangeName k q e \<notin> set pre"
    if "publication answer failed pre" "p = Decided n answer" for answer failed pre n
    using that answers by (auto dest!: publicationD)
  show ?thesis
  proof (cases p)
    case Undecodable
    with assms(1,2) show ?thesis by (auto simp: refused_delivery_def)
  next
    case (HandlerFailed n e')
    with assms(1,2) have "forwarded_delivery maxCount d key n err evs" "retryable p n"
      by (auto simp: refused_delivery_def split: if_splits)
    then show ?thesis using assms(2) by (rule forward)
  next
    case (Decided n answer)
    with assms(1,2) obtain post where "forwarded_delivery maxCount d key n err post"
      "Published PublisherClient InventoryRetryExchangeName k q e \<in> set post"
      by (auto simp: answered_delivery_def dest: no_answer [OF _ Decided])
    with Decided show ?thesis by (intro forward [of n post]) simp_all
  qed
qed

lemma retryable_decoded:
  "retryable (reservation_processing handle d h) n \<Longrightarrow>
     \<exists>m. decodeMessageMetadata (del_Headers d) = Inr m \<and> RetryCount m = n"
  "retryable (release_processing handle' d h') n \<Longrightarrow>
     \<exists>m. decodeMessageMetadata (del_Headers d) = Inr m \<and> RetryCount m = n"
proof -
  have "\<exists>m. decodeMessageMetadata (del_Headers d) = Inr m \<and> m = req_Metadata q"
    if "decodeReservationRequested d = Inr q" for q
    using that by (auto simp: decodeReservationRequested_def Let_def split: sum.splits if_splits)
  then show "retryable (reservation_processing handle d h) n \<Longrightarrow>
     \<exists>m. decodeMessageMetadata (del_Headers d) = Inr m \<and> RetryCount m = n"
    by (fastforce simp: reservation_processing_def split: sum.splits)
  have "\<exists>m. decodeMessageMetadata (del_Headers d) = Inr m \<and> m = rel_Metadata q"
    if "decodeReservationReleaseRequested d = Inr q" for q
    using that by (auto simp: decodeReservationReleaseRequested_def Let_def split: sum.splits if_splits)
  then show "retryable (release_processing handle' d h') n \<Longrightarrow>
     \<exists>m. decodeMessageMetadata (del_Headers d) = Inr m \<and> RetryCount m = n"
    by (fastforce simp: release_processing_def split: sum.splits)
qed

lemma retried_copy:
  assumes "retried ops c handler releaseHandler modes d d'"
  obtains m where "decodeMessageMetadata (del_Headers d) = Inr m"
    "sint (RetryCount m + 1) \<le> sint (maxRetryCount c)"
    "returns_as (newForwardedDelivery d (RetryCount m + 1)) d'"
  using assms
proof cases
  case (retried_reservation ctx env h m w err h' m' w' evs key p e)
  note run = wired_delivery.handleDelivery_events [OF retried_reservation(1)]
  with retried_reservation(2) have "disposed (maxRetryCount c) d ReservationRequestedRoutingKey
      (reservation_processing (handler env ctx) d h) err evs" by auto
  from disposed_retry [OF this retried_reservation(3) answers_to_inventory_exchange(1)]
  obtain n where "retryable (reservation_processing (handler env ctx) d h) n"
    "sint (n + 1) \<le> sint (maxRetryCount c)" "p = newForwardedDelivery d (n + 1)"
    by blast
  with retryable_decoded(1) [OF this(1)] retried_reservation(4) show thesis by (auto intro: that)
next
  case (retried_release ctx env h m w err h' m' w' evs key p e)
  note run = wired_delivery.handleReleaseDelivery_events [OF retried_release(1)]
  with retried_release(2) have "disposed (maxRetryCount c) d ReservationReleaseRequestedRoutingKey
      (release_processing (releaseHandler env ctx) d h) err evs" by auto
  from disposed_retry [OF this retried_release(3) answers_to_inventory_exchange(2)]
  obtain n where "retryable (release_processing (releaseHandler env ctx) d h) n"
    "sint (n + 1) \<le> sint (maxRetryCount c)" "p = newForwardedDelivery d (n + 1)"
    by blast
  with retryable_decoded(2) [OF this(1)] retried_release(4) show thesis by (auto intro: that)
qed

text \<open>The count of a copy is one more than the count of the original, unless it wraps.\<close>

lemma retried_count:
  assumes "retried ops c handler releaseHandler modes d d'"
    and "decodeMessageMetadata (del_Headers d) = Inr m"
    and "sint (RetryCount m) < max_int64" and "sint (maxRetryCount c) < 2147483648"
  obtains m' where "decodeMessageMetadata (del_Headers d') = Inr m'"
    "sint (RetryCount m') = sint (RetryCount m) + 1" "sint (RetryCount m') \<le> sint (maxRetryCount c)"
proof -
  from retried_copy [OF assms(1)] assms(2) have
    limit: "sint (RetryCount m + 1) \<le> sint (maxRetryCount c)" and
    copy: "returns_as (newForwardedDelivery d (RetryCount m + 1)) d'" by auto
  have next_count: "sint (RetryCount m + 1) = sint (RetryCount m) + 1"
    using assms(3) decodeMessageMetadata_Inr [OF assms(2)] by (subst sint_plus_exact) auto
  have "decodeMessageMetadata (pub_Headers (newForwardedDelivery d (RetryCount m + 1))) =
      Inr (m\<lparr>RetryCount := RetryCount m + 1\<rparr>)"
    using decode_new_retry_count [OF assms(2), of "ucast (RetryCount m + 1)"]
      scast_ucast_small [of "RetryCount m + 1"] next_count limit assms(4) decodeMessageMetadata_Inr [OF assms(2)]
    by (simp add: newForwardedDelivery_def)
  moreover have "decodeMessageMetadata (del_Headers d') =
      decodeMessageMetadata (pub_Headers (newForwardedDelivery d (RetryCount m + 1)))"
    using copy by (intro decodeMessageMetadata_cong) (auto simp: returns_as_def list_all_iff)
  ultimately show thesis using that [of "m\<lparr>RetryCount := RetryCount m + 1\<rparr>"] next_count limit by simp
qed


section \<open>The count wraps\<close>

text \<open>
  Property C39. The limit is missed at the end of the range: a message that arrives with the
  largest 64-bit count, far over any limit, and whose handler fails, is not dead-lettered. Its
  next count is negative, so if the delivery is acknowledged a copy went to the retry exchange,
  and this copy decodes with retry count 0: all retries start again.
\<close>

theorem retry_count_wraps:
  assumes "handleDelivery ops c ctx d handler (FailureSimulationPublisher (Publisher ops) modes) (h, m, w) =
      (err, (h', m', w'))"
    and "decodeReservationRequested d = Inr q" and "RetryCount (req_Metadata q) = 0x7FFFFFFFFFFFFFFF"
    and "fst (handler ctx q h) = Inl e" and "\<not> isPermanentHandlerError e" and "0 \<le> sint (maxRetryCount c)"
    and "history w' = history w @ evs" and "Acked ConsumerClient tag e' \<in> set evs"
  shows "\<exists>p. confirmed InventoryRetryExchangeName ReservationRequestedRoutingKey p evs \<and>
    decodeMessageMetadata (pub_Headers p) = Inr ((req_Metadata q)\<lparr>RetryCount := 0\<rparr>)"
proof -
  from wired_delivery.handleDelivery_events [OF assms(1)] assms(7)
  have "disposed (maxRetryCount c) d ReservationRequestedRoutingKey
      (reservation_processing (handler ctx) d h) err evs" by auto
  moreover have "reservation_processing (handler ctx) d h = HandlerFailed 0x7FFFFFFFFFFFFFFF e"
    using assms(2-4) by (simp add: reservation_processing_def)
  ultimately have "\<exists>n. retryable (HandlerFailed 0x7FFFFFFFFFFFFFFF e) n \<and>
     (if sint (maxRetryCount c) < sint (n + 1)
      then confirmed InventoryDeadLetterExchangeName ReservationRequestedRoutingKey (newForwardedDelivery d n) evs
      else confirmed InventoryRetryExchangeName ReservationRequestedRoutingKey
             (newForwardedDelivery d (n + 1)) evs)"
    using disposed_acked [OF _ assms(8)] by fastforce
  then have "confirmed InventoryRetryExchangeName ReservationRequestedRoutingKey
      (newForwardedDelivery d 0x8000000000000000) evs"
    using assms(6) by (auto split: if_splits)
  moreover have "decodeMessageMetadata (pub_Headers (newForwardedDelivery d 0x8000000000000000)) =
      Inr ((req_Metadata q)\<lparr>RetryCount := 0\<rparr>)"
  proof -
    have "decodeMessageMetadata (del_Headers d) = Inr (req_Metadata q)"
      using assms(2) by (auto simp: decodeReservationRequested_def Let_def split: sum.splits if_splits)
    moreover have "ucast (0x8000000000000000 :: go_int) = (0 :: go_int32)" by code_simp
    ultimately show ?thesis
      using decode_new_retry_count [of "del_Headers d" "req_Metadata q" 0]
      by (simp only: newForwardedDelivery_def Publishing.simps) simp
  qed
  ultimately show ?thesis by blast
qed

section \<open>Concrete retries\<close>

definition sample_redelivery :: Delivery where
  "sample_redelivery = sample_delivery\<lparr>del_DeliveryTag := 7,
     del_Headers := fmupd ''x-death'' HOther (fmupd ''retry_count'' (HInt32 1) sample_headers)\<rparr>"


definition sample_late_delivery :: Delivery where
  "sample_late_delivery = sample_delivery\<lparr>
     del_Headers := fmupd ''retry_count'' (HInt64 0x7FFFFFFFFFFFFFFF) sample_headers\<rparr>"

definition sample_late_events :: "amqp_event list" where
  "sample_late_events =
     [Published PublisherClient InventoryRetryExchangeName ReservationRequestedRoutingKey
        (newForwardedDelivery sample_late_delivery 0x8000000000000000) None,
      Awaited PublisherClient (Confirmation 1 True), Acked ConsumerClient 1 None]"

lemma sample_late_decodes:
  "decodeReservationRequested sample_late_delivery =
     Inr (sample_decoded_request (sample_decoded_metadata\<lparr>RetryCount := 0x7FFFFFFFFFFFFFFF\<rparr>))"
proof -
  have "decodeMessageMetadata (del_Headers sample_late_delivery) =
      Inr (sample_decoded_metadata\<lparr>RetryCount := 0x7FFFFFFFFFFFFFFF\<rparr>)"
    using decode_retry_header [OF sample_headers_decode, where v = "HInt64 0x7FFFFFFFFFFFFFFF"]
    by (simp add: requiredIntegerHeader_def sample_late_delivery_def)
  then show ?thesis by (intro sample_request_decodes) (simp_all add: sample_late_delivery_def sample_delivery_def)
qed

lemma sample_late_run:
  "handleDelivery steady_ops sample_consumer Background sample_late_delivery (failing_handler ())
     sample_publisher ((), (), steady_world) =
   (None, ((), (), steady_world\<lparr>history := sample_late_events\<rparr>))"
proof -
  have "del_DeliveryTag sample_late_delivery = 1" by (simp add: sample_late_delivery_def sample_delivery_def)
  then show ?thesis
    by (simp add: handleDelivery_def sample_late_decodes sample_decoded_request_def consumer_eval
        sample_publisher_def steady_forward sample_late_events_def steady_world_def) (simp add: steady_ops_def)
qed

theorem retry_count_wraps_witness:
  "\<exists>p. confirmed InventoryRetryExchangeName ReservationRequestedRoutingKey p sample_late_events \<and>
     decodeMessageMetadata (pub_Headers p) = Inr sample_decoded_metadata"
proof -
  have "sample_decoded_metadata\<lparr>RetryCount := 0\<rparr> = sample_decoded_metadata"
    by (simp add: sample_decoded_metadata_def)
  then show ?thesis
    using retry_count_wraps [OF sample_late_run [unfolded sample_publisher_def] sample_late_decodes,
        of "Sentinel ContextCanceled" sample_late_events 1 None]
    by (simp add: failing_handler_def isPermanentHandlerError_def sample_consumer_def steady_world_def
        sample_decoded_request_def) (simp add: sample_late_events_def)
qed

end
