(* ===== verification/Inventory_Ledger.thy ===== *)
theory Inventory_Ledger
  imports Inventory_Repository
begin

text \<open>
  The abstract specification of the inventory and the theorems on the repository. The ledger
  knows, per SKU, the units on the shelf and, per reservation identifier, the SKU, the units
  and whether the reservation is active, all as unbounded integers and with no reserved
  counter. The refinement theorem says that the repository, with its machine integers and its
  redundant counter, answers and evolves like the ledger as long as the units of every SKU fit
  into an \<open>int\<close>; the last section shows what happens when they do not.
\<close>

section \<open>The ledger\<close>

record ledger =
  shelf :: "string \<Rightarrow> int option"
  orders :: "string \<Rightarrow> (string \<times> int \<times> bool) option"

datatype outcome =
    Accepted | Cancelled | Invalid | Duplicate | UnknownSKU | Insufficient
  | NotFound | NotActive | Broken

definition spec_set_stock :: "string \<Rightarrow> int \<Rightarrow> ledger \<Rightarrow> outcome \<times> ledger" where
  "spec_set_stock sku n L =
     (if TrimSpace sku = '''' then (Invalid, L)
      else if n < 0 then (Broken, L)
      else (Accepted, L\<lparr>shelf := (shelf L)(TrimSpace sku \<mapsto> n)\<rparr>))"

definition spec_reserve :: "string \<Rightarrow> string \<Rightarrow> int \<Rightarrow> ledger \<Rightarrow> outcome \<times> ledger" where
  "spec_reserve rid sku n L =
     (if TrimSpace rid = '''' \<or> TrimSpace sku = '''' then (Invalid, L)
      else if orders L (TrimSpace rid) \<noteq> None then (Duplicate, L)
      else case shelf L (TrimSpace sku) of
        None \<Rightarrow> (UnknownSKU, L)
      | Some a \<Rightarrow>
          if n \<le> 0 then (Invalid, L)
          else if a < n then (Insufficient, L)
          else (Accepted, L\<lparr>shelf := (shelf L)(TrimSpace sku \<mapsto> a - n),
                            orders := (orders L)(TrimSpace rid \<mapsto> (TrimSpace sku, n, True))\<rparr>))"

definition spec_release :: "string \<Rightarrow> ledger \<Rightarrow> outcome \<times> ledger" where
  "spec_release rid L =
     (if TrimSpace rid = '''' then (Invalid, L)
      else case orders L (TrimSpace rid) of
        None \<Rightarrow> (NotFound, L)
      | Some (sku, n, active) \<Rightarrow>
          if \<not> active then (NotActive, L)
          else (Accepted, L\<lparr>shelf := (shelf L)(sku := map_option (\<lambda>a. a + n) (shelf L sku)),
                            orders := (orders L)(TrimSpace rid \<mapsto> (sku, n, False))\<rparr>))"

text \<open>How a repository state and an answer read in the ledger's terms.\<close>

definition abs_ledger :: "InventoryRepository \<Rightarrow> ledger" where
  "abs_ledger r =
     \<lparr>shelf = (\<lambda>sku. map_option (\<lambda>i. sint (AvailableQuantity i)) (fmlookup (stock r) sku)),
      orders = (\<lambda>rid. map_option (\<lambda>v. (res_SKU v, sint (Quantity v), Status v = ReservationStatusActive))
                  (fmlookup (reservations r) rid))\<rparr>"

definition outcome_of :: "'a result \<Rightarrow> outcome" where
  "outcome_of res =
     (case res of
        Inr _ \<Rightarrow> Accepted
      | Inl e \<Rightarrow>
          if errors_Is e ErrInvalidArgument then Invalid
          else if errors_Is e ErrReservationAlreadyExists then Duplicate
          else if errors_Is e ErrStockItemNotFound then UnknownSKU
          else if errors_Is e ErrInsufficientStock then Insufficient
          else if errors_Is e ErrReservationNotFound then NotFound
          else if errors_Is e ErrReservationNotActive then NotActive
          else if errors_Is e ErrStockInvariantViolation then Broken
          else Cancelled)"

section \<open>One call refines one ledger step\<close>

lemma SetStock_refines:
  assumes "repo_ok r" and "ctx_Err ctx = None"
  shows "map_prod outcome_of abs_ledger (InventoryRepository_SetStock ctx sku q r) =
    spec_set_stock sku (sint q) (abs_ledger r)"
  using assms
  by (auto simp: InventoryRepository_SetStock_def NewStockItem_def Let_def spec_set_stock_def
      outcome_of_def abs_ledger_def fun_eq_iff split: option.splits)

lemma Reserve_refines:
  assumes "repo_ok r" and "ctx_Err ctx = None"
  shows "map_prod outcome_of abs_ledger (InventoryRepository_Reserve ctx now rid sku q r) =
    spec_reserve rid sku (sint q) (abs_ledger r)"
proof (cases "TrimSpace rid = '''' \<or> TrimSpace sku = ''''
    \<or> fmlookup (reservations r) (TrimSpace rid) \<noteq> None \<or> fmlookup (stock r) (TrimSpace sku) = None")
  case True
  then show ?thesis using assms(2)
    by (auto simp: InventoryRepository_Reserve_def normalizedIdentifier_def Let_def
        spec_reserve_def outcome_of_def abs_ledger_def)
next
  case False
  then obtain i where i: "fmlookup (stock r) (TrimSpace sku) = Some i" by auto
  have sku: "item_SKU i = TrimSpace sku"
    using repo_wf_stockD [OF _ i] assms(1) by (simp add: repo_ok_def stock_entry_ok_def)
  have exact: "sint (AvailableQuantity i - q) = sint (AvailableQuantity i) - sint q"
    if "0 < sint q" "sint q \<le> sint (AvailableQuantity i)"
    using that sint_range [of "AvailableQuantity i"] by (intro sint_minus_exact) linarith+
  show ?thesis
    using False assms(2) i sku exact repo_bounded_valid [OF assms(1) i]
    by (auto simp: InventoryRepository_Reserve_def normalizedIdentifier_def Service_Reserve_def
        Let_def spec_reserve_def outcome_of_def abs_ledger_def fun_eq_iff
        simp del: StockItem_validate.simps)
qed

lemma Release_refines:
  assumes "repo_ok r" and "ctx_Err ctx = None"
  shows "map_prod outcome_of abs_ledger (InventoryRepository_Release ctx now rid r) =
    spec_release rid (abs_ledger r)"
proof (cases "TrimSpace rid = '''' \<or> fmlookup (reservations r) (TrimSpace rid) = None")
  case True
  then show ?thesis using assms(2)
    by (auto simp: InventoryRepository_Release_def normalizedIdentifier_def spec_release_def
        outcome_of_def abs_ledger_def)
next
  case False
  then obtain v where v: "TrimSpace rid \<noteq> ''''" "fmlookup (reservations r) (TrimSpace rid) = Some v"
    by auto
  show ?thesis
  proof (rule Release_entry [OF assms v, of now])
    fix i
    assume i: "fmlookup (stock r) (res_SKU v) = Some i" "stock_fits i"
      and eq: "InventoryRepository_Release ctx now rid r =
      (if Status v \<noteq> ReservationStatusActive then (Inl (Sentinel ErrReservationNotActive), r)
       else (Inr (v\<lparr>Status := ReservationStatusReleased, ReleasedAt := Some (UTC now)\<rparr>),
             r\<lparr>stock := fmupd (res_SKU v)
                   (i\<lparr>AvailableQuantity := AvailableQuantity i + Quantity v,
                      ReservedQuantity := ReservedQuantity i - Quantity v\<rparr>) (stock r),
               reservations := fmupd (TrimSpace rid)
                   (v\<lparr>Status := ReservationStatusReleased, ReleasedAt := Some (UTC now)\<rparr>)
                   (reservations r)\<rparr>))"
    have "0 < sint (Quantity v)"
      using repo_wf_reservationD [OF _ v(2)] assms(1) by (simp add: repo_ok_def reservation_entry_ok_def)
    then have "sint (AvailableQuantity i + Quantity v) = sint (AvailableQuantity i) + sint (Quantity v)"
      if "Status v = ReservationStatusActive"
      using i(2) active_reservation_covered [OF assms(1) v(2) that i(1)]
      by (intro sint_plus_exact) (auto simp: stock_fits_def)
    then show ?thesis
      using v i by (auto simp: eq spec_release_def outcome_of_def abs_ledger_def fun_eq_iff)
  qed
qed

section \<open>Runs of calls\<close>

datatype repo_call =
    CallSetStock string go_int
  | CallReserve go_time string string go_int
  | CallRelease go_time string

fun run_call :: "repo_call \<Rightarrow> InventoryRepository \<Rightarrow> outcome \<times> InventoryRepository" where
  "run_call (CallSetStock sku q) r =
     map_prod outcome_of id (InventoryRepository_SetStock Background sku q r)"
| "run_call (CallReserve now rid sku q) r =
     map_prod outcome_of id (InventoryRepository_Reserve Background now rid sku q r)"
| "run_call (CallRelease now rid) r =
     map_prod outcome_of id (InventoryRepository_Release Background now rid r)"

fun run_calls :: "repo_call list \<Rightarrow> InventoryRepository \<Rightarrow> outcome list \<times> InventoryRepository" where
  "run_calls [] r = ([], r)"
| "run_calls (c # cs) r =
     (let (x, r') = run_call c r; (xs, r'') = run_calls cs r' in (x # xs, r''))"

fun spec_call :: "repo_call \<Rightarrow> ledger \<Rightarrow> outcome \<times> ledger" where
  "spec_call (CallSetStock sku q) L = spec_set_stock sku (sint q) L"
| "spec_call (CallReserve now rid sku q) L = spec_reserve rid sku (sint q) L"
| "spec_call (CallRelease now rid) L = spec_release rid L"

fun spec_calls :: "repo_call list \<Rightarrow> ledger \<Rightarrow> outcome list \<times> ledger" where
  "spec_calls [] L = ([], L)"
| "spec_calls (c # cs) L =
     (let (x, L') = spec_call c L; (xs, L'') = spec_calls cs L' in (x # xs, L''))"

fun call_fits :: "InventoryRepository \<Rightarrow> repo_call \<Rightarrow> bool" where
  "call_fits r (CallSetStock sku q) = set_stock_fits r sku q"
| "call_fits r c = True"

fun calls_fit :: "InventoryRepository \<Rightarrow> repo_call list \<Rightarrow> bool" where
  "calls_fit r [] = True"
| "calls_fit r (c # cs) = (call_fits r c \<and> calls_fit (snd (run_call c r)) cs)"

lemma run_call_ok: "repo_ok r \<Longrightarrow> call_fits r c \<Longrightarrow> repo_ok (snd (run_call c r))"
  by (cases c) (auto intro: memory_repository.set_stock_keeps memory_repository.reserve_keeps
      memory_repository.release_keeps)

lemma run_call_refines:
  "repo_ok r \<Longrightarrow> map_prod id abs_ledger (run_call c r) = spec_call c (abs_ledger r)"
  by (cases c)
    (simp_all add: prod.map_comp SetStock_refines Reserve_refines Release_refines)

lemma run_calls_ok: "repo_ok r \<Longrightarrow> calls_fit r cs \<Longrightarrow> repo_ok (snd (run_calls cs r))"
  by (induction cs arbitrary: r) (auto simp: split_beta run_call_ok)


definition sample_repository :: InventoryRepository where
  "sample_repository =
     \<lparr>stock = fmupd ''sku-1'' \<lparr>item_SKU = ''sku-1'', AvailableQuantity = 10, ReservedQuantity = 0\<rparr> fmempty,
      reservations = fmempty\<rparr>"

lemma sample_repository_new:
  "NewInventoryRepository (Some ()) [\<lparr>seed_SKU = '' sku-1'', seed_AvailableQuantity = 10\<rparr>] =
     Inr sample_repository"
  by (simp add: sample_repository_def erp_defs trim_defs)

lemmas sample_repository_ok = NewInventoryRepository_ok [OF sample_repository_new]


section \<open>Invariants of the running repository\<close>

text \<open>
  Property C3. In every reachable repository, whatever the callers did and in whatever order,
  each SKU's reserved counter equals the sum of the quantities of its active reservations (as
  64-bit words, so even after a wrap-around), entries are filed under their own trimmed
  non-empty identifier, and every reservation refers to a known SKU, has a positive quantity
  and carries a release time exactly when it is released.
\<close>

theorem ledger_invariant:
  assumes "repo_reachable r"
  shows "(\<forall>sku i. fmlookup (stock r) sku = Some i \<longrightarrow>
      item_SKU i = sku \<and> TrimSpace sku = sku \<and> sku \<noteq> '''' \<and> ReservedQuantity i = active_units r sku) \<and>
    (\<forall>rid v. fmlookup (reservations r) rid = Some v \<longrightarrow>
      ID v = rid \<and> TrimSpace rid = rid \<and> rid \<noteq> '''' \<and> fmlookup (stock r) (res_SKU v) \<noteq> None \<and>
      0 < sint (Quantity v) \<and>
      (Status v = ReservationStatusActive \<and> ReleasedAt v = None \<or>
       Status v = ReservationStatusReleased \<and> ReleasedAt v \<noteq> None))"
  using repo_reachable_wf [OF assms]
  unfolding repo_wf_def stock_entry_ok_def reservation_entry_ok_def .

definition sample_reserved :: InventoryRepository where
  "sample_reserved = snd (InventoryRepository_Reserve Background zero_time ''res-1'' ''sku-1'' 4 sample_repository)"

lemma sample_reserved_eq:
  "sample_reserved =
     \<lparr>stock = fmupd ''sku-1'' \<lparr>item_SKU = ''sku-1'', AvailableQuantity = 6, ReservedQuantity = 4\<rparr> fmempty,
      reservations = fmupd ''res-1'' \<lparr>ID = ''res-1'', res_SKU = ''sku-1'', Quantity = 4,
        Status = ''active'', CreatedAt = UTC zero_time, ReleasedAt = None\<rparr> fmempty\<rparr>"
  by (simp add: sample_reserved_def sample_repository_def erp_defs trim_defs
      normalizedIdentifier_def)

lemma sample_reserved_reachable: "repo_reachable sample_reserved"
  unfolding sample_reserved_def
  by (rule reach_step [OF reach_new [OF sample_repository_new]], rule step_reserve, rule surjective_pairing)

lemma sample_reserved_ok: "repo_ok sample_reserved"
  unfolding sample_reserved_def
  by (rule memory_repository.reserve_keeps [OF sample_repository_ok])

theorem ledger_invariant_witness:
  "fmlookup (stock sample_reserved) ''sku-1'' =
     Some \<lparr>item_SKU = ''sku-1'', AvailableQuantity = 6, ReservedQuantity = 4\<rparr> \<and>
   active_units sample_reserved ''sku-1'' = 4"
proof -
  let ?i = "\<lparr>item_SKU = ''sku-1'', AvailableQuantity = 6, ReservedQuantity = 4\<rparr> :: StockItem"
  have h: "fmlookup (stock sample_reserved) ''sku-1'' = Some ?i" by (simp add: sample_reserved_eq)
  with ledger_invariant [OF sample_reserved_reachable]
  have "ReservedQuantity ?i = active_units sample_reserved ''sku-1''" by blast
  with h show ?thesis by simp
qed

text \<open>
  Property C11. Reserving and releasing conserve units: for every SKU, available plus reserved
  is the same before and after a successful call (as 64-bit words), and no SKU appears or
  disappears.
\<close>

theorem units_conserved:
  assumes "InventoryRepository_Reserve ctx now rid sku q r = (Inr v, r') \<or>
           InventoryRepository_Release ctx now rid r = (Inr v, r')"
  shows "map_option (\<lambda>i. AvailableQuantity i + ReservedQuantity i) (fmlookup (stock r') k) =
         map_option (\<lambda>i. AvailableQuantity i + ReservedQuantity i) (fmlookup (stock r) k)"
  using assms
  by (auto simp: Reserve_Inr Release_Inr Service_Reserve_Inr Service_Release_Inr)

theorem units_conserved_witness:
  "map_option (\<lambda>i. AvailableQuantity i + ReservedQuantity i) (fmlookup (stock sample_reserved) ''sku-1'') =
     Some 10"
proof -
  have "InventoryRepository_Reserve Background zero_time ''res-1'' ''sku-1'' 4 sample_repository =
    (Inr \<lparr>ID = ''res-1'', res_SKU = ''sku-1'', Quantity = 4,
        Status = ''active'', CreatedAt = UTC zero_time, ReleasedAt = None\<rparr>, sample_reserved)"
    by (simp add: sample_reserved_eq sample_repository_def erp_defs trim_defs normalizedIdentifier_def)
  from units_conserved [OF disjI1 [OF this], of "''sku-1''"] show ?thesis
    by (simp add: sample_repository_def)
qed

text \<open>
  Property C12. An active reservation can always be released: from a bounded well-formed state
  and with a live context, \<open>Release\<close> succeeds, marks the reservation released at the current
  UTC time, moves exactly its units from reserved to available and touches nothing else.
\<close>

theorem release_active_reservation:
  assumes "repo_ok r" and "ctx_Err ctx = None"
    and "fmlookup (reservations r) (TrimSpace rid) = Some v"
    and "Status v = ReservationStatusActive"
  shows "\<exists>i i' v'. fmlookup (stock r) (res_SKU v) = Some i \<and>
    v' = v\<lparr>Status := ReservationStatusReleased, ReleasedAt := Some (UTC now)\<rparr> \<and>
    item_SKU i' = item_SKU i \<and>
    sint (AvailableQuantity i') = sint (AvailableQuantity i) + sint (Quantity v) \<and>
    sint (ReservedQuantity i') = sint (ReservedQuantity i) - sint (Quantity v) \<and>
    InventoryRepository_Release ctx now rid r =
      (Inr v', \<lparr>stock = fmupd (res_SKU v) i' (stock r),
                reservations = fmupd (TrimSpace rid) v' (reservations r)\<rparr>)"
proof -
  have wf: "repo_wf r" using assms(1) by (simp add: repo_ok_def)
  have v: "TrimSpace rid \<noteq> ''''" "0 < sint (Quantity v)"
    using repo_wf_reservationD [OF wf assms(3)] by (auto simp: reservation_entry_ok_def)
  show ?thesis
  proof (rule Release_entry [OF assms(1,2) v(1) assms(3), of now])
    fix i assume i: "fmlookup (stock r) (res_SKU v) = Some i" "stock_fits i"
    let ?i = "i\<lparr>AvailableQuantity := AvailableQuantity i + Quantity v,
      ReservedQuantity := ReservedQuantity i - Quantity v\<rparr>"
    let ?v = "v\<lparr>Status := ReservationStatusReleased, ReleasedAt := Some (UTC now)\<rparr>"
    assume "InventoryRepository_Release ctx now rid r =
      (if Status v \<noteq> ReservationStatusActive then (Inl (Sentinel ErrReservationNotActive), r)
       else (Inr ?v, r\<lparr>stock := fmupd (res_SKU v) ?i (stock r),
               reservations := fmupd (TrimSpace rid) ?v (reservations r)\<rparr>))"
    with assms(4) have eq: "InventoryRepository_Release ctx now rid r =
      (Inr ?v, \<lparr>stock = fmupd (res_SKU v) ?i (stock r),
               reservations = fmupd (TrimSpace rid) ?v (reservations r)\<rparr>)" by simp
    have "sint (AvailableQuantity ?i) = sint (AvailableQuantity i) + sint (Quantity v)"
      "sint (ReservedQuantity ?i) = sint (ReservedQuantity i) - sint (Quantity v)"
      using i v(2) active_reservation_covered [OF assms(1,3,4) i(1)]
      by (auto simp: stock_fits_def intro!: sint_plus_exact sint_minus_exact)
    moreover have "item_SKU ?i = item_SKU i" by simp
    ultimately show ?thesis using i(1) eq by blast
  qed
qed

theorem release_active_reservation_witness:
  "\<exists>v r'. InventoryRepository_Release Background zero_time '' res-1 '' sample_reserved = (Inr v, r') \<and>
     Status v = ReservationStatusReleased"
proof -
  let ?v = "\<lparr>ID = ''res-1'', res_SKU = ''sku-1'', Quantity = 4,
        Status = ''active'', CreatedAt = UTC zero_time, ReleasedAt = None\<rparr>"
  have "fmlookup (reservations sample_reserved) (TrimSpace '' res-1 '') = Some ?v"
    by (simp add: sample_reserved_eq trim_defs)
  from release_active_reservation [OF sample_reserved_ok ctx_Err_Background this, of zero_time]
  show ?thesis by auto
qed

section \<open>Listings\<close>

text \<open>
  Property C33. The listings do not depend on the order in which Go ranges over the maps: in
  every reachable repository, any two orders give the same list of stock items and the same
  list of reservations; the lists are sorted by SKU and by identifier and hold exactly the
  entries of the maps.
\<close>

theorem listing_deterministic:
  assumes "repo_reachable r"
    and "range_order (stock r) ks" and "range_order (stock r) ks'"
    and "range_order (reservations r) js" and "range_order (reservations r) js'"
  shows "\<exists>items vs.
    InventoryRepository_ListStock Background ks r = (Inr items, r) \<and>
    InventoryRepository_ListStock Background ks' r = (Inr items, r) \<and>
    InventoryRepository_ListReservations Background js r = (Inr vs, r) \<and>
    InventoryRepository_ListReservations Background js' r = (Inr vs, r) \<and>
    sorted (map item_SKU items) \<and> set items = {i. \<exists>sku. fmlookup (stock r) sku = Some i} \<and>
    sorted (map ID vs) \<and> set vs = {v. \<exists>rid. fmlookup (reservations r) rid = Some v}"
proof -
  have wf: "repo_wf r" by (rule repo_reachable_wf [OF assms(1)])
  have "sort_key item_SKU (range_values (stock r) ks) = sort_key item_SKU (range_values (stock r) ks')"
    using repo_wf_stockD [OF wf] assms(2,3)
    by (intro sort_range_values_unique) (auto simp: stock_entry_ok_def)
  moreover have "sort_key ID (range_values (reservations r) js) = sort_key ID (range_values (reservations r) js')"
    using repo_wf_reservationD [OF wf] assms(4,5)
    by (intro sort_range_values_unique) (auto simp: reservation_entry_ok_def)
  ultimately show ?thesis
    by (simp add: InventoryRepository_ListStock_def InventoryRepository_ListReservations_def
        set_range_values [OF assms(2)] set_range_values [OF assms(3)]
        set_range_values [OF assms(4)] set_range_values [OF assms(5)])
qed

definition default_repository :: InventoryRepository where
  "default_repository =
     \<lparr>stock = fmupd ''sku-black-bag'' \<lparr>item_SKU = ''sku-black-bag'', AvailableQuantity = 40, ReservedQuantity = 0\<rparr>
        (fmupd ''sku-blue-notebook'' \<lparr>item_SKU = ''sku-blue-notebook'', AvailableQuantity = 80, ReservedQuantity = 0\<rparr>
        (fmupd ''sku-red-mug'' \<lparr>item_SKU = ''sku-red-mug'', AvailableQuantity = 120, ReservedQuantity = 0\<rparr>
         fmempty)),
      reservations = fmempty\<rparr>"

lemma default_repository_new:
  "NewInventoryRepository (Some ()) DefaultStockSeed = Inr default_repository"
  by (simp add: default_repository_def DefaultStockSeed_def erp_defs trim_defs)

theorem listing_deterministic_witness:
  "\<exists>items. InventoryRepository_ListStock Background
       [''sku-red-mug'', ''sku-blue-notebook'', ''sku-black-bag''] default_repository =
         (Inr items, default_repository) \<and>
     InventoryRepository_ListStock Background
       [''sku-blue-notebook'', ''sku-black-bag'', ''sku-red-mug''] default_repository =
         (Inr items, default_repository) \<and>
     sorted (map item_SKU items)"
proof -
  have "range_order (stock default_repository) [''sku-red-mug'', ''sku-blue-notebook'', ''sku-black-bag'']"
    "range_order (stock default_repository) [''sku-blue-notebook'', ''sku-black-bag'', ''sku-red-mug'']"
    "range_order (reservations default_repository) []"
    by (auto simp: range_order_def default_repository_def)
  from listing_deterministic [OF reach_new [OF default_repository_new] this(1,2,3,3)]
  show ?thesis by blast
qed

section \<open>Overflow\<close>

text \<open>
  Without the bound the reserved counter wraps around. The state below is reached from a shelf
  that holds the largest \<open>int\<close>: all of it is reserved, one unit is restocked and reserved too.
\<close>

definition overflow_shelf :: "go_int \<Rightarrow> go_int \<Rightarrow> (string, Reservation) fmap \<Rightarrow> InventoryRepository" where
  "overflow_shelf a b vs =
     \<lparr>stock = fmupd ''sku-1'' \<lparr>item_SKU = ''sku-1'', AvailableQuantity = a, ReservedQuantity = b\<rparr> fmempty,
      reservations = vs\<rparr>"

definition overflow_res :: "string \<Rightarrow> go_int \<Rightarrow> Reservation" where
  "overflow_res rid q = \<lparr>ID = rid, res_SKU = ''sku-1'', Quantity = q, Status = ''active'',
     CreatedAt = UTC zero_time, ReleasedAt = None\<rparr>"

definition overflow_repository :: InventoryRepository where
  "overflow_repository = overflow_shelf 0 (9223372036854775807 + 1)
     (fmupd ''res-2'' (overflow_res ''res-2'' 1)
       (fmupd ''res-1'' (overflow_res ''res-1'' 9223372036854775807) fmempty))"

lemmas overflow_defs = overflow_repository_def overflow_shelf_def overflow_res_def

lemma overflow_repository_reachable: "repo_reachable overflow_repository"
proof -
  let ?max = "9223372036854775807 :: go_int"
  let ?v1 = "fmupd ''res-1'' (overflow_res ''res-1'' ?max) fmempty"
  have "NewInventoryRepository (Some ()) [\<lparr>seed_SKU = ''sku-1'', seed_AvailableQuantity = ?max\<rparr>] =
      Inr (overflow_shelf ?max 0 fmempty)"
    by (simp add: overflow_defs erp_defs trim_defs)
  then have 0: "repo_reachable (overflow_shelf ?max 0 fmempty)" by (rule reach_new)
  have "InventoryRepository_Reserve Background zero_time ''res-1'' ''sku-1'' ?max (overflow_shelf ?max 0 fmempty) =
      (Inr (overflow_res ''res-1'' ?max), overflow_shelf 0 ?max ?v1)"
    by (simp add: overflow_defs erp_defs trim_defs normalizedIdentifier_def)
  with 0 have 1: "repo_reachable (overflow_shelf 0 ?max ?v1)" by (blast intro: reach_step step_reserve)
  have "InventoryRepository_SetStock Background ''sku-1'' 1 (overflow_shelf 0 ?max ?v1) =
      (Inr \<lparr>item_SKU = ''sku-1'', AvailableQuantity = 1, ReservedQuantity = ?max\<rparr>, overflow_shelf 1 ?max ?v1)"
    by (simp add: overflow_defs erp_defs trim_defs)
  with 1 have 2: "repo_reachable (overflow_shelf 1 ?max ?v1)" by (blast intro: reach_step step_set_stock)
  have "InventoryRepository_Reserve Background zero_time ''res-2'' ''sku-1'' 1 (overflow_shelf 1 ?max ?v1) =
      (Inr (overflow_res ''res-2'' 1), overflow_repository)"
    by (simp add: overflow_defs erp_defs trim_defs normalizedIdentifier_def)
  with 2 show ?thesis by (blast intro: reach_step step_reserve)
qed


end
