(* ===== verification/Reservation_Service.thy ===== *)
theory Reservation_Service
  imports Release_Handlers Inventory_Ledger
begin

text \<open>
  The handlers as \<open>run\<close> wires them (cmd/erp-mock/main.go): the failure-simulation handler with
  its own store around the inventory handler with a second store and the in-memory repository,
  and the delaying release handler around the inventory release handler with a third store.
  The contracts of the handlers are instantiated on the in-memory store and repository, and
  the properties of the decisions are stated over them.
\<close>

type_synonym reservation_state =
  "ReservationResult IdempotencyStore \<times> (ReservationResult IdempotencyStore \<times> InventoryRepository)"

type_synonym release_state = "ReservationReleaseResult IdempotencyStore \<times> InventoryRepository"

type_synonym 'v awaiting = "go_context \<Rightarrow> string \<Rightarrow> 'v result"

definition inventoryReservationHandler ::
  "ReservationResult awaiting \<Rightarrow> go_time \<Rightarrow> go_context \<Rightarrow> ReservationRequest \<Rightarrow>
   (ReservationResult, ReservationResult IdempotencyStore \<times> InventoryRepository) op" where
  "inventoryReservationHandler await =
     InventoryReservationHandler_HandleReservationRequested (IdempotencyStore_Execute await)
       InventoryRepository_Reserve"

definition reservationHandler ::
  "ReservationResult awaiting \<Rightarrow> ReservationResult awaiting \<Rightarrow> go_time simulation \<Rightarrow> go_context \<Rightarrow>
   ReservationRequest \<Rightarrow> (ReservationResult, reservation_state) op" where
  "reservationHandler await_outer await =
     FailureSimulationReservationHandler_HandleReservationRequested
       (IdempotencyStore_Execute await_outer) (inventoryReservationHandler await)"

definition releaseHandler ::
  "ReservationReleaseResult awaiting \<Rightarrow> go_time simulation \<Rightarrow> go_context \<Rightarrow>
   ReservationReleaseRequest \<Rightarrow> (ReservationReleaseResult, release_state) op" where
  "releaseHandler await =
     FailureSimulationReservationReleaseHandler_HandleReservationReleaseRequested
       (InventoryReservationReleaseHandler_HandleReservationReleaseRequested
         (IdempotencyStore_Execute await) InventoryRepository_Release)"

lemmas service_defs [erp_defs] =
  inventoryReservationHandler_def reservationHandler_def releaseHandler_def
  IdempotencyStore_Execute_def

text \<open>Between two deliveries nothing is in flight and the repository is well formed.\<close>

definition reservation_state_ok :: "reservation_state \<Rightarrow> bool" where
  "reservation_state_ok = (\<lambda>(outer, inner, r). inFlight outer = {||} \<and> inFlight inner = {||} \<and> repo_ok r)"

definition release_state_ok :: "release_state \<Rightarrow> bool" where
  "release_state_ok = (\<lambda>(st, r). inFlight st = {||} \<and> repo_ok r)"

interpretation inventory_service: reservation_handling
  "IdempotencyStore_Execute await" "\<lambda>st. fmlookup (entries st)" "\<lambda>st. inFlight st = {||}"
  repo_ok set_stock_fits InventoryRepository_SetStock InventoryRepository_GetStock
  InventoryRepository_Reserve InventoryRepository_Release InventoryRepository_GetReservation
  for await ..

interpretation simulated_service: failure_simulation
  "InventoryReservationHandler_HandleReservationRequested (IdempotencyStore_Execute await)
     InventoryRepository_Reserve"
  "\<lambda>(st, s). inFlight st = {||} \<and> repo_ok s" "\<lambda>(st, s). fmlookup (entries st)"
  "IdempotencyStore_Execute await_outer" "\<lambda>st. fmlookup (entries st)" "\<lambda>st. inFlight st = {||}"
  for await_outer await ..

interpretation release_service: release_handling
  "IdempotencyStore_Execute await" "\<lambda>st. fmlookup (entries st)" "\<lambda>st. inFlight st = {||}"
  repo_ok set_stock_fits InventoryRepository_SetStock InventoryRepository_GetStock
  InventoryRepository_Reserve InventoryRepository_Release InventoryRepository_GetReservation
  for await ..

interpretation delayed_release_service: delayed_release
  "InventoryReservationReleaseHandler_HandleReservationReleaseRequested
     (IdempotencyStore_Execute await) InventoryRepository_Release"
  "\<lambda>(st, s). inFlight st = {||} \<and> repo_ok s" "\<lambda>(st, s). fmlookup (entries st)"
  for await ..

text \<open>The contracts once more, over the wired handlers.\<close>

interpretation reservations: reservation_request_handler
  "reservationHandler await_outer await" reservation_state_ok "\<lambda>(outer, _). fmlookup (entries outer)"
  for await_outer await
proof -
  have "reservation_state_ok = (\<lambda>(st, s). inFlight st = {||} \<and>
      (case s of (st, s) \<Rightarrow> inFlight st = {||} \<and> repo_ok s))"
    by (auto simp: reservation_state_ok_def fun_eq_iff)
  then show "reservation_request_handler (reservationHandler await_outer await) reservation_state_ok
      (\<lambda>(outer, _). fmlookup (entries outer))"
    using simulated_service.simulated.reservation_request_handler_axioms [of await_outer await]
    by (simp add: reservationHandler_def inventoryReservationHandler_def)
qed

interpretation releases: release_request_handler
  "releaseHandler await" release_state_ok "\<lambda>(st, _). fmlookup (entries st)"
  for await
  using delayed_release_service.simulated.release_request_handler_axioms [of await]
  by (simp add: releaseHandler_def release_state_ok_def)


section \<open>Decisions on reservation requests\<close>

lemma Reserve_rejected:
  assumes "standard_context ctx" and "repo_ok r"
    and "InventoryRepository_Reserve ctx now rid sku q r = (Inl e, r')"
    and "errors_Is e ErrInsufficientStock \<or> errors_Is e ErrStockItemNotFound"
  shows "case fmlookup (stock r) (TrimSpace sku) of
    None \<Rightarrow> True | Some i \<Rightarrow> sint (AvailableQuantity i) < sint q"
  using assms(3,4) standard_context_Err [OF assms(1)]
  by (auto simp: InventoryRepository_Reserve_def normalizedIdentifier_def Service_Reserve_def Let_def
      repo_bounded_valid [OF assms(2)]
      simp del: StockItem_validate.simps split: option.splits sum.splits prod.splits if_splits)

lemma inventory_first_decision:
  assumes "standard_context ctx" and "repo_ok r"
    and "InventoryReservationHandler_reserve InventoryRepository_Reserve now ctx q r = (Inr res, r')"
  shows "Decision res = ReservationDecisionConfirmed \<and>
      InventoryRepository_Reserve ctx now (ReservationID q) (req_SKU q) (req_Quantity q) r =
        (Inr (result_Reservation res), r') \<or>
    Decision res = ReservationDecisionRejected \<and> r' = r \<and>
      RejectionReason res = ReservationRejectionReasonInsufficientStock \<and>
      (case fmlookup (stock r) (TrimSpace (req_SKU q)) of
         None \<Rightarrow> True | Some i \<Rightarrow> sint (AvailableQuantity i) < sint (req_Quantity q))"
  using assms(3) Reserve_rejected [OF assms(1,2)]
  by (auto simp: InventoryReservationHandler_reserve_def dest: Reserve_Inl
      split: prod.splits sum.splits if_splits)



text \<open>
  Property C6. The first decision on a request is right. A confirmation means that the
  failure mode let the request through, the SKU had the units, the identifier was free, and
  now an active reservation of exactly these units is on record and the units have moved from
  available to reserved. A rejection leaves stock and reservations untouched; its reason is
  \<open>FAILURE_MODE\<close> only if the simulation rejects, and \<open>INSUFFICIENT_STOCK\<close> only if the SKU is
  unknown or has fewer units than requested.
\<close>

theorem reservation_decision:
  assumes "reservation_state_ok (outer, inner, r)" and "standard_context ctx"
    and "fmlookup (entries outer) (TrimSpace (IdempotencyKey (req_Metadata q))) = None"
    and "fmlookup (entries inner) (TrimSpace (IdempotencyKey (req_Metadata q))) = None"
    and "reservationHandler await_outer await env ctx q (outer, inner, r) = (Inr res, (outer', inner', r'))"
  shows "(Decision res = ReservationDecisionConfirmed \<and>
      \<not> shouldReject (randomFloat env) (FailureModeController_Get (failureModes env)) \<and>
      (\<exists>i. fmlookup (stock r) (TrimSpace (req_SKU q)) = Some i \<and>
        0 < sint (req_Quantity q) \<and> sint (req_Quantity q) \<le> sint (AvailableQuantity i) \<and>
        fmlookup (stock r') (TrimSpace (req_SKU q)) =
          Some (i\<lparr>AvailableQuantity := AvailableQuantity i - req_Quantity q,
                  ReservedQuantity := ReservedQuantity i + req_Quantity q\<rparr>)) \<and>
      fmlookup (reservations r) (TrimSpace (ReservationID q)) = None \<and>
      fmlookup (reservations r') (TrimSpace (ReservationID q)) = Some (result_Reservation res) \<and>
      Status (result_Reservation res) = ReservationStatusActive \<and>
      res_SKU (result_Reservation res) = TrimSpace (req_SKU q) \<and>
      Quantity (result_Reservation res) = req_Quantity q) \<or>
    (Decision res = ReservationDecisionRejected \<and> r' = r \<and>
      (RejectionReason res = ReservationRejectionReasonFailureMode \<and>
         shouldReject (randomFloat env) (FailureModeController_Get (failureModes env)) \<or>
       RejectionReason res = ReservationRejectionReasonInsufficientStock \<and>
         (case fmlookup (stock r) (TrimSpace (req_SKU q)) of
            None \<Rightarrow> True | Some i \<Rightarrow> sint (AvailableQuantity i) < sint (req_Quantity q))))"
proof -
  let ?reject = "shouldReject (randomFloat env) (FailureModeController_Get (failureModes env))"
  have ok: "inFlight outer = {||}" "inFlight inner = {||}" "repo_ok r"
    using assms(1) by (simp_all add: reservation_state_ok_def)
  note h = assms(5) [unfolded reservationHandler_def inventoryReservationHandler_def]
  have d: "simulated_service.decide await env ctx q (inner, r) = (Inr res, (inner', r'))"
    by (rule simulated_service.simulated_value_cases [OF ok(1) _ h]) (use ok assms(3) in auto)
  show ?thesis
  proof (cases ?reject)
    case True
    with d show ?thesis by auto
  next
    case False
    with d have d: "InventoryReservationHandler_HandleReservationRequested
        (IdempotencyStore_Execute await) InventoryRepository_Reserve (inner_env env) (ctx_next ctx) q
        (inner, r) = (Inr res, (inner', r'))" by simp
    obtain v where v: "InventoryReservationHandler_reserve InventoryRepository_Reserve (inner_env env)
        (ctx_next (ctx_next ctx)) q r = (Inr v, r')"
      and res: "res = v\<lparr>IdempotencyHit := False, Request := q\<rparr>"
      by (rule inventory_service.handle_value_cases [OF ok(2,3) d]) (use assms(4) in auto)
    from assms(2) have "standard_context (ctx_next (ctx_next ctx))"
      by (intro standard_context_next)
    from inventory_first_decision [OF this ok(3) v] False res ok(3) show ?thesis
      by (auto simp: Reserve_Inr Service_Reserve_Inr repo_ok_def stock_entry_ok_def
          dest: repo_wf_stockD simp del: StockItem_validate.simps)
  qed
qed

text \<open>
  Property C28. A failed reservation request leaves no trace: whatever the error (a blank key, a
  cancelled context, a conflict, a duplicate reservation, a bad argument), both stores, the stock
  and the reservations are as they were, so a retry starts from the same state.
\<close>

theorem reservation_failure_no_effect:
  assumes "reservation_state_ok s"
    and "reservationHandler await_outer await env ctx q s = (Inl e, s')"
  shows "s' = s"
  by (rule reservations.handle_failed [OF assms])


section \<open>Decisions on release requests\<close>

lemma Release_absent:
  assumes "ctx_Err ctx = None" and "TrimSpace rid \<noteq> ''''"
    and "fmlookup (reservations r) (TrimSpace rid) = None"
  shows "InventoryRepository_Release ctx now rid r =
    (Inl (Wrapf [] (Sentinel ErrReservationNotFound) [Lit '': reservation '', Quoted (TrimSpace rid)]), r)"
  using assms by (simp add: InventoryRepository_Release_def normalizedIdentifier_def)

lemma release_first_decision:
  assumes "repo_ok r" and "TrimSpace (rel_ReservationID q) \<noteq> ''''"
  obtains res r' where
    "InventoryReservationReleaseHandler_release InventoryRepository_Release now Background q r = (Inr res, r')"
    "rel_Request res = q"
    "case fmlookup (reservations r) (TrimSpace (rel_ReservationID q)) of
       None \<Rightarrow> rel_Decision res = ReservationReleaseDecisionFailed \<and>
         FailureReason res = ReservationReleaseFailureReasonNotFound \<and> r' = r
     | Some v \<Rightarrow>
         (if Status v = ReservationStatusActive
          then rel_Decision res = ReservationReleaseDecisionReleased \<and>
            rel_Reservation res = v\<lparr>Status := ReservationStatusReleased, ReleasedAt := Some (UTC now)\<rparr> \<and>
            fmlookup (reservations r') (TrimSpace (rel_ReservationID q)) = Some (rel_Reservation res)
          else rel_Decision res = ReservationReleaseDecisionFailed \<and>
            FailureReason res = ReservationReleaseFailureReasonNotActive \<and> r' = r)"
proof (cases "fmlookup (reservations r) (TrimSpace (rel_ReservationID q))")
  case None
  then show thesis using that
    by (simp add: InventoryReservationReleaseHandler_release_def Release_absent [OF _ assms(2)])
next
  case (Some v)
  show thesis
  proof (cases "Status v = ReservationStatusActive")
    case True
    let ?v = "v\<lparr>Status := ReservationStatusReleased, ReleasedAt := Some (UTC now)\<rparr>"
    obtain r' where "InventoryRepository_Release Background now (rel_ReservationID q) r = (Inr ?v, r')"
      "fmlookup (reservations r') (TrimSpace (rel_ReservationID q)) = Some ?v"
      by (rule Release_entry [OF assms(1) _ assms(2) Some, of Background now]) (use True in simp_all)
    then show thesis using True Some
      by - (rule that, simp add: InventoryReservationReleaseHandler_release_def, simp_all)
  next
    case False
    have "InventoryRepository_Release Background now (rel_ReservationID q) r =
        (Inl (Sentinel ErrReservationNotActive), r)"
      by (rule Release_entry [OF assms(1) _ assms(2) Some, of Background now]) (use False in simp_all)
    then show thesis using False Some
      by - (rule that, simp add: InventoryReservationReleaseHandler_release_def, simp_all)
  qed
qed

lemma releaseHandler_fresh:
  assumes "inFlight st = {||}" and "TrimSpace (IdempotencyKey (rel_Metadata q)) \<noteq> ''''"
    and "fmlookup (entries st) (TrimSpace (IdempotencyKey (rel_Metadata q))) = None"
    and "InventoryReservationReleaseHandler_release InventoryRepository_Release (inner_env env) Background q r =
      (Inr res, r')" and "rel_Request res = q"
  shows "\<exists>st'. releaseHandler await env Background q (st, r) =
    (Inr (res\<lparr>rel_IdempotencyHit := False\<rparr>), (st', r')) \<and> inFlight st' = {||} \<and>
    fmlookup (entries st') = (fmlookup (entries st))(TrimSpace (IdempotencyKey (rel_Metadata q)) \<mapsto> res)"
proof -
  from memory_store.miss_value [where operation = "InventoryReservationReleaseHandler_release
      InventoryRepository_Release (inner_env env) Background q", OF assms(2) ctx_Err_Background assms(1,3,4),
      of await]
  obtain st' where st': "IdempotencyStore_Execute await Background (IdempotencyKey (rel_Metadata q))
      (InventoryReservationReleaseHandler_release InventoryRepository_Release (inner_env env) Background q)
      (st, r) = (Inr (res, False), (st', r'))" "inFlight st' = {||}"
    "fmlookup (entries st') = (fmlookup (entries st))(TrimSpace (IdempotencyKey (rel_Metadata q)) \<mapsto> res)"
    by blast
  have "res\<lparr>rel_IdempotencyHit := False, rel_Request := q\<rparr> = res\<lparr>rel_IdempotencyHit := False\<rparr>"
    using assms(5) by (cases res) simp
  with st' assms(5) show ?thesis
    by (auto simp: releaseHandler_def waitForProcessingDelay_live
        FailureSimulationReservationReleaseHandler_HandleReservationReleaseRequested_def
        InventoryReservationReleaseHandler_HandleReservationReleaseRequested_def)
qed

text \<open>
  Property C16. Every fresh release request is answered, and rightly: an unknown reservation
  gives \<open>RESERVATION_NOT_FOUND\<close> and one that is not active \<open>RESERVATION_NOT_ACTIVE\<close>, both with
  the repository untouched; an active one is released, the answer carries it with its release
  time, and that is what the repository holds from then on.
\<close>

theorem release_decision:
  assumes "release_state_ok (st, r)" and "TrimSpace (rel_ReservationID q) \<noteq> ''''"
    and "TrimSpace (IdempotencyKey (rel_Metadata q)) \<noteq> ''''"
    and "fmlookup (entries st) (TrimSpace (IdempotencyKey (rel_Metadata q))) = None"
  shows "\<exists>res st' r'. releaseHandler await env Background q (st, r) = (Inr res, (st', r')) \<and>
    (case fmlookup (reservations r) (TrimSpace (rel_ReservationID q)) of
       None \<Rightarrow> rel_Decision res = ReservationReleaseDecisionFailed \<and>
         FailureReason res = ReservationReleaseFailureReasonNotFound \<and> r' = r
     | Some v \<Rightarrow>
         (if Status v = ReservationStatusActive
          then rel_Decision res = ReservationReleaseDecisionReleased \<and>
            rel_Reservation res = v\<lparr>Status := ReservationStatusReleased,
              ReleasedAt := Some (UTC (inner_env env))\<rparr> \<and>
            fmlookup (reservations r') (TrimSpace (rel_ReservationID q)) = Some (rel_Reservation res)
          else rel_Decision res = ReservationReleaseDecisionFailed \<and>
            FailureReason res = ReservationReleaseFailureReasonNotActive \<and> r' = r))"
proof -
  have ok: "inFlight st = {||}" "repo_ok r" using assms(1) by (simp_all add: release_state_ok_def)
  from release_first_decision [OF ok(2) assms(2), of "inner_env env"] obtain res r' where
    d: "InventoryReservationReleaseHandler_release InventoryRepository_Release (inner_env env) Background q r =
      (Inr res, r')" "rel_Request res = q"
    and c: "case fmlookup (reservations r) (TrimSpace (rel_ReservationID q)) of
       None \<Rightarrow> rel_Decision res = ReservationReleaseDecisionFailed \<and>
         FailureReason res = ReservationReleaseFailureReasonNotFound \<and> r' = r
     | Some v \<Rightarrow>
         (if Status v = ReservationStatusActive
          then rel_Decision res = ReservationReleaseDecisionReleased \<and>
            rel_Reservation res = v\<lparr>Status := ReservationStatusReleased,
              ReleasedAt := Some (UTC (inner_env env))\<rparr> \<and>
            fmlookup (reservations r') (TrimSpace (rel_ReservationID q)) = Some (rel_Reservation res)
          else rel_Decision res = ReservationReleaseDecisionFailed \<and>
            FailureReason res = ReservationReleaseFailureReasonNotActive \<and> r' = r)" by blast
  from releaseHandler_fresh [OF ok(1) assms(3,4) d] obtain st' where
    "releaseHandler await env Background q (st, r) = (Inr (res\<lparr>rel_IdempotencyHit := False\<rparr>), (st', r'))"
    by blast
  with c show ?thesis by (auto split: option.splits)
qed



section \<open>A concrete run\<close>

definition never_awaited :: "'v awaiting" where
  "never_awaited = (\<lambda>_ _. Inl (Sentinel ContextCanceled))"

definition sample_metadata :: "string \<Rightarrow> MessageMetadata" where
  "sample_metadata key = \<lparr>MessageID = ''m'', CorrelationID = ''c'', CausationID = '''',
     IdempotencyKey = key, OccurredAt = zero_time, SchemaVersion = 1, RetryCount = 0\<rparr>"

definition sample_request :: ReservationRequest where
  "sample_request = \<lparr>req_Metadata = sample_metadata ''key-1'', ReservationID = ''res-1'',
     OrderID = ''order-1'', req_SKU = ''sku-1'', req_Quantity = 4\<rparr>"

definition sample_release :: "string \<Rightarrow> ReservationReleaseRequest" where
  "sample_release key = \<lparr>rel_Metadata = sample_metadata key, rel_ReservationID = ''res-1'',
     Reason = ''cancelled''\<rparr>"

definition sample_env :: "go_time simulation" where
  "sample_env = \<lparr>failureModes = NewFailureModeController, timerFirst = True, randomFloat = Finite 0,
     inner_env = zero_time\<rparr>"

definition sample_reservation :: Reservation where
  "sample_reservation = \<lparr>ID = ''res-1'', res_SKU = ''sku-1'', Quantity = 4, Status = ''active'',
     CreatedAt = UTC zero_time, ReleasedAt = None\<rparr>"

definition sample_result :: ReservationResult where
  "sample_result = \<lparr>Decision = ''confirmed'', IdempotencyHit = False, Request = sample_request,
     result_Reservation = sample_reservation, RejectionReason = ''''\<rparr>"

definition sample_release_result :: ReservationReleaseResult where
  "sample_release_result = \<lparr>rel_Decision = ''released'', FailureReason = '''',
     rel_IdempotencyHit = False, rel_Request = sample_release ''key-2'',
     rel_Reservation = sample_reservation\<lparr>Status := ''released'', ReleasedAt := Some (UTC zero_time)\<rparr>\<rparr>"

lemmas sample_defs = sample_metadata_def sample_request_def sample_release_def sample_env_def
  sample_reservation_def sample_result_def sample_release_result_def sample_repository_def

lemma fresh_reservation_state_ok: "reservation_state_ok (NewIdempotencyStore, NewIdempotencyStore, sample_repository)"
  by (simp add: reservation_state_ok_def sample_repository_ok)

lemma sample_run:
  "\<exists>outer inner r. reservationHandler never_awaited never_awaited sample_env Background sample_request
     (NewIdempotencyStore, NewIdempotencyStore, sample_repository) = (Inr sample_result, (outer, inner, r))"
  by (simp add: erp_defs sample_defs trim_defs normalizedIdentifier_def)

lemma sample_release_run:
  "\<exists>st' r'. releaseHandler never_awaited sample_env Background (sample_release ''key-2'')
     (NewIdempotencyStore, sample_reserved) = (Inr sample_release_result, (st', r')) \<and>
     fmlookup (entries st') ''key-3'' = None"
  by (simp add: erp_defs sample_defs sample_reserved_eq trim_defs normalizedIdentifier_def)

lemma fresh_release_state_ok: "release_state_ok (NewIdempotencyStore, sample_reserved)"
  by (simp add: release_state_ok_def sample_reserved_ok)

lemma sample_key_trim [simp]:
  "TrimSpace ''key-1'' = ''key-1''" "TrimSpace ''key-2'' = ''key-2''" "TrimSpace ''key-3'' = ''key-3''"
  "TrimSpace ''res-1'' = ''res-1''" "TrimSpace ''sku-1'' = ''sku-1''"
  by (simp_all add: trim_defs)


theorem reservation_decision_witness:
  "\<exists>outer inner r. reservationHandler never_awaited never_awaited sample_env Background sample_request
       (NewIdempotencyStore, NewIdempotencyStore, sample_repository) = (Inr sample_result, (outer, inner, r)) \<and>
     fmlookup (reservations r) ''res-1'' = Some sample_reservation"
proof -
  from sample_run obtain outer inner r where s': "reservationHandler never_awaited never_awaited
      sample_env Background sample_request (NewIdempotencyStore, NewIdempotencyStore, sample_repository) =
      (Inr sample_result, (outer, inner, r))" by blast
  have "fmlookup (reservations r) (TrimSpace (ReservationID sample_request)) = Some sample_reservation"
    using reservation_decision [OF fresh_reservation_state_ok _ _ _ s'] by (simp add: sample_result_def)
  with s' show ?thesis by (simp add: sample_request_def)
qed

theorem reservation_failure_no_effect_witness:
  "\<exists>e. reservationHandler never_awaited never_awaited sample_env Background
       (sample_request\<lparr>req_Quantity := 0\<rparr>) (NewIdempotencyStore, NewIdempotencyStore, sample_repository) =
     (Inl e, (NewIdempotencyStore, NewIdempotencyStore, sample_repository))"
proof -
  have "\<exists>e s'. reservationHandler never_awaited never_awaited sample_env Background
       (sample_request\<lparr>req_Quantity := 0\<rparr>) (NewIdempotencyStore, NewIdempotencyStore, sample_repository) =
     (Inl e, s')"
    by (simp add: erp_defs sample_defs trim_defs normalizedIdentifier_def)
  with reservation_failure_no_effect [OF fresh_reservation_state_ok] show ?thesis by blast
qed

theorem release_decision_witness:
  "\<exists>res st' r'. releaseHandler never_awaited sample_env Background (sample_release ''key-2'')
      (NewIdempotencyStore, sample_reserved) = (Inr res, (st', r')) \<and>
    rel_Decision res = ReservationReleaseDecisionReleased"
  using release_decision [OF fresh_release_state_ok, of "sample_release ''key-2''" never_awaited sample_env]
  by (fastforce simp: sample_release_def sample_metadata_def sample_reserved_eq)


end
