(* ===== verification/Dlq_Admin.thy ===== *)
theory Dlq_Admin
  imports Publish_Contract Consumer
begin

text \<open>
  Administration of the dead-letter queues (internal/app/dead_letter.go and
  internal/messaging/rabbitmq/admin.go): the queue names and configurations, their depth, and
  the loop that moves messages back to the request queues. The admin's mutex makes each call
  atomic. The locale \<open>dead_letter_admin\<close> is the contract of the Go interface \<open>DeadLetterAdmin\<close>
  that the HTTP server and the metrics rely on.
\<close>

type_synonym DeadLetterQueue = string

abbreviation DeadLetterQueueReservationRequests :: DeadLetterQueue where
  "DeadLetterQueueReservationRequests \<equiv> ''reservation_requests''"
abbreviation DeadLetterQueueReservationReleaseRequests :: DeadLetterQueue where
  "DeadLetterQueueReservationReleaseRequests \<equiv> ''reservation_release_requests''"

abbreviation maxRequeueLimit :: go_int where "maxRequeueLimit \<equiv> 100"

record deadLetterQueueConfig =
  dlq_name :: string
  dlq_routingKey :: string

definition deadLetterConfig :: "DeadLetterQueue \<Rightarrow> deadLetterQueueConfig result" where
  "deadLetterConfig queue =
     (if queue = DeadLetterQueueReservationRequests
      then Inr \<lparr>dlq_name = ReservationRequestedDeadLetterQueueName,
                dlq_routingKey = ReservationRequestedRoutingKey\<rparr>
      else if queue = DeadLetterQueueReservationReleaseRequests
      then Inr \<lparr>dlq_name = ReservationReleaseRequestedDeadLetterQueueName,
                dlq_routingKey = ReservationReleaseRequestedRoutingKey\<rparr>
      else Inl (Wrapf [] (Sentinel ErrInvalidDeadLetterQueue) [Lit '': '', Quoted queue]))"

fun depth_loop ::
  "'b world_ops \<Rightarrow> DeadLetterQueue list \<Rightarrow> (DeadLetterQueue, go_int) fmap \<Rightarrow> 'b world \<Rightarrow>
   (DeadLetterQueue, go_int) fmap result \<times> 'b world" where
  "depth_loop ops [] depth w = (Inr depth, w)"
| "depth_loop ops (queue # queues) depth w =
     (case deadLetterConfig queue of
        Inl err \<Rightarrow> (Inl err, w)
      | Inr config \<Rightarrow>
          (case observe (amqp_Messages ops AdminClient (dlq_name config) True) w of
             (Inl err, w') \<Rightarrow>
               (Inl (Wrapf [Lit ''inspect RabbitMQ dead-letter queue '', Quoted (dlq_name config), Lit '': ''] err []), w')
           | (Inr messages, w') \<Rightarrow> depth_loop ops queues (fmupd queue messages depth) w'))"

definition Admin_DLQDepth ::
  "'b world_ops \<Rightarrow> go_context \<Rightarrow> 'b world \<Rightarrow> (DeadLetterQueue, go_int) fmap result \<times> 'b world" where
  "Admin_DLQDepth ops ctx w =
     (case ctx_Err ctx of
        Some err \<Rightarrow> (Inl err, w)
      | None \<Rightarrow> depth_loop ops [DeadLetterQueueReservationRequests, DeadLetterQueueReservationReleaseRequests]
                  fmempty w)"

definition Admin_publishWithConfirmation ::
  "'b world_ops \<Rightarrow> go_context \<Rightarrow> string \<Rightarrow> Publishing \<Rightarrow> 'b step" where
  "Admin_publishWithConfirmation ops ctx routingKey publishing w =
     (case perform (amqp_Publish ops AdminClient ctx InventoryExchangeName routingKey publishing)
             (Published AdminClient InventoryExchangeName routingKey publishing) w of
        (Some err, w') \<Rightarrow> (Some (Wrapf [Lit ''requeue RabbitMQ dead-letter message: ''] err []), w')
      | (None, w') \<Rightarrow>
          (case perform (amqp_Confirmation ops AdminClient ctx) (Awaited AdminClient) w' of
             (ConfirmationsClosed, w'') \<Rightarrow>
               (Some (Errorf [Lit ''wait for RabbitMQ dead-letter requeue confirmation: channel closed'']), w'')
           | (Confirmation tag positive, w'') \<Rightarrow>
               (if \<not> positive
                then (Some (Errorf [Lit ''wait for RabbitMQ dead-letter requeue confirmation: message was not acknowledged'']), w'')
                else (None, w''))
           | (PublishContextDone err, w'') \<Rightarrow>
               (Some (Wrapf [Lit ''wait for RabbitMQ dead-letter requeue confirmation: ''] err []), w'')))"

text \<open>
  The loop of \<open>RequeueDeadLetters\<close>, with the number of messages requeued so far. Each round asks
  the context once. The result is the count together with the error, as in Go.
\<close>

function requeue_loop ::
  "'b world_ops \<Rightarrow> deadLetterQueueConfig \<Rightarrow> go_int \<Rightarrow> go_context \<Rightarrow> go_int \<Rightarrow> 'b world \<Rightarrow>
   (go_int \<times> go_error option) \<times> 'b world" where
  "requeue_loop ops config limit ctx requeued w =
     (if \<not> sint requeued < sint limit then ((requeued, None), w)
      else case ctx_Err ctx of
        Some err \<Rightarrow> ((requeued, Some err), w)
      | None \<Rightarrow>
     (case perform (amqp_Get ops AdminClient (dlq_name config)) (Fetched AdminClient (dlq_name config)) w of
        (Inl err, w1) \<Rightarrow> ((requeued, Some (Wrapf [Lit ''get RabbitMQ dead-letter message: ''] err [])), w1)
      | (Inr None, w1) \<Rightarrow> ((requeued, None), w1)
      | (Inr (Some delivery), w1) \<Rightarrow>
     (case Admin_publishWithConfirmation ops ctx (dlq_routingKey config) (newForwardedDelivery delivery 0) w1 of
        (Some err, w2) \<Rightarrow>
          (case perform (amqp_Nack ops AdminClient (del_DeliveryTag delivery) True)
                  (Nacked AdminClient (del_DeliveryTag delivery) True) w2 of
             (Some nackErr, w3) \<Rightarrow>
               ((requeued, Some (Wrapf [] err [Lit ''; nack RabbitMQ dead-letter message: '', Shown nackErr])), w3)
           | (None, w3) \<Rightarrow> ((requeued, Some err), w3))
      | (None, w2) \<Rightarrow>
     (case perform (amqp_Ack ops AdminClient (del_DeliveryTag delivery))
             (Acked AdminClient (del_DeliveryTag delivery)) w2 of
        (Some err, w3) \<Rightarrow> ((requeued, Some (Wrapf [Lit ''ack RabbitMQ dead-letter message: ''] err [])), w3)
      | (None, w3) \<Rightarrow> requeue_loop ops config limit (ctx_next ctx) (requeued + 1) w3))))"
  by pat_completeness auto

lemma requeued_increases:
  fixes requeued limit :: go_int
  assumes "sint requeued < sint limit"
  shows "sint (requeued + 1) = sint requeued + 1"
proof -
  have "sint (1 :: go_int) = 1" by simp
  then show ?thesis
    using assms sint_range(2) [of limit] sint_range(1) [of requeued] sint_plus_exact [of requeued 1]
    by linarith
qed

termination requeue_loop
  by (relation "measure (\<lambda>(ops, config, limit, ctx, requeued, w). nat (sint limit - sint requeued))")
    (simp_all add: requeued_increases)

declare requeue_loop.simps [simp del]

definition Admin_RequeueDeadLetters ::
  "'b world_ops \<Rightarrow> go_context \<Rightarrow> DeadLetterQueue \<Rightarrow> go_int \<Rightarrow> 'b world \<Rightarrow>
   (go_int \<times> go_error option) \<times> 'b world" where
  "Admin_RequeueDeadLetters ops ctx queue limit w =
     (case deadLetterConfig queue of
        Inl err \<Rightarrow> ((0, Some err), w)
      | Inr config \<Rightarrow>
          (if sint limit \<le> 0 \<or> sint maxRequeueLimit < sint limit
           then ((0, Some (Wrapf [] (Sentinel ErrInvalidRequeueLimit)
                    [Lit '': limit must be between 1 and '', Num maxRequeueLimit])), w)
           else requeue_loop ops config limit ctx 0 w))"

section \<open>The events of a requeue\<close>

text \<open>A message moved: fetched, its copy with retry count 0 published to the request queue's
  routing key and confirmed, and only then acknowledged.\<close>

definition moved :: "deadLetterQueueConfig \<Rightarrow> Delivery \<Rightarrow> amqp_event list \<Rightarrow> bool" where
  "moved config d evs \<longleftrightarrow> (\<exists>tag. evs =
     [Fetched AdminClient (dlq_name config) (Inr (Some d)),
      Published AdminClient InventoryExchangeName (dlq_routingKey config) (newForwardedDelivery d 0) None,
      Awaited AdminClient (Confirmation tag True),
      Acked AdminClient (del_DeliveryTag d) None])"

text \<open>How the loop can end: without a further call, at the end of the queue, or at a failure,
  where a fetched message is given back unless its copy is already confirmed.\<close>

datatype requeue_end = LimitReached | ContextEnded | QueueEmpty | GetFailed | GivenBack Delivery | AckFailed Delivery

fun ended :: "deadLetterQueueConfig \<Rightarrow> requeue_end \<Rightarrow> amqp_event list \<Rightarrow> bool" where
  "ended config LimitReached evs \<longleftrightarrow> evs = []"
| "ended config ContextEnded evs \<longleftrightarrow> evs = []"
| "ended config QueueEmpty evs \<longleftrightarrow> evs = [Fetched AdminClient (dlq_name config) (Inr None)]"
| "ended config GetFailed evs \<longleftrightarrow> (\<exists>e. evs = [Fetched AdminClient (dlq_name config) (Inl e)])"
| "ended config (GivenBack d) evs \<longleftrightarrow> (\<exists>mid e. evs = Fetched AdminClient (dlq_name config) (Inr (Some d)) # mid @
     [Nacked AdminClient (del_DeliveryTag d) True e] \<and>
     (\<forall>tag. mid \<noteq> [Published AdminClient InventoryExchangeName (dlq_routingKey config)
        (newForwardedDelivery d 0) None, Awaited AdminClient (Confirmation tag True)]))"
| "ended config (AckFailed d) evs \<longleftrightarrow> (\<exists>tag e. evs =
     [Fetched AdminClient (dlq_name config) (Inr (Some d)),
      Published AdminClient InventoryExchangeName (dlq_routingKey config) (newForwardedDelivery d 0) None,
      Awaited AdminClient (Confirmation tag True),
      Acked AdminClient (del_DeliveryTag d) (Some e)])"

lemma admin_publish_events:
  assumes "Admin_publishWithConfirmation ops ctx key p w = (err, w')"
  shows "\<exists>evs. history w' = history w @ evs \<and>
    (err = None \<longleftrightarrow> (\<exists>tag. evs = [Published AdminClient InventoryExchangeName key p None,
       Awaited AdminClient (Confirmation tag True)]))"
  using assms unfolding Admin_publishWithConfirmation_def
  by (auto dest!: perform_history split: prod.splits option.splits confirmation_event.splits if_splits)

text \<open>One round of the loop: it ends, or moves one message and goes on.\<close>

lemma requeue_round:
  assumes "requeue_loop ops config limit ctx requeued w = ((n, err), w')" and "sint requeued < sint limit"
  shows "(\<exists>how evs. ended config how evs \<and> how \<noteq> LimitReached \<and> history w' = history w @ evs \<and> n = requeued \<and>
      (err = None \<longleftrightarrow> how = QueueEmpty)) \<or>
    (\<exists>d evs w1. moved config d evs \<and> history w1 = history w @ evs \<and>
      requeue_loop ops config limit (ctx_next ctx) (requeued + 1) w1 = ((n, err), w'))"
proof (cases "ctx_Err ctx")
  case (Some e)
  then have "((requeued, Some e), w) = ((n, err), w')"
    using assms by (simp add: requeue_loop.simps [of _ _ _ ctx])
  then show ?thesis by (intro disjI1 exI [of _ ContextEnded] exI [of _ "[]"]) auto
next
  case None
  obtain got w1 where got: "perform (amqp_Get ops AdminClient (dlq_name config))
      (Fetched AdminClient (dlq_name config)) w = (got, w1)" by fastforce
  note h1 = perform_history [OF got]
  note run = assms(1) [unfolded requeue_loop.simps [of _ _ _ ctx]]
  consider e where "got = Inl e" | "got = Inr None" | d where "got = Inr (Some d)"
    by (cases got) auto
  then show ?thesis
  proof cases
    case (1 e)
    with run None assms(2) got h1 show ?thesis
      by (intro disjI1 exI [of _ GetFailed] exI [of _ "[Fetched AdminClient (dlq_name config) (Inl e)]"]) auto
  next
    case 2
    with run None assms(2) got h1 show ?thesis
      by (intro disjI1 exI [of _ QueueEmpty] exI [of _ "[Fetched AdminClient (dlq_name config) (Inr None)]"]) auto
  next
    case (3 d)
    obtain perr w2 where pub: "Admin_publishWithConfirmation ops ctx (dlq_routingKey config)
        (newForwardedDelivery d 0) w1 = (perr, w2)" by fastforce
    from admin_publish_events [OF pub] obtain mid where mid: "history w2 = history w1 @ mid"
      "perr = None \<longleftrightarrow> (\<exists>tag. mid = [Published AdminClient InventoryExchangeName (dlq_routingKey config)
         (newForwardedDelivery d 0) None, Awaited AdminClient (Confirmation tag True)])" by blast
    show ?thesis
    proof (cases perr)
      case (Some e)
      with run None assms(2) got 3 pub obtain nerr where
        nack: "perform (amqp_Nack ops AdminClient (del_DeliveryTag d) True)
          (Nacked AdminClient (del_DeliveryTag d) True) w2 = (nerr, w')" "n = requeued" "err \<noteq> None"
        by (auto split: prod.splits option.splits)
      from perform_history [OF nack(1)] nack(2,3) mid Some h1 3 show ?thesis
        by (intro disjI1 exI [of _ "GivenBack d"] exI [of _ "Fetched AdminClient (dlq_name config) (Inr (Some d)) #
            mid @ [Nacked AdminClient (del_DeliveryTag d) True nerr]"]) auto
    next
      case None': None
      then obtain tag where tag: "mid = [Published AdminClient InventoryExchangeName (dlq_routingKey config)
         (newForwardedDelivery d 0) None, Awaited AdminClient (Confirmation tag True)]" using mid(2) by blast
      obtain aerr w3 where ack: "perform (amqp_Ack ops AdminClient (del_DeliveryTag d))
          (Acked AdminClient (del_DeliveryTag d)) w2 = (aerr, w3)" by fastforce
      note h3 = perform_history [OF ack]
      show ?thesis
      proof (cases aerr)
        case (Some e)
        with run None assms(2) got 3 pub None' ack h1 h3 mid(1) tag show ?thesis
          by (intro disjI1 exI [of _ "AckFailed d"] exI [of _ "Fetched AdminClient (dlq_name config) (Inr (Some d)) #
            mid @ [Acked AdminClient (del_DeliveryTag d) aerr]"]) auto
      next
        case acked: None
        with run None assms(2) got 3 pub None' ack h1 h3 mid(1) tag show ?thesis
          by (intro disjI2 exI [of _ d] exI [of _ "Fetched AdminClient (dlq_name config) (Inr (Some d)) #
            mid @ [Acked AdminClient (del_DeliveryTag d) None]"] exI [of _ w3]) (auto simp: moved_def)
      qed
    qed
  qed
qed

text \<open>The whole loop: messages moved one after the other, then the end.\<close>

definition requeued_run ::
  "deadLetterQueueConfig \<Rightarrow> Delivery list \<Rightarrow> requeue_end \<Rightarrow> amqp_event list \<Rightarrow> bool" where
  "requeued_run config ds how evs \<longleftrightarrow>
     (\<exists>blocks tail. list_all2 (moved config) ds blocks \<and> ended config how tail \<and> evs = concat blocks @ tail)"

lemma requeued_run_Nil: "ended config how evs \<Longrightarrow> requeued_run config [] how evs"
  by (auto simp: requeued_run_def)

lemma requeued_run_Cons:
  "moved config d evs \<Longrightarrow> requeued_run config ds how evs' \<Longrightarrow> requeued_run config (d # ds) how (evs @ evs')"
  unfolding requeued_run_def by (metis append.assoc concat.simps(2) list_all2_Cons)

lemma requeue_loop_events:
  assumes "requeue_loop ops config limit ctx requeued w = ((n, err), w')" and "sint requeued \<le> sint limit"
  shows "\<exists>ds how evs. requeued_run config ds how evs \<and> history w' = history w @ evs \<and>
    sint n = sint requeued + int (length ds) \<and> sint n \<le> sint limit \<and>
    (err = None \<longleftrightarrow> how \<in> {LimitReached, QueueEmpty}) \<and> (how = LimitReached \<longrightarrow> n = limit)"
  using assms
proof (induction "nat (sint limit - sint requeued)" arbitrary: ctx requeued w rule: less_induct)
  case less
  show ?case
  proof (cases "sint requeued < sint limit")
    case False
    then have "n = requeued" "err = None" "w' = w" "requeued = limit"
      using less.prems by (auto simp: requeue_loop.simps [of _ _ _ ctx] signed_word_eqI)
    then show ?thesis
      by (intro exI [of _ "[]"] exI [of _ LimitReached]) (auto intro!: requeued_run_Nil)
  next
    case True
    note next_count = requeued_increases [OF True]
    from requeue_round [OF less.prems(1) True]
    consider how evs where "ended config how evs" "how \<noteq> LimitReached" "history w' = history w @ evs"
        "n = requeued" "err = None \<longleftrightarrow> how = QueueEmpty"
      | d evs w1 where "moved config d evs" "history w1 = history w @ evs"
        "requeue_loop ops config limit (ctx_next ctx) (requeued + 1) w1 = ((n, err), w')" by blast
    then show ?thesis
    proof cases
      case 1
      with True show ?thesis
        by (intro exI [of _ "[]"] exI [of _ how] exI [of _ evs]) (auto intro!: requeued_run_Nil)
    next
      case (2 d evs w1)
      have "nat (sint limit - sint (requeued + 1)) < nat (sint limit - sint requeued)"
        "sint (requeued + 1) \<le> sint limit" using next_count True by simp_all
      from less.hyps [OF this(1) 2(3) this(2)] obtain ds how evs' where
        "requeued_run config ds how evs'" "history w' = history w1 @ evs'"
        "sint n = sint (requeued + 1) + int (length ds)" "sint n \<le> sint limit"
        "(err = None) = (how \<in> {LimitReached, QueueEmpty})" "how = LimitReached \<longrightarrow> n = limit" by blast
      with 2(1,2) next_count show ?thesis
        by (intro exI [of _ "d # ds"] exI [of _ how] exI [of _ "evs @ evs'"]) (auto intro: requeued_run_Cons)
    qed
  qed
qed

text \<open>
  Property C9. Requeueing neither loses nor overruns. A call with an unknown queue, or with a
  limit outside 1 to 100, is refused and calls nothing. Any other call ends, and its count, even
  next to an error, is the number of messages moved, at most the limit: each one was fetched
  from the dead-letter queue asked for, its copy with retry count 0 was published to the
  request queue and confirmed, and then it was acknowledged. The call ends without an error
  only at the limit or at the end of the queue; a message whose copy was not confirmed is
  given back.
\<close>

theorem requeue_accounting:
  assumes "Admin_RequeueDeadLetters ops ctx queue limit w = ((n, err), w')"
  shows "(\<exists>e. err = Some e \<and> n = 0 \<and> w' = w \<and>
      (errors_Is e ErrInvalidDeadLetterQueue \<and>
         queue \<notin> {DeadLetterQueueReservationRequests, DeadLetterQueueReservationReleaseRequests} \<or>
       errors_Is e ErrInvalidRequeueLimit \<and> \<not> (1 \<le> sint limit \<and> sint limit \<le> 100))) \<or>
    (\<exists>config ds how evs. deadLetterConfig queue = Inr config \<and> requeued_run config ds how evs \<and>
      history w' = history w @ evs \<and> sint n = int (length ds) \<and> sint n \<le> sint limit \<and> sint limit \<le> 100 \<and>
      (err = None \<longleftrightarrow> how \<in> {LimitReached, QueueEmpty}) \<and> (how = LimitReached \<longrightarrow> n = limit))"
proof (cases "deadLetterConfig queue")
  case (Inl e)
  with assms show ?thesis
    by (auto simp: Admin_RequeueDeadLetters_def deadLetterConfig_def split: if_splits)
next
  case (Inr config)
  show ?thesis
  proof (cases "1 \<le> sint limit \<and> sint limit \<le> 100")
    case False
    with Inr assms show ?thesis by (auto simp: Admin_RequeueDeadLetters_def split: if_splits)
  next
    case True
    with Inr assms have "requeue_loop ops config limit ctx 0 w = ((n, err), w')"
      by (simp add: Admin_RequeueDeadLetters_def)
    from requeue_loop_events [OF this] True Inr show ?thesis by auto
  qed
qed

section \<open>The contract of \<open>DeadLetterAdmin\<close>\<close>

text \<open>
  What the HTTP server and the metrics rely on: depths are reported for the two queues and no
  other, and a requeue reports a count within its limit, or one of the two errors that say the
  request is at fault, without doing anything.
\<close>

locale dead_letter_admin =
  fixes dlq_depth :: "go_context \<Rightarrow> 's \<Rightarrow> (DeadLetterQueue, go_int) fmap result \<times> 's"
    and requeue :: "go_context \<Rightarrow> DeadLetterQueue \<Rightarrow> go_int \<Rightarrow> 's \<Rightarrow> (go_int \<times> go_error option) \<times> 's"
  assumes depth_queues: "dlq_depth ctx s = (Inr depth, s') \<Longrightarrow>
      fmdom' depth = {DeadLetterQueueReservationRequests, DeadLetterQueueReservationReleaseRequests}"
    and requeue_count: "requeue ctx queue limit s = ((n, None), s') \<Longrightarrow>
      queue \<in> {DeadLetterQueueReservationRequests, DeadLetterQueueReservationReleaseRequests} \<and>
      0 \<le> sint n \<and> sint n \<le> sint limit \<and> sint limit \<le> 100"
    and requeue_refused: "queue \<notin> {DeadLetterQueueReservationRequests, DeadLetterQueueReservationReleaseRequests} \<or>
        \<not> (1 \<le> sint limit \<and> sint limit \<le> 100) \<Longrightarrow>
      \<exists>e. requeue ctx queue limit s = ((0, Some e), s) \<and>
        (errors_Is e ErrInvalidDeadLetterQueue \<or> errors_Is e ErrInvalidRequeueLimit)"

lemma DLQDepth_queues:
  assumes "Admin_DLQDepth ops ctx w = (Inr depth, w')"
  shows "fmdom' depth = {DeadLetterQueueReservationRequests, DeadLetterQueueReservationReleaseRequests}"
  using assms
  by (auto simp: Admin_DLQDepth_def deadLetterConfig_def split: option.splits prod.splits sum.splits)

interpretation amqp_admin: dead_letter_admin "Admin_DLQDepth ops" "Admin_RequeueDeadLetters ops" for ops
proof
  fix ctx queue limit n and s s' :: "'a world" and depth
  show "Admin_DLQDepth ops ctx s = (Inr depth, s') \<Longrightarrow>
      fmdom' depth = {DeadLetterQueueReservationRequests, DeadLetterQueueReservationReleaseRequests}"
    by (rule DLQDepth_queues)
  show "queue \<in> {DeadLetterQueueReservationRequests, DeadLetterQueueReservationReleaseRequests} \<and>
      0 \<le> sint n \<and> sint n \<le> sint limit \<and> sint limit \<le> 100"
    if run: "Admin_RequeueDeadLetters ops ctx queue limit s = ((n, None), s')"
  proof -
    from run obtain config where config: "deadLetterConfig queue = Inr config" "1 \<le> sint limit" "sint limit \<le> 100"
      and loop: "requeue_loop ops config limit ctx 0 s = ((n, None), s')"
      by (auto simp: Admin_RequeueDeadLetters_def split: sum.splits if_splits)
    from requeue_loop_events [OF loop] config show ?thesis
      by (auto simp: deadLetterConfig_def split: if_splits)
  qed
  show "\<exists>e. Admin_RequeueDeadLetters ops ctx queue limit s = ((0, Some e), s) \<and>
        (errors_Is e ErrInvalidDeadLetterQueue \<or> errors_Is e ErrInvalidRequeueLimit)"
    if "queue \<notin> {DeadLetterQueueReservationRequests, DeadLetterQueueReservationReleaseRequests} \<or>
        \<not> (1 \<le> sint limit \<and> sint limit \<le> 100)"
    using that by (auto simp: Admin_RequeueDeadLetters_def deadLetterConfig_def split: sum.split)
qed

section \<open>A concrete queue\<close>

definition dlq_ops :: "Delivery list world_ops" where
  "dlq_ops =
     \<lparr>rand_Read = (\<lambda>b. (Inr (replicate 16 0), b)), time_Now = (\<lambda>b. (zero_time, b)),
      time_Since = (\<lambda>_ b. (0, b)), amqp_Call = (\<lambda>_ _ b. (None, b)),
      amqp_Publish = (\<lambda>_ _ _ _ _ b. (None, b)),
      amqp_Confirmation = (\<lambda>_ _ b. (Confirmation 1 True, b)),
      amqp_Ack = (\<lambda>_ _ b. (None, b)), amqp_Nack = (\<lambda>_ _ _ b. (None, b)),
      amqp_Get = (\<lambda>_ _ b. (Inr (case b of [] \<Rightarrow> None | d # _ \<Rightarrow> Some d), tl b)),
      amqp_Messages = (\<lambda>_ _ noWait b. (Inr (if noWait then 0 else of_nat (length b)), b))\<rparr>"

definition one_dead_letter :: "Delivery list world" where
  "one_dead_letter = \<lparr>outside = [sample_delivery], history = []\<rparr>"

lemma sample_requeue:
  "\<exists>w. Admin_RequeueDeadLetters dlq_ops Background DeadLetterQueueReservationRequests 5 one_dead_letter =
     ((1, None), w)"
  by (simp add: Admin_RequeueDeadLetters_def deadLetterConfig_def requeue_loop.simps one_dead_letter_def
      Admin_publishWithConfirmation_def perform_def dlq_ops_def)

theorem requeue_accounting_witness:
  "\<exists>w d how evs. Admin_RequeueDeadLetters dlq_ops Background DeadLetterQueueReservationRequests 5
       one_dead_letter = ((1, None), w) \<and>
     requeued_run \<lparr>dlq_name = ReservationRequestedDeadLetterQueueName,
       dlq_routingKey = ReservationRequestedRoutingKey\<rparr> [d] how evs \<and> history w = evs"
proof -
  from sample_requeue obtain w where run: "Admin_RequeueDeadLetters dlq_ops Background
      DeadLetterQueueReservationRequests 5 one_dead_letter = ((1, None), w)" by blast
  from requeue_accounting [OF run] show ?thesis
    using run by (auto simp: deadLetterConfig_def one_dead_letter_def length_Suc_conv)
qed

end
