(* ===== verification/Http_Server.thy ===== *)
theory Http_Server
  imports Dlq_Admin Failure_Mode Inventory_Ledger
begin

text \<open>
  The HTTP interface (internal/http/server.go): the route table, the handlers, the decoding of
  request bodies and the mapping of errors to status codes. A response carries its status and
  the value that is encoded as its body, with the error itself in place of its text; a path is
  the list of its decoded segments. The repository and the failure-mode controller are the
  program's own; the dead-letter administration is reached through its interface, so that
  \<open>requeue\<close> is an argument and its state a type variable. Request logging has no effect on the
  answer and is left out.
\<close>

section \<open>Requests and responses\<close>

record http_request =
  Method :: string
  URL_Path :: "string list"
  Body :: string
  Context :: go_context
  PathValues :: "(string \<times> string) list"
  Ranged :: "string list"

text \<open>\<open>Ranged\<close> is the order in which Go happens to range over the map that a listing visits.\<close>

record stockItemResponse =
  sir_SKU :: string
  sir_AvailableQuantity :: go_int
  sir_ReservedQuantity :: go_int

record reservationResponse =
  rr_ID :: string
  rr_SKU :: string
  rr_Quantity :: go_int
  rr_Status :: string
  rr_CreatedAt :: go_time
  rr_ReleasedAt :: "go_time option"

record failureModeResponse =
  fmr_Mode :: FailureMode
  fmr_RandomRejectProbability :: float64
  fmr_ProcessingDelayMS :: go_int

record apiError =
  api_Code :: string
  api_Message :: go_error

datatype http_payload =
    statusResponse string
  | StockItemPayload stockItemResponse
  | stockListResponse "stockItemResponse list"
  | ReservationPayload reservationResponse
  | reservationListResponse "reservationResponse list"
  | FailureModePayload failureModeResponse
  | requeueDeadLettersResponse go_int
  | errorResponse apiError
  | PlainText string

record http_response =
  StatusCode :: int
  ContentType :: string
  Payload :: http_payload

abbreviation StatusOK :: int where "StatusOK \<equiv> 200"
abbreviation StatusBadRequest :: int where "StatusBadRequest \<equiv> 400"
abbreviation StatusNotFound :: int where "StatusNotFound \<equiv> 404"
abbreviation StatusMethodNotAllowed :: int where "StatusMethodNotAllowed \<equiv> 405"
abbreviation StatusConflict :: int where "StatusConflict \<equiv> 409"
abbreviation StatusInternalServerError :: int where "StatusInternalServerError \<equiv> 500"
abbreviation StatusServiceUnavailable :: int where "StatusServiceUnavailable \<equiv> 503"

definition writeJSON :: "int \<Rightarrow> http_payload \<Rightarrow> http_response" where
  "writeJSON status payload =
     \<lparr>StatusCode = status, ContentType = ''application/json'', Payload = payload\<rparr>"

definition writeError :: "go_error \<Rightarrow> http_response" where
  "writeError err =
     (let (status, kind) =
        (if errors_Is err ErrInvalidArgument \<or> errors_Is err ErrInvalidDeadLetterQueue \<or>
            errors_Is err ErrInvalidRequeueLimit
         then (StatusBadRequest, ''invalid_argument'')
         else if errors_Is err ErrStockItemNotFound \<or> errors_Is err ErrReservationNotFound
         then (StatusNotFound, ''not_found'')
         else if errors_Is err ErrReservationAlreadyExists
         then (StatusConflict, ''conflict'')
         else (StatusInternalServerError, ''internal_error''))
      in writeJSON status (errorResponse \<lparr>api_Code = kind, api_Message = err\<rparr>))"

definition newStockItemResponse :: "StockItem \<Rightarrow> stockItemResponse" where
  "newStockItemResponse item =
     \<lparr>sir_SKU = item_SKU item, sir_AvailableQuantity = AvailableQuantity item,
      sir_ReservedQuantity = ReservedQuantity item\<rparr>"

definition newReservationResponse :: "Reservation \<Rightarrow> reservationResponse" where
  "newReservationResponse reservation =
     \<lparr>rr_ID = ID reservation, rr_SKU = res_SKU reservation, rr_Quantity = Quantity reservation,
      rr_Status = Status reservation, rr_CreatedAt = CreatedAt reservation,
      rr_ReleasedAt = ReleasedAt reservation\<rparr>"

definition newFailureModeResponse :: "FailureModeSettings \<Rightarrow> failureModeResponse" where
  "newFailureModeResponse s =
     \<lparr>fmr_Mode = Mode s, fmr_RandomRejectProbability = RandomRejectProbability s,
      fmr_ProcessingDelayMS = Milliseconds (ProcessingDelay s)\<rparr>"

section \<open>Request bodies\<close>

definition maxRequestBodyBytes :: int where
  "maxRequestBodyBytes = 1048576"

text \<open>
  The reader hands out at most \<open>maxRequestBodyBytes\<close> bytes of the body and fails behind them,
  so a longer body is refused: while its first value is read, if that value is not complete
  within the limit, and otherwise when the end of the input is asked for. A \<open>null\<close> is complete
  only once a further byte was seen.
\<close>

definition decodeJSON :: "(string \<times> field_kind) list \<Rightarrow> string \<Rightarrow> (string \<rightharpoonup> read_value) result" where
  "decodeJSON kinds body =
     (let over = maxRequestBodyBytes < int (length body);
          available = (if over then take (nat maxRequestBodyBytes) body else body);
          failed = Inl (Wrapf [] (Sentinel ErrInvalidArgument)
                          [Lit '': decode request body: '', Shown (ForeignError ''json'')])
      in case decode_next (tokenise available) of
           EndOfInput \<Rightarrow> failed
         | Refused \<Rightarrow> failed
         | Decoded v rest \<Rightarrow>
             (if over \<and> v = JNull \<and> rest = [] \<and> \<not> is_space (last available) then failed
              else case decode_struct kinds v of
                None \<Rightarrow> failed
              | Some request \<Rightarrow>
                  (if over \<or> decode_next rest \<noteq> EndOfInput
                   then Inl (wrap_text ErrInvalidArgument ''request body must contain a single JSON object'')
                   else Inr request)))"

definition setStockRequest :: "(string \<times> field_kind) list" where
  "setStockRequest = [(''sku'', StringField), (''available_quantity'', IntField)]"

definition failureModeRequest :: "(string \<times> field_kind) list" where
  "failureModeRequest =
     [(''mode'', StringField), (''random_reject_probability'', FloatField), (''processing_delay_ms'', IntField)]"

definition requeueDeadLettersRequest :: "(string \<times> field_kind) list" where
  "requeueDeadLettersRequest = [(''queue'', StringField), (''limit'', IntField)]"

section \<open>The server and its handlers\<close>

record 'w Server =
  inventoryRepository :: InventoryRepository
  failureModes :: FailureModeController
  deadLetterAdmin :: 'w
  ready :: bool

type_synonym 'w handler = "http_request \<Rightarrow> 'w Server \<Rightarrow> http_response \<times> 'w Server"

type_synonym 'w requeue_op =
  "go_context \<Rightarrow> DeadLetterQueue \<Rightarrow> go_int \<Rightarrow> 'w \<Rightarrow> (go_int \<times> go_error option) \<times> 'w"

definition handleRequeueDeadLetters :: "'w requeue_op \<Rightarrow> 'w handler" where
  "handleRequeueDeadLetters requeue r s =
     (case decodeJSON requeueDeadLettersRequest (Body r) of
        Inl err \<Rightarrow> (writeError err, s)
      | Inr request \<Rightarrow>
          (case requeue (Context r) (string_field request ''queue'') (int_field request ''limit'') (deadLetterAdmin s) of
             ((_, Some err), w) \<Rightarrow> (writeError err, s\<lparr>deadLetterAdmin := w\<rparr>)
           | ((requeuedMessages, None), w) \<Rightarrow>
               (writeJSON StatusOK (requeueDeadLettersResponse requeuedMessages), s\<lparr>deadLetterAdmin := w\<rparr>)))"

definition Server_SetReady :: "bool \<Rightarrow> 'w Server \<Rightarrow> 'w Server" where
  "Server_SetReady b s = s\<lparr>ready := b\<rparr>"

definition handleHealth :: "'w handler" where
  "handleHealth r s = (writeJSON StatusOK (statusResponse ''ok''), s)"

definition handleReady :: "'w handler" where
  "handleReady r s =
     (if \<not> ready s then (writeJSON StatusServiceUnavailable (statusResponse ''not_ready''), s)
      else (writeJSON StatusOK (statusResponse ''ready''), s))"

definition handleListStock :: "'w handler" where
  "handleListStock r s =
     (case InventoryRepository_ListStock (Context r) (Ranged r) (inventoryRepository s) of
        (Inl err, repo) \<Rightarrow> (writeError err, s\<lparr>inventoryRepository := repo\<rparr>)
      | (Inr items, repo) \<Rightarrow>
          (writeJSON StatusOK (stockListResponse (map newStockItemResponse items)),
           s\<lparr>inventoryRepository := repo\<rparr>))"

definition handleSetStock :: "'w handler" where
  "handleSetStock r s =
     (case decodeJSON setStockRequest (Body r) of
        Inl err \<Rightarrow> (writeError err, s)
      | Inr request \<Rightarrow>
          (case InventoryRepository_SetStock (Context r) (string_field request ''sku'')
                  (int_field request ''available_quantity'') (inventoryRepository s) of
             (Inl err, repo) \<Rightarrow> (writeError err, s\<lparr>inventoryRepository := repo\<rparr>)
           | (Inr item, repo) \<Rightarrow>
               (writeJSON StatusOK (StockItemPayload (newStockItemResponse item)),
                s\<lparr>inventoryRepository := repo\<rparr>)))"

definition handleListReservations :: "'w handler" where
  "handleListReservations r s =
     (case InventoryRepository_ListReservations (Context r) (Ranged r) (inventoryRepository s) of
        (Inl err, repo) \<Rightarrow> (writeError err, s\<lparr>inventoryRepository := repo\<rparr>)
      | (Inr items, repo) \<Rightarrow>
          (writeJSON StatusOK (reservationListResponse (map newReservationResponse items)),
           s\<lparr>inventoryRepository := repo\<rparr>))"

text \<open>\<open>PathValue\<close> answers the empty string for a name the pattern does not have.\<close>

definition PathValue :: "http_request \<Rightarrow> string \<Rightarrow> string" where
  "PathValue r name = (case map_of (PathValues r) name of Some v \<Rightarrow> v | None \<Rightarrow> '''')"

definition handleGetReservation :: "'w handler" where
  "handleGetReservation r s =
     (case InventoryRepository_GetReservation (Context r) (PathValue r ''id'') (inventoryRepository s) of
        (Inl err, repo) \<Rightarrow> (writeError err, s\<lparr>inventoryRepository := repo\<rparr>)
      | (Inr reservation, repo) \<Rightarrow>
          (writeJSON StatusOK (ReservationPayload (newReservationResponse reservation)),
           s\<lparr>inventoryRepository := repo\<rparr>))"

text \<open>\<open>time.Duration(ms) * time.Millisecond\<close> is a product of 64-bit integers.\<close>

definition handleSetFailureMode :: "'w handler" where
  "handleSetFailureMode r s =
     (case decodeJSON failureModeRequest (Body r) of
        Inl err \<Rightarrow> (writeError err, s)
      | Inr request \<Rightarrow>
          (let new_settings =
                 \<lparr>Mode = string_field request ''mode'',
                  RandomRejectProbability = float_field request ''random_reject_probability'',
                  ProcessingDelay = int_field request ''processing_delay_ms'' * 1000000\<rparr>
           in case FailureModeController_Set new_settings (failureModes s) of
                (Some err, c) \<Rightarrow>
                  (writeError (Wrapf [] (Sentinel ErrInvalidArgument) [Lit '': '', Shown err]),
                   s\<lparr>failureModes := c\<rparr>)
              | (None, c) \<Rightarrow>
                  (writeJSON StatusOK (FailureModePayload (newFailureModeResponse new_settings)),
                   s\<lparr>failureModes := c\<rparr>)))"

section \<open>Routing\<close>

datatype segment = Literal string | Wildcard string

text \<open>A wildcard matches one segment, but not the trailing slash of a path.\<close>

fun match_path :: "segment list \<Rightarrow> string list \<Rightarrow> (string \<times> string) list option" where
  "match_path [] [] = Some []"
| "match_path (Literal l # ps) (x # xs) = (if l = x then match_path ps xs else None)"
| "match_path (Wildcard n # ps) (x # xs) =
     (if x = ''/'' then None else map_option (Cons (n, x)) (match_path ps xs))"
| "match_path ps xs = None"

text \<open>A pattern for GET also serves HEAD.\<close>

definition match_method :: "string \<Rightarrow> string \<Rightarrow> bool" where
  "match_method pattern m \<longleftrightarrow> m = pattern \<or> pattern = ''GET'' \<and> m = ''HEAD''"

fun serve_mux :: "(string \<times> segment list \<times> 'w handler) list \<Rightarrow> bool \<Rightarrow> 'w handler" where
  "serve_mux [] other r s =
     (if other
      then (\<lparr>StatusCode = StatusMethodNotAllowed, ContentType = ''text/plain; charset=utf-8'',
             Payload = PlainText ''Method Not Allowed''\<rparr>, s)
      else (\<lparr>StatusCode = StatusNotFound, ContentType = ''text/plain; charset=utf-8'',
             Payload = PlainText ''404 page not found''\<rparr>, s))"
| "serve_mux ((m, pattern, h) # routes) other r s =
     (case match_path pattern (URL_Path r) of
        None \<Rightarrow> serve_mux routes other r s
      | Some values \<Rightarrow>
          (if match_method m (Method r) then h (r\<lparr>PathValues := values\<rparr>) s
           else serve_mux routes True r s))"

definition Server_New :: "InventoryRepository \<Rightarrow> FailureModeController \<Rightarrow> 'w \<Rightarrow> 'w Server" where
  "Server_New repository modes admin =
     \<lparr>inventoryRepository = repository, failureModes = modes, deadLetterAdmin = admin, ready = False\<rparr>"

definition routes :: "'w requeue_op \<Rightarrow> 'w handler \<Rightarrow> (string \<times> segment list \<times> 'w handler) list" where
  "routes requeue metricsHandler =
     [(''GET'', [Literal ''health''], handleHealth),
      (''GET'', [Literal ''ready''], handleReady),
      (''GET'', [Literal ''stock''], handleListStock),
      (''POST'', [Literal ''stock''], handleSetStock),
      (''GET'', [Literal ''reservations''], handleListReservations),
      (''GET'', [Literal ''reservations'', Wildcard ''id''], handleGetReservation),
      (''GET'', [Literal ''metrics''], metricsHandler),
      (''POST'', [Literal ''debug'', Literal ''failure-mode''], handleSetFailureMode),
      (''POST'', [Literal ''debug'', Literal ''dlq'', Literal ''requeue''], handleRequeueDeadLetters requeue)]"

definition ServeHTTP :: "'w requeue_op \<Rightarrow> 'w handler \<Rightarrow> 'w handler" where
  "ServeHTTP requeue metricsHandler = serve_mux (routes requeue metricsHandler) False"

section \<open>Bodies that a client writes\<close>

lemma decodeJSON_Inl: "decodeJSON kinds body = Inl e \<Longrightarrow> errors_Is e ErrInvalidArgument"
  by (auto simp: decodeJSON_def Let_def split: decoded.splits option.splits if_splits)

lemma decodeJSON_marshal:
  assumes "int (length (marshal_struct fs)) \<le> maxRequestBodyBytes"
    and "decode_members kinds (map (\<lambda>(n, v). (to_valid n, field_json v)) fs) (\<lambda>_. None) = Some m"
  shows "decodeJSON kinds (marshal_struct fs) = Inr m"
proof -
  have "decode_next [] = EndOfInput" by (simp add: decode_next_def)
  with assms show ?thesis by (simp add: decodeJSON_def Let_def marshal_struct_read_back)
qed

lemmas request_names = to_valid_ascii lower_def

lemma decode_set_stock:
  assumes "body = marshal_struct [(''sku'', VStr sku), (''available_quantity'', VNum q)]"
    and "int (length body) \<le> maxRequestBodyBytes"
  shows "\<exists>m. decodeJSON setStockRequest body = Inr m \<and> string_field m ''sku'' = to_valid sku \<and>
    int_field m ''available_quantity'' = q"
  unfolding assms(1)
  by (intro exI conjI, rule decodeJSON_marshal [OF assms(2) [unfolded assms(1)]])
    (simp add: setStockRequest_def request_names ParseInt_show_int, simp_all add: string_field_def int_field_def)

lemma decode_failure_mode:
  assumes "body = marshal_struct [(''mode'', VStr mode), (''processing_delay_ms'', VNum ms)]"
    and "int (length body) \<le> maxRequestBodyBytes"
  shows "\<exists>m. decodeJSON failureModeRequest body = Inr m \<and> string_field m ''mode'' = to_valid mode \<and>
    int_field m ''processing_delay_ms'' = ms \<and> float_field m ''random_reject_probability'' = Finite 0"
  unfolding assms(1)
  by (intro exI conjI, rule decodeJSON_marshal [OF assms(2) [unfolded assms(1)]])
    (simp add: failureModeRequest_def request_names ParseInt_show_int, simp_all add: string_field_def int_field_def float_field_def)

lemma decode_requeue:
  assumes "body = marshal_struct [(''queue'', VStr queue), (''limit'', VNum limit)]"
    and "int (length body) \<le> maxRequestBodyBytes"
  shows "\<exists>m. decodeJSON requeueDeadLettersRequest body = Inr m \<and> string_field m ''queue'' = to_valid queue \<and>
    int_field m ''limit'' = limit"
  unfolding assms(1)
  by (intro exI conjI, rule decodeJSON_marshal [OF assms(2) [unfolded assms(1)]])
    (simp add: requeueDeadLettersRequest_def request_names ParseInt_show_int, simp_all add: string_field_def int_field_def)

section \<open>Answers\<close>

lemma match_literals: "match_path (map Literal ls) xs = (if xs = ls then Some [] else None)"
  by (induction ls xs rule: list_induct2') auto

lemmas match_single = match_literals [of "[l]", simplified] for l
lemmas match_three = match_literals [of "[k, l, m]", simplified] for k l m

lemma serve_mux_cases:
  "serve_mux table other r s = (a, s') \<Longrightarrow>
     (\<exists>m p h vs. (m, p, h) \<in> set table \<and> match_path p (URL_Path r) = Some vs \<and>
        match_method m (Method r) \<and> h (r\<lparr>PathValues := vs\<rparr>) s = (a, s')) \<or>
     StatusCode a \<in> {StatusNotFound, StatusMethodNotAllowed} \<and> s' = s"
  by (induction table other r s rule: serve_mux.induct)
    (fastforce split: if_splits option.splits)+

definition error_kind :: "http_response \<Rightarrow> string \<Rightarrow> bool" where
  "error_kind a kind \<longleftrightarrow> (\<exists>e. Payload a = errorResponse e \<and> api_Code e = kind)"

definition negative_stock :: "http_response \<Rightarrow> bool" where
  "negative_stock a \<longleftrightarrow> (\<exists>e. Payload a = errorResponse e \<and> api_Code e = ''internal_error'' \<and>
     errors_Is (api_Message e) ErrStockInvariantViolation)"

text \<open>
  A request is answered properly: a status other than 200 means that nothing has changed, 400
  names its kind of error, and 500 is given only to a request that has ended or that asks for a
  negative stock.
\<close>

definition proper_answer :: "http_request \<Rightarrow> 'w Server \<Rightarrow> http_response \<Rightarrow> 'w Server \<Rightarrow> bool" where
  "proper_answer r s a s' \<longleftrightarrow>
     (StatusCode a = StatusOK \<or>
      StatusCode a = StatusBadRequest \<and> error_kind a ''invalid_argument'' \<and> s' = s \<or>
      StatusCode a = StatusNotFound \<and> s' = s \<or>
      StatusCode a = StatusMethodNotAllowed \<and> s' = s \<or>
      StatusCode a = StatusServiceUnavailable \<and> \<not> ready s \<and> s' = s \<or>
      StatusCode a = StatusInternalServerError \<and> negative_stock a \<and> s' = s \<or>
      ctx_Err (Context r) \<noteq> None \<and> s' = s)"

lemma StatusCode_writeJSON [simp]:
  "StatusCode (writeJSON st p) = st" "Payload (writeJSON st p) = p"
  by (simp_all add: writeJSON_def)

lemma writeError_invalid [simp]:
  "errors_Is e ErrInvalidArgument \<Longrightarrow> StatusCode (writeError e) = StatusBadRequest \<and>
     error_kind (writeError e) ''invalid_argument''"
  by (simp add: writeError_def error_kind_def)

lemma SetStock_refused:
  "InventoryRepository_SetStock ctx sku q r = (Inl e, r') \<Longrightarrow>
     r' = r \<and> (ctx_Err ctx = Some e \<or> errors_Is e ErrInvalidArgument \<or>
       StatusCode (writeError e) = StatusInternalServerError \<and> negative_stock (writeError e))"
  by (auto simp: InventoryRepository_SetStock_def NewStockItem_def
      writeError_def negative_stock_def Let_def split: option.splits sum.splits if_splits)

lemma GetReservation_refused:
  "InventoryRepository_GetReservation ctx rid r = (Inl e, r') \<Longrightarrow>
     r' = r \<and> (ctx_Err ctx = Some e \<or> errors_Is e ErrInvalidArgument \<or>
       StatusCode (writeError e) = StatusNotFound)"
  by (auto simp: InventoryRepository_GetReservation_def writeError_def normalizedIdentifier_Inl
      split: option.splits sum.splits)

lemma reading_handlers_proper:
  "handleHealth r s = (a, s') \<Longrightarrow> proper_answer r s a s'"
  "handleReady r s = (a, s') \<Longrightarrow> proper_answer r s a s'"
  "handleListStock r s = (a, s') \<Longrightarrow> proper_answer r s a s'"
  "handleListReservations r s = (a, s') \<Longrightarrow> proper_answer r s a s'"
  by (auto simp: handleHealth_def handleReady_def handleListStock_def handleListReservations_def
      proper_answer_def InventoryRepository_ListStock_def InventoryRepository_ListReservations_def
      split: option.splits if_splits)

lemma handleGetReservation_proper:
  assumes "handleGetReservation r s = (a, s')"
  shows "proper_answer r s a s'"
proof -
  obtain res repo where get: "InventoryRepository_GetReservation (Context r) (PathValue r ''id'')
      (inventoryRepository s) = (res, repo)" by fastforce
  show ?thesis
  proof (cases res)
    case (Inl e)
    with assms get have "a = writeError e" "s' = s\<lparr>inventoryRepository := repo\<rparr>"
      by (simp_all add: handleGetReservation_def)
    with GetReservation_refused [OF get [unfolded Inl]] show ?thesis unfolding proper_answer_def by auto
  next
    case (Inr v)
    with assms get show ?thesis by (auto simp: handleGetReservation_def proper_answer_def)
  qed
qed

lemma handleSetStock_proper:
  assumes "handleSetStock r s = (a, s')"
  shows "proper_answer r s a s'"
proof (cases "decodeJSON setStockRequest (Body r)")
  case (Inl e)
  with assms decodeJSON_Inl [OF Inl] show ?thesis by (auto simp: handleSetStock_def proper_answer_def)
next
  case (Inr m)
  obtain res repo where set_stock: "InventoryRepository_SetStock (Context r) (string_field m ''sku'')
      (int_field m ''available_quantity'') (inventoryRepository s) = (res, repo)" by fastforce
  show ?thesis
  proof (cases res)
    case (Inl e)
    with assms Inr set_stock have "a = writeError e" "s' = s\<lparr>inventoryRepository := repo\<rparr>"
      by (simp_all add: handleSetStock_def)
    with SetStock_refused [OF set_stock [unfolded Inl]] show ?thesis
      unfolding proper_answer_def by auto
  next
    case (Inr item)
    with assms \<open>decodeJSON _ _ = Inr m\<close> set_stock show ?thesis
      by (auto simp: handleSetStock_def proper_answer_def)
  qed
qed

lemma handleSetFailureMode_proper:
  assumes "handleSetFailureMode r s = (a, s')"
  shows "proper_answer r s a s'"
proof (cases "decodeJSON failureModeRequest (Body r)")
  case (Inl e)
  with assms decodeJSON_Inl [OF Inl] show ?thesis by (auto simp: handleSetFailureMode_def proper_answer_def)
next
  case (Inr m)
  let ?n = "\<lparr>Mode = string_field m ''mode'',
    RandomRejectProbability = float_field m ''random_reject_probability'',
    ProcessingDelay = int_field m ''processing_delay_ms'' * 1000000\<rparr>"
  show ?thesis
  proof (cases "validateFailureModeSettings ?n")
    case None
    with assms Inr have "StatusCode a = StatusOK"
      by (simp add: handleSetFailureMode_def FailureModeController_Set_def Let_def) auto
    then show ?thesis by (simp add: proper_answer_def)
  next
    case (Some e)
    with assms Inr have "a = writeError (Wrapf [] (Sentinel ErrInvalidArgument) [Lit '': '', Shown e])" "s' = s"
      by (simp_all add: handleSetFailureMode_def FailureModeController_Set_def Let_def)
    then show ?thesis by (simp add: proper_answer_def)
  qed
qed

lemmas handlers_proper =
  reading_handlers_proper handleGetReservation_proper handleSetStock_proper handleSetFailureMode_proper

lemma GET_handlers_read_only:
  "snd (handleHealth r s) = s" "snd (handleReady r s) = s" "snd (handleListStock r s) = s"
  "snd (handleListReservations r s) = s" "snd (handleGetReservation r s) = s"
  by (auto simp: handleHealth_def handleReady_def handleListStock_def handleListReservations_def
      handleGetReservation_def InventoryRepository_ListStock_def InventoryRepository_ListReservations_def
      InventoryRepository_GetReservation_def split: option.splits sum.splits)

lemma proper_answer_PathValues [simp]: "proper_answer (r\<lparr>PathValues := vs\<rparr>) = proper_answer r"
  by (simp add: proper_answer_def fun_eq_iff)


definition sample_server :: "Delivery list world Server" where
  "sample_server = Server_New default_repository NewFailureModeController one_dead_letter"

definition sample_http_request :: "string \<Rightarrow> string list \<Rightarrow> string \<Rightarrow> http_request" where
  "sample_http_request m path body = \<lparr>Method = m, URL_Path = path, Body = body, Context = Background,
     PathValues = [], Ranged = [''sku-red-mug'', ''sku-blue-notebook'', ''sku-black-bag'']\<rparr>"

lemmas http_defs = ServeHTTP_def routes_def match_method_def sample_server_def Server_New_def
  sample_http_request_def


section \<open>Requeue requests\<close>

lemma serve_requeue:
  assumes "Method r = ''POST''" and "URL_Path r = [''debug'', ''dlq'', ''requeue'']"
  shows "ServeHTTP requeue metricsHandler r s = handleRequeueDeadLetters requeue (r\<lparr>PathValues := []\<rparr>) s"
  using assms by (simp add: ServeHTTP_def routes_def match_method_def)

context dead_letter_admin
begin

lemma requeue_request_refused:
  assumes "decodeJSON requeueDeadLettersRequest (Body r) = Inr m"
    and "string_field m ''queue'' \<notin> {DeadLetterQueueReservationRequests, DeadLetterQueueReservationReleaseRequests} \<or>
      \<not> (1 \<le> sint (int_field m ''limit'') \<and> sint (int_field m ''limit'') \<le> 100)"
  shows "StatusCode (fst (handleRequeueDeadLetters requeue r s)) = StatusBadRequest \<and>
    error_kind (fst (handleRequeueDeadLetters requeue r s)) ''invalid_argument'' \<and>
    snd (handleRequeueDeadLetters requeue r s) = s"
proof -
  from requeue_refused [OF assms(2)] obtain e where
    "requeue (Context r) (string_field m ''queue'') (int_field m ''limit'') (deadLetterAdmin s) =
       ((0, Some e), deadLetterAdmin s)"
    "errors_Is e ErrInvalidDeadLetterQueue \<or> errors_Is e ErrInvalidRequeueLimit" by blast
  then show ?thesis using assms(1)
    by (auto simp: handleRequeueDeadLetters_def writeError_def error_kind_def)
qed

lemma requeue_request_served:
  assumes "decodeJSON requeueDeadLettersRequest (Body r) = Inr m"
    and "handleRequeueDeadLetters requeue r s = (a, s')"
    and "\<not> (\<exists>e. Payload a = errorResponse e)"
  shows "\<exists>n. StatusCode a = StatusOK \<and> Payload a = requeueDeadLettersResponse n \<and> 0 \<le> sint n \<and>
    sint n \<le> sint (int_field m ''limit'') \<and> sint (int_field m ''limit'') \<le> 100"
proof -
  obtain n err w where run: "requeue (Context r) (string_field m ''queue'') (int_field m ''limit'')
      (deadLetterAdmin s) = ((n, err), w)" by (metis surj_pair)
  with assms have "err = None"
    by (auto simp: handleRequeueDeadLetters_def writeError_def Let_def split: option.splits prod.splits if_splits)
  with run assms(1,2) requeue_count [of "Context r"] show ?thesis
    by (fastforce simp: handleRequeueDeadLetters_def)
qed

end

text \<open>
  Property C23. A requeue request whose queue is unknown or whose limit is outside 1 to 100 is
  answered with 400 and \<open>invalid_argument\<close>, and the broker is not called. Every other answer
  that is not an error has status 200 and a count between 0 and the limit.
\<close>

theorem requeue_request_answered:
  assumes "Method r = ''POST''" and "URL_Path r = [''debug'', ''dlq'', ''requeue'']"
    and "Body r = marshal_struct [(''queue'', VStr queue), (''limit'', VNum limit)]"
    and "int (length (Body r)) \<le> maxRequestBodyBytes"
    and "ServeHTTP (Admin_RequeueDeadLetters ops) metricsHandler r s = (a, s')"
  shows "(to_valid queue \<notin> {DeadLetterQueueReservationRequests, DeadLetterQueueReservationReleaseRequests} \<or>
        \<not> (1 \<le> sint limit \<and> sint limit \<le> 100) \<longrightarrow>
      StatusCode a = StatusBadRequest \<and> error_kind a ''invalid_argument'' \<and> s' = s) \<and>
    ((\<exists>e. Payload a = errorResponse e) \<or>
      (\<exists>n. StatusCode a = StatusOK \<and> Payload a = requeueDeadLettersResponse n \<and> 0 \<le> sint n \<and>
        sint n \<le> sint limit \<and> sint limit \<le> 100))"
proof -
  from decode_requeue [OF assms(3,4)] obtain m where
    m: "decodeJSON requeueDeadLettersRequest (Body (r\<lparr>PathValues := []\<rparr>)) = Inr m"
      "string_field m ''queue'' = to_valid queue" "int_field m ''limit'' = limit" by auto
  have run: "handleRequeueDeadLetters (Admin_RequeueDeadLetters ops) (r\<lparr>PathValues := []\<rparr>) s = (a, s')"
    using assms(5) unfolding serve_requeue [OF assms(1,2)] .
  show ?thesis
    using amqp_admin.requeue_request_refused [OF m(1), of ops s]
      amqp_admin.requeue_request_served [OF m(1) run] run m(2,3) by auto
qed

theorem requeue_request_answered_witness:
  "\<exists>a s. ServeHTTP (Admin_RequeueDeadLetters dlq_ops) handleHealth
       (sample_http_request ''POST'' [''debug'', ''dlq'', ''requeue'']
         (marshal_struct [(''queue'', VStr ''reservation_requests''), (''limit'', VNum 0)])) sample_server = (a, s) \<and>
     StatusCode a = StatusBadRequest \<and> s = sample_server"
proof -
  let ?body = "marshal_struct [(''queue'', VStr ''reservation_requests''), (''limit'', VNum 0)]"
  let ?r = "sample_http_request ''POST'' [''debug'', ''dlq'', ''requeue''] ?body"
  obtain a s where run: "ServeHTTP (Admin_RequeueDeadLetters dlq_ops) handleHealth ?r sample_server = (a, s)"
    by fastforce
  have "int (length ?body) \<le> maxRequestBodyBytes" by code_simp
  then have size: "int (length (Body ?r)) \<le> maxRequestBodyBytes" by (simp add: sample_http_request_def)
  from requeue_request_answered [OF _ _ _ size run, of "''reservation_requests''" 0] run
  show ?thesis by (simp add: sample_http_request_def)
qed

section \<open>Stock requests\<close>

lemma serve_set_stock:
  assumes "Method r = ''POST''" and "URL_Path r = [''stock'']"
  shows "ServeHTTP requeue metricsHandler r s = handleSetStock (r\<lparr>PathValues := []\<rparr>) s"
  using assms by (simp add: ServeHTTP_def routes_def match_method_def)

lemma serve_list_stock:
  assumes "Method r = ''GET''" and "URL_Path r = [''stock'']"
  shows "ServeHTTP requeue metricsHandler r s = handleListStock (r\<lparr>PathValues := []\<rparr>) s"
  using assms by (simp add: ServeHTTP_def routes_def match_method_def)

lemma SetStock_stored:
  assumes "repo_wf r" and "InventoryRepository_SetStock ctx sku q r = (Inr i, r')"
  shows "fmlookup (stock r') (TrimSpace sku) = Some i \<and> item_SKU i = TrimSpace sku \<and>
    AvailableQuantity i = q \<and> ReservedQuantity i = active_units r (TrimSpace sku) \<and> repo_wf r'"
proof -
  from assms(2) have item: "fmlookup (stock r') (TrimSpace sku) = Some i" "item_SKU i = TrimSpace sku"
    "AvailableQuantity i = q" "reservations r' = reservations r"
    by (auto simp: InventoryRepository_SetStock_def NewStockItem_def Let_def
        split: option.splits sum.splits if_splits)
  moreover have "repo_wf r'" by (rule SetStock_wf [OF assms])
  moreover from repo_wf_stockD [OF this item(1)] have "ReservedQuantity i = active_units r (TrimSpace sku)"
    by (simp add: stock_entry_ok_def active_units_def item(4))
  ultimately show ?thesis by blast
qed

text \<open>
  Property C22. Stock that is set is listed: a POST of an SKU that is not blank and a quantity
  that is not negative is answered with 200 and the stored item, and a GET of the stock that
  follows lists this item, and no other under that SKU, with the posted quantity available and
  with the units of the SKU's active reservations as reserved.
\<close>

theorem stock_set_is_listed:
  assumes "Method r = ''POST''" and "URL_Path r = [''stock'']" and "Context r = Background"
    and "Body r = marshal_struct [(''sku'', VStr sku), (''available_quantity'', VNum q)]"
    and "int (length (Body r)) \<le> maxRequestBodyBytes"
    and "TrimSpace (to_valid sku) \<noteq> []" and "0 \<le> sint q" and "repo_reachable (inventoryRepository s)"
    and "ServeHTTP requeue metricsHandler r s = (a, s1)"
    and "Method g = ''GET''" and "URL_Path g = [''stock'']" and "Context g = Background"
    and "range_order (stock (inventoryRepository s1)) (Ranged g)"
    and "ServeHTTP requeue metricsHandler g s1 = (b, s2)"
  shows "StatusCode a = StatusOK \<and> StatusCode b = StatusOK \<and> s2 = s1 \<and>
    (\<exists>item items. Payload a = StockItemPayload item \<and> Payload b = stockListResponse items \<and>
      item = \<lparr>sir_SKU = TrimSpace (to_valid sku), sir_AvailableQuantity = q,
        sir_ReservedQuantity = active_units (inventoryRepository s) (TrimSpace (to_valid sku))\<rparr> \<and>
      {x \<in> set items. sir_SKU x = TrimSpace (to_valid sku)} = {item})"
proof -
  from decode_set_stock [OF assms(4,5)] obtain m where
    m: "decodeJSON setStockRequest (Body r) = Inr m" "string_field m ''sku'' = to_valid sku"
      "int_field m ''available_quantity'' = q" by blast
  obtain i repo where set_stock: "InventoryRepository_SetStock Background (to_valid sku) q (inventoryRepository s) =
      (Inr i, repo)"
    using assms(6,7) by (auto simp: InventoryRepository_SetStock_def NewStockItem_def Let_def)
  note stored = SetStock_stored [OF repo_reachable_wf [OF assms(8)] set_stock]
  from assms(9) have ans: "a = writeJSON StatusOK (StockItemPayload (newStockItemResponse i))"
    "s1 = s\<lparr>inventoryRepository := repo\<rparr>"
    using m set_stock assms(3) by (simp_all add: serve_set_stock [OF assms(1,2)] handleSetStock_def)
  from assms(14) have list: "s2 = s1" "b = writeJSON StatusOK (stockListResponse (map newStockItemResponse
      (sort_key item_SKU (range_values (stock repo) (Ranged g)))))"
    using assms(12) ans(2)
    by (simp_all add: serve_list_stock [OF assms(10,11)] handleListStock_def InventoryRepository_ListStock_def)
  have members: "set (range_values (stock repo) (Ranged g)) = {j. \<exists>k. fmlookup (stock repo) k = Some j}"
    using set_range_values assms(13) ans(2) by simp
  have "j = i" if "fmlookup (stock repo) k = Some j" "item_SKU j = TrimSpace (to_valid sku)" for j k
    using that stored repo_wf_stockD [of repo k j] by (auto simp: stock_entry_ok_def)
  with stored have only: "{j \<in> set (range_values (stock repo) (Ranged g)). item_SKU j = TrimSpace (to_valid sku)} = {i}"
    unfolding members by blast
  have "{x \<in> newStockItemResponse ` A. sir_SKU x = n} = newStockItemResponse ` {j \<in> A. item_SKU j = n}" for A n
    by (auto simp: newStockItemResponse_def)
  from this [of "set (range_values (stock repo) (Ranged g))"] only
  have "{x \<in> set (map newStockItemResponse (sort_key item_SKU (range_values (stock repo) (Ranged g)))).
      sir_SKU x = TrimSpace (to_valid sku)} = {newStockItemResponse i}" by simp
  then show ?thesis
    using ans list stored by (simp add: newStockItemResponse_def)
qed

theorem stock_set_is_listed_witness:
  "\<exists>a s1 b s2. ServeHTTP (Admin_RequeueDeadLetters dlq_ops) handleHealth
       (sample_http_request ''POST'' [''stock''] (marshal_struct [(''sku'', VStr ''sku-red-mug''),
         (''available_quantity'', VNum 5)])) sample_server = (a, s1) \<and>
     ServeHTTP (Admin_RequeueDeadLetters dlq_ops) handleHealth
       (sample_http_request ''GET'' [''stock''] []) s1 = (b, s2) \<and> StatusCode b = StatusOK"
proof -
  let ?body = "marshal_struct [(''sku'', VStr ''sku-red-mug''), (''available_quantity'', VNum 5)]"
  let ?r = "sample_http_request ''POST'' [''stock''] ?body" and ?g = "sample_http_request ''GET'' [''stock''] []"
  let ?serve = "ServeHTTP (Admin_RequeueDeadLetters dlq_ops) handleHealth"
  obtain a s1 where post: "?serve ?r sample_server = (a, s1)" by fastforce
  obtain b s2 where get: "?serve ?g s1 = (b, s2)" by fastforce
  have "int (length ?body) \<le> maxRequestBodyBytes" by code_simp
  then have size: "int (length (Body ?r)) \<le> maxRequestBodyBytes" by (simp add: sample_http_request_def)
  have valid: "to_valid ''sku-red-mug'' = ''sku-red-mug''" by (simp add: to_valid_ascii)
  have reach: "repo_reachable (inventoryRepository sample_server)"
    using reach_new [OF default_repository_new] by (simp add: sample_server_def Server_New_def)
  from decode_set_stock [OF refl \<open>int (length ?body) \<le> _\<close>] obtain m where
    "decodeJSON setStockRequest ?body = Inr m" "string_field m ''sku'' = ''sku-red-mug''"
    "int_field m ''available_quantity'' = 5" using valid by auto
  with post have "fmdom' (stock (inventoryRepository s1)) = fmdom' (stock default_repository)"
    by (auto simp: http_defs handleSetStock_def InventoryRepository_SetStock_def NewStockItem_def trim_defs
        default_repository_def Let_def)
  then have order: "range_order (stock (inventoryRepository s1)) (Ranged ?g)"
    by (auto simp: range_order_def sample_http_request_def default_repository_def)
  show ?thesis
    using stock_set_is_listed [OF _ _ _ _ size _ _ reach post _ _ _ order get, of "''sku-red-mug''" 5]
      post get valid by (simp add: sample_http_request_def trim_defs)
qed

text \<open>
  Property C38. A negative quantity is the client's mistake, but it is answered with 500 and
  \<open>internal_error\<close>: the validation of a stock item reports it as a violated invariant, which
  the error mapping does not know. The inventory stays as it is.
\<close>

theorem negative_stock_internal_error:
  assumes "Method r = ''POST''" and "URL_Path r = [''stock'']" and "Context r = Background"
    and "Body r = marshal_struct [(''sku'', VStr sku), (''available_quantity'', VNum q)]"
    and "int (length (Body r)) \<le> maxRequestBodyBytes"
    and "TrimSpace (to_valid sku) \<noteq> []" and "sint q < 0"
  shows "\<exists>a. ServeHTTP requeue metricsHandler r s = (a, s) \<and> StatusCode a = StatusInternalServerError \<and>
    error_kind a ''internal_error''"
proof -
  from decode_set_stock [OF assms(4,5)] obtain m where
    m: "decodeJSON setStockRequest (Body r) = Inr m" "string_field m ''sku'' = to_valid sku"
      "int_field m ''available_quantity'' = q" by blast
  have "\<exists>e. InventoryRepository_SetStock Background (to_valid sku) q (inventoryRepository s) =
      (Inl (Wrapf [] (Sentinel ErrStockInvariantViolation) e), inventoryRepository s)"
    using assms(6,7) by (auto simp: InventoryRepository_SetStock_def NewStockItem_def)
  then show ?thesis
    using m assms(3) by (auto simp: serve_set_stock [OF assms(1,2)] handleSetStock_def writeError_def error_kind_def)
qed

theorem negative_stock_internal_error_witness:
  "\<exists>a. ServeHTTP (Admin_RequeueDeadLetters dlq_ops) handleHealth
       (sample_http_request ''POST'' [''stock''] (marshal_struct [(''sku'', VStr ''sku-red-mug''),
         (''available_quantity'', VNum (- 5))])) sample_server = (a, sample_server) \<and>
     StatusCode a = StatusInternalServerError"
proof -
  let ?body = "marshal_struct [(''sku'', VStr ''sku-red-mug''), (''available_quantity'', VNum (- 5))]"
  let ?r = "sample_http_request ''POST'' [''stock''] ?body"
  have "int (length ?body) \<le> maxRequestBodyBytes" by code_simp
  then have size: "int (length (Body ?r)) \<le> maxRequestBodyBytes" by (simp add: sample_http_request_def)
  show ?thesis
    using negative_stock_internal_error [OF _ _ _ _ size, of "''sku-red-mug''" "- 5"
        "Admin_RequeueDeadLetters dlq_ops" handleHealth sample_server]
    by (auto simp: sample_http_request_def to_valid_ascii trim_defs)
qed

section \<open>Failure-mode requests\<close>

lemma serve_set_failure_mode:
  assumes "Method r = ''POST''" and "URL_Path r = [''debug'', ''failure-mode'']"
  shows "ServeHTTP requeue metricsHandler r s = handleSetFailureMode (r\<lparr>PathValues := []\<rparr>) s"
  using assms by (simp add: ServeHTTP_def routes_def match_method_def)

definition delay_body :: "go_int \<Rightarrow> string" where
  "delay_body ms = marshal_struct [(''mode'', VStr ''processing_delay''), (''processing_delay_ms'', VNum ms)]"

lemma delay_body_small: "int (length (delay_body ms)) \<le> maxRequestBodyBytes"
proof -
  have "length (show_nat n) \<le> 20" if "n \<le> 9223372036854775808" for n
    using show_nat_length [of n 20] that by simp
  moreover have "nat (sint ms) \<le> 9223372036854775808" "nat (- sint ms) \<le> 9223372036854775808"
    using sint_range [of ms] by linarith+
  ultimately have "length (show_int (sint ms)) \<le> 21" by (force simp: show_int_def)
  moreover have "length (json_string ''mode'') = 6" "length (json_string ''processing_delay'') = 18"
    "length (json_string ''processing_delay_ms'') = 21" by code_simp+
  ultimately show ?thesis by (simp add: delay_body_def marshal_struct_def maxRequestBodyBytes_def)
qed

text \<open>What a delay request does depends only on the sign of the product.\<close>

lemma delay_request:
  assumes "Method r = ''POST''" and "URL_Path r = [''debug'', ''failure-mode'']" and "Body r = delay_body ms"
    and "0 < sint (ms * 1000000)"
  shows "ServeHTTP requeue metricsHandler r s =
    (writeJSON StatusOK (FailureModePayload \<lparr>fmr_Mode = FailureModeProcessingDelay,
       fmr_RandomRejectProbability = Finite 0, fmr_ProcessingDelayMS = Milliseconds (ms * 1000000)\<rparr>),
     s\<lparr>failureModes := \<lparr>settings = \<lparr>Mode = FailureModeProcessingDelay, RandomRejectProbability = Finite 0,
       ProcessingDelay = ms * 1000000\<rparr>\<rparr>\<rparr>)"
proof -
  from decode_failure_mode [OF refl delay_body_small [of ms, unfolded delay_body_def]] obtain m where
    "decodeJSON failureModeRequest (delay_body ms) = Inr m" "string_field m ''mode'' = ''processing_delay''"
    "int_field m ''processing_delay_ms'' = ms" "float_field m ''random_reject_probability'' = Finite 0"
    unfolding delay_body_def by (auto simp: to_valid_ascii)
  with assms(3,4) show ?thesis
    by (simp add: serve_set_failure_mode [OF assms(1,2)] handleSetFailureMode_def FailureModeController_Set_def
        validateFailureModeSettings_def newFailureModeResponse_def)
qed

lemma delay_product:
  assumes "0 < sint (ms :: go_int)" and "sint ms \<le> 9223372036854"
  shows "sint (ms * 1000000) = sint ms * 1000000" and "Milliseconds (ms * 1000000) = ms"
proof -
  have "ms = word_of_int (sint ms)" by simp
  then have "ms * 1000000 = word_of_int (sint ms * 1000000)" by (metis of_int_mult of_int_numeral)
  moreover have "fits_int64 (sint ms * 1000000)" using assms by (simp add: fits_int64_def)
  ultimately show eq: "sint (ms * 1000000) = sint ms * 1000000" using sint_word_of_int by metis
  show "Milliseconds (ms * 1000000) = ms"
    using assms by (simp add: Milliseconds_def eq)
qed

text \<open>
  A processing delay of 1 to 9223372036854 milliseconds is accepted, becomes the
  delay of the active settings exactly, and is echoed in the answer.
\<close>

lemma processing_delay_set:
  assumes "Method r = ''POST''" and "URL_Path r = [''debug'', ''failure-mode'']" and "Body r = delay_body ms"
    and "0 < sint ms" and "sint ms \<le> 9223372036854"
  shows "\<exists>a s' resp. ServeHTTP requeue metricsHandler r s = (a, s') \<and> StatusCode a = StatusOK \<and>
    Payload a = FailureModePayload resp \<and> fmr_ProcessingDelayMS resp = ms \<and>
    Mode (FailureModeController_Get (failureModes s')) = FailureModeProcessingDelay \<and>
    sint (ProcessingDelay (FailureModeController_Get (failureModes s'))) = sint ms * 1000000"
  using delay_request [OF assms(1-3), of requeue metricsHandler s] delay_product [OF assms(4,5)] assms(4)
  by (auto simp: FailureModeController_Get_def)

theorem processing_delay_set_witness:
  "\<exists>a s'. ServeHTTP (Admin_RequeueDeadLetters dlq_ops) handleHealth
       (sample_http_request ''POST'' [''debug'', ''failure-mode''] (delay_body 250)) sample_server = (a, s') \<and>
     sint (ProcessingDelay (FailureModeController_Get (failureModes s'))) = 250000000"
  using processing_delay_set [of "sample_http_request ''POST'' [''debug'', ''failure-mode''] (delay_body 250)" 250
      "Admin_RequeueDeadLetters dlq_ops" handleHealth sample_server]
  by (auto simp: sample_http_request_def)

text \<open>
  Property C40. A longer delay wraps around: 18446744073710 milliseconds, more than 584 years,
  are accepted as a delay of 448384 nanoseconds, and the answer reports a delay of 0.
\<close>

theorem processing_delay_wraps:
  assumes "Method r = ''POST''" and "URL_Path r = [''debug'', ''failure-mode'']"
    and "Body r = delay_body 18446744073710"
  shows "\<exists>a s' resp. ServeHTTP requeue metricsHandler r s = (a, s') \<and> StatusCode a = StatusOK \<and>
    Payload a = FailureModePayload resp \<and> fmr_ProcessingDelayMS resp = 0 \<and>
    sint (ProcessingDelay (FailureModeController_Get (failureModes s'))) = 448384"
proof -
  have "(18446744073710 :: go_int) * 1000000 = 448384" by simp
  with delay_request [OF assms, of requeue metricsHandler s] show ?thesis
    by (auto simp: FailureModeController_Get_def Milliseconds_def)
qed

theorem processing_delay_wraps_witness:
  "\<exists>a s'. ServeHTTP (Admin_RequeueDeadLetters dlq_ops) handleHealth
       (sample_http_request ''POST'' [''debug'', ''failure-mode''] (delay_body 18446744073710)) sample_server =
         (a, s') \<and>
     sint (ProcessingDelay (FailureModeController_Get (failureModes s'))) = 448384"
  using processing_delay_wraps [of "sample_http_request ''POST'' [''debug'', ''failure-mode'']
        (delay_body 18446744073710)" "Admin_RequeueDeadLetters dlq_ops" handleHealth sample_server]
  by (auto simp: sample_http_request_def)

end
