(* ===== verification/Go_Duration.thy ===== *)
theory Go_Duration
  imports Go_Float
begin

text \<open>
  \<open>time.ParseDuration\<close>, following the standard library with its overflow checks and the float
  arithmetic of fractions.
\<close>

section \<open>\<open>time.ParseDuration\<close>\<close>

fun leadingInt :: "int \<Rightarrow> string \<Rightarrow> (int \<times> string) option" where
  "leadingInt x [] = Some (x, [])"
| "leadingInt x (c # s) =
     (if \<not> is_digit c then Some (x, c # s)
      else if 2 ^ 63 div 10 < x then None
      else let x = x * 10 + int (digit_value c) in if 2 ^ 63 < x then None else leadingInt x s)"

text \<open>The digits after the point: the value, the number of digits that count, the rest.\<close>

fun leadingFraction :: "int \<Rightarrow> nat \<Rightarrow> bool \<Rightarrow> string \<Rightarrow> int \<times> nat \<times> string" where
  "leadingFraction x k overflow [] = (x, k, [])"
| "leadingFraction x k overflow (c # s) =
     (if \<not> is_digit c then (x, k, c # s)
      else if overflow \<or> (2 ^ 63 - 1) div 10 < x then leadingFraction x k True s
      else let y = x * 10 + int (digit_value c) in
           if 2 ^ 63 < y then leadingFraction x k True s else leadingFraction y (Suc k) False s)"

definition unitMap :: "string \<Rightarrow> int option" where
  "unitMap = map_of
     [(''ns'', 1), (''us'', 1000),
      ([CHR 0xC2, CHR 0xB5, CHR ''s''], 1000), ([CHR 0xCE, CHR 0xBC, CHR ''s''], 1000),
      (''ms'', 1000000), (''s'', 1000000000), (''m'', 60000000000), (''h'', 3600000000000)]"

definition fraction_nanos :: "int \<Rightarrow> int \<Rightarrow> nat \<Rightarrow> int" where
  "fraction_nanos f unit k =
     \<lfloor>float_of_rat (float_of_rat (of_int f) * float_of_rat (of_int unit / 10 ^ k))\<rfloor>"

definition number_char :: "char \<Rightarrow> bool" where
  "number_char c \<longleftrightarrow> c = CHR ''.'' \<or> is_digit c"

text \<open>The optional fraction: its digits, how many, the rest, and whether there were any.\<close>

definition fraction_part :: "string \<Rightarrow> int \<times> nat \<times> string \<times> bool" where
  "fraction_part s =
     (case s of
        c # t \<Rightarrow> (if c = CHR ''.''
                 then let (f, k, r) = leadingFraction 0 0 False t in (f, k, r, length t \<noteq> length r)
                 else (0, 0, s, False))
      | [] \<Rightarrow> (0, 0, s, False))"

text \<open>One number with its unit: its nanoseconds and the rest of the input.\<close>

definition duration_part :: "string \<Rightarrow> (int \<times> string) option" where
  "duration_part s =
     (if s = [] \<or> \<not> number_char (hd s) then None
      else case leadingInt 0 s of
        None \<Rightarrow> None
      | Some (v, s1) \<Rightarrow>
          (let pre = length s \<noteq> length s1;
               (f, k, s2, post) = fraction_part s1;
               u = takeWhile (\<lambda>c. \<not> number_char c) s2;
               s3 = dropWhile (\<lambda>c. \<not> number_char c) s2
           in if \<not> pre \<and> \<not> post \<or> u = [] then None
              else case unitMap u of
                None \<Rightarrow> None
              | Some unit \<Rightarrow>
                  (if 2 ^ 63 div unit < v then None
                   else let v = v * unit + (if 0 < f then fraction_nanos f unit k else 0)
                        in if 2 ^ 63 < v then None else Some (v, s3))))"

lemma leadingInt_length: "leadingInt x s = Some (y, r) \<Longrightarrow> length r \<le> length s"
  by (induction x s rule: leadingInt.induct) (auto simp: Let_def split: if_splits)

lemma leadingFraction_length: "leadingFraction x k ov s = (y, j, r) \<Longrightarrow> length r \<le> length s"
  by (induction x k ov s rule: leadingFraction.induct) (auto simp: Let_def split: if_splits)

lemma fraction_part_length: "fraction_part s = (f, k, r, post) \<Longrightarrow> length r \<le> length s"
  by (auto simp: fraction_part_def dest!: leadingFraction_length split: list.splits if_splits prod.splits)

lemma duration_part_length:
  assumes "duration_part s = Some (v, r)"
  shows "length r < length s"
proof -
  have drop: "length (dropWhile P t) < length t" if "takeWhile P t \<noteq> []" for P and t :: string
    using that takeWhile_dropWhile_id [of P t] by (metis length_append length_greater_0_conv less_add_same_cancel2)
  from assms obtain w s1 f k s2 post where "leadingInt 0 s = Some (w, s1)" "fraction_part s1 = (f, k, s2, post)"
    "takeWhile (\<lambda>c. \<not> number_char c) s2 \<noteq> []" "r = dropWhile (\<lambda>c. \<not> number_char c) s2"
    unfolding duration_part_def by (force simp: Let_def split: if_splits option.splits prod.splits)
  then show ?thesis
    using drop [of "\<lambda>c. \<not> number_char c" s2] leadingInt_length fraction_part_length by fastforce
qed

function duration_loop :: "int \<Rightarrow> string \<Rightarrow> int option" where
  "duration_loop d s =
     (if s = [] then Some d
      else case duration_part s of
        None \<Rightarrow> None
      | Some (v, r) \<Rightarrow> if 2 ^ 63 < d + v then None else duration_loop (d + v) r)"
  by pat_completeness auto

termination duration_loop
  by (relation "measure (\<lambda>(d, s). length s)") (auto dest: duration_part_length)

declare duration_loop.simps [simp del]

definition ParseDuration :: "string \<Rightarrow> duration option" where
  "ParseDuration orig =
     (let (neg, s) = (case orig of c # t \<Rightarrow> if c = CHR ''-'' \<or> c = CHR ''+'' then (c = CHR ''-'', t) else (False, orig)
                                 | [] \<Rightarrow> (False, orig))
      in if s = ''0'' then Some 0
         else if s = [] then None
         else case duration_loop 0 s of
                None \<Rightarrow> None
              | Some d \<Rightarrow> if neg then Some (- word_of_int d)
                          else if 2 ^ 63 - 1 < d then None else Some (word_of_int d))"

end
