(* ===== verification/Metrics.thy ===== *)
theory Metrics
  imports Delivery_Handling Dlq_Admin Inventory_Ledger Go_Duration
begin

text \<open>
  Metrics (internal/observability/metrics.go): the counters and the histogram that the consumer
  feeds, and the collector that reads stock, reservations and dead-letter depths when the
  metrics are scraped. The Prometheus client is outside; its state is the sequence of calls made
  on it, from which the value of a counter is read off. Registration can fail, so \<open>New\<close> takes
  what \<open>Register\<close> does as an argument.
\<close>

section \<open>Counters\<close>

abbreviation namespace :: string where "namespace \<equiv> ''stockflow_erp_mock''"

abbreviation processedMessages :: string where
  "processedMessages \<equiv> ''stockflow_erp_mock_processed_messages_total''"
abbreviation failedMessages :: string where
  "failedMessages \<equiv> ''stockflow_erp_mock_failed_messages_total''"
abbreviation rejectedReservations :: string where
  "rejectedReservations \<equiv> ''stockflow_erp_mock_rejected_reservations_total''"
abbreviation confirmedReservations :: string where
  "confirmedReservations \<equiv> ''stockflow_erp_mock_confirmed_reservations_total''"
abbreviation releasedReservations :: string where
  "releasedReservations \<equiv> ''stockflow_erp_mock_released_reservations_total''"
abbreviation idempotencyHits :: string where
  "idempotencyHits \<equiv> ''stockflow_erp_mock_idempotency_hits_total''"
abbreviation processingDuration :: string where
  "processingDuration \<equiv> ''stockflow_erp_mock_message_processing_duration_seconds''"

datatype metric_call =
    CounterInc string "string list"
  | HistogramObserve string "string list" float64

type_synonym metric_calls = "metric_call list"

definition counter_value :: "string \<Rightarrow> string list \<Rightarrow> metric_calls \<Rightarrow> nat" where
  "counter_value name labels made = count_list made (CounterInc name labels)"

text \<open>\<open>Duration.Seconds\<close>: whole seconds plus the rest over a billion, in floating point.\<close>

definition Seconds :: "duration \<Rightarrow> float64" where
  "Seconds d =
     (let n = sint d; sec = sgn n * (\<bar>n\<bar> div 1000000000); nsec = n - sec * 1000000000
      in Finite (float_of_rat (float_of_rat (of_int sec) + float_of_rat (of_int nsec / 1000000000))))"

definition Metrics_ObserveProcessed :: "string \<Rightarrow> string \<Rightarrow> duration \<Rightarrow> metric_calls \<Rightarrow> metric_calls" where
  "Metrics_ObserveProcessed messageType outcome duration made =
     made @ [CounterInc processedMessages [messageType, outcome],
              HistogramObserve processingDuration [messageType] (Seconds duration)]"

definition Metrics_IncrementFailed :: "string \<Rightarrow> string \<Rightarrow> metric_calls \<Rightarrow> metric_calls" where
  "Metrics_IncrementFailed messageType reason made = made @ [CounterInc failedMessages [messageType, reason]]"

definition Metrics_IncrementRejectedReservation :: "metric_calls \<Rightarrow> metric_calls" where
  "Metrics_IncrementRejectedReservation made = made @ [CounterInc rejectedReservations []]"

definition Metrics_IncrementConfirmedReservation :: "metric_calls \<Rightarrow> metric_calls" where
  "Metrics_IncrementConfirmedReservation made = made @ [CounterInc confirmedReservations []]"

definition Metrics_IncrementReleasedReservation :: "metric_calls \<Rightarrow> metric_calls" where
  "Metrics_IncrementReleasedReservation made = made @ [CounterInc releasedReservations []]"

definition Metrics_IncrementIdempotencyHit :: "metric_calls \<Rightarrow> metric_calls" where
  "Metrics_IncrementIdempotencyHit made = made @ [CounterInc idempotencyHits []]"

definition prometheus_metrics :: "metric_calls ConsumerMetrics" where
  "prometheus_metrics =
     \<lparr>ObserveProcessed = Metrics_ObserveProcessed, IncrementFailed = Metrics_IncrementFailed,
      IncrementRejectedReservation = Metrics_IncrementRejectedReservation,
      IncrementConfirmedReservation = Metrics_IncrementConfirmedReservation,
      IncrementReleasedReservation = Metrics_IncrementReleasedReservation,
      IncrementIdempotencyHit = Metrics_IncrementIdempotencyHit\<rparr>"

lemmas metrics_defs = prometheus_metrics_def Metrics_ObserveProcessed_def Metrics_IncrementFailed_def
  Metrics_IncrementRejectedReservation_def Metrics_IncrementConfirmedReservation_def
  Metrics_IncrementReleasedReservation_def Metrics_IncrementIdempotencyHit_def

section \<open>Registration\<close>

abbreviation currentStock :: string where "currentStock \<equiv> ''stockflow_erp_mock_current_stock''"
abbreviation active_desc :: string where "active_desc \<equiv> ''stockflow_erp_mock_active_reservations''"
abbreviation dlqDepth :: string where "dlqDepth \<equiv> ''stockflow_erp_mock_dlq_depth''"

text \<open>A collector to register is the list of the descriptors it describes.\<close>

definition runtimeCollector_Describe :: "string list" where
  "runtimeCollector_Describe = [currentStock, active_desc, dlqDepth]"

fun register_all :: "(string list \<Rightarrow> 'p \<Rightarrow> go_error option \<times> 'p) \<Rightarrow> string list list \<Rightarrow> 'p \<Rightarrow> go_error option \<times> 'p" where
  "register_all register [] p = (None, p)"
| "register_all register (d # ds) p =
     (case register d p of (Some err, p') \<Rightarrow> (Some err, p') | (None, p') \<Rightarrow> register_all register ds p')"

definition Metrics_New ::
  "(string list \<Rightarrow> 'p \<Rightarrow> go_error option \<times> 'p) \<Rightarrow> 'p \<Rightarrow> metric_calls ConsumerMetrics result \<times> 'p" where
  "Metrics_New register registry =
     (case register runtimeCollector_Describe registry of
        (Some err, p) \<Rightarrow> (Inl err, p)
      | (None, p) \<Rightarrow>
          (case register_all register [[processedMessages], [failedMessages], [rejectedReservations],
                  [confirmedReservations], [releasedReservations], [idempotencyHits], [processingDuration]] p of
             (Some err, p') \<Rightarrow> (Inl err, p')
           | (None, p') \<Rightarrow> (Inr prometheus_metrics, p')))"

section \<open>Collection\<close>

datatype sample =
    ConstMetric string float64 "string list"
  | InvalidMetric string go_error

definition float64_of_int :: "go_int \<Rightarrow> float64" where
  "float64_of_int n = Finite (float_of_rat (of_int (sint n)))"

fun count_active :: "Reservation list \<Rightarrow> go_int \<Rightarrow> go_int" where
  "count_active [] active = active"
| "count_active (v # vs) active =
     count_active vs (if Status v = ReservationStatusActive then active + 1 else active)"

text \<open>
  \<open>Collect\<close> asks the repository and the admin under one context, in this order; \<open>stock_order\<close>,
  \<open>reservation_order\<close> and \<open>queue_order\<close> are the orders in which the maps are ranged over.
\<close>

definition runtimeCollector_Collect ::
  "(go_context \<Rightarrow> 's \<Rightarrow> (DeadLetterQueue, go_int) fmap result \<times> 's) \<Rightarrow> go_context \<Rightarrow> string list \<Rightarrow>
   string list \<Rightarrow> DeadLetterQueue list \<Rightarrow> InventoryRepository \<Rightarrow> 's \<Rightarrow> sample list \<times> 's" where
  "runtimeCollector_Collect dlq_depth ctx stock_order reservation_order queue_order repository s =
     (let stock_samples =
            (case fst (InventoryRepository_ListStock ctx stock_order repository) of
               Inl err \<Rightarrow> [InvalidMetric currentStock err]
             | Inr items \<Rightarrow>
                 map (\<lambda>item. ConstMetric currentStock (float64_of_int (AvailableQuantity item)) [item_SKU item]) items);
          ctx = ctx_next ctx;
          reservation_samples =
            (case fst (InventoryRepository_ListReservations ctx reservation_order repository) of
               Inl err \<Rightarrow> [InvalidMetric active_desc err]
             | Inr held \<Rightarrow>
                 [ConstMetric active_desc (float64_of_int (count_active held 0)) []]);
          ctx = ctx_next ctx;
          (depth, s') = dlq_depth ctx s;
          depth_samples =
            (case depth of
               Inl err \<Rightarrow> [InvalidMetric dlqDepth err]
             | Inr m \<Rightarrow>
                 map (\<lambda>queue. ConstMetric dlqDepth (float64_of_int (the (fmlookup m queue))) [queue]) queue_order)
      in (stock_samples @ reservation_samples @ depth_samples, s'))"

section \<open>What the counters count\<close>

lemma counter_value_simps [simp]:
  "counter_value name labels [] = 0"
  "counter_value name labels (c # made) =
     (if c = CounterInc name labels then 1 else 0) + counter_value name labels made"
  "counter_value name labels (made @ made') = counter_value name labels made + counter_value name labels made'"
  by (simp_all add: counter_value_def)

text \<open>All increments of a counter, whatever the labels.\<close>

definition increments :: "string \<Rightarrow> metric_calls \<Rightarrow> nat" where
  "increments name made = length (filter (\<lambda>c. \<exists>labels. c = CounterInc name labels) made)"

lemma increments_simps [simp]:
  "increments name [] = 0"
  "increments name (c # made) = (if \<exists>labels. c = CounterInc name labels then 1 else 0) + increments name made"
  "increments name (made @ made') = increments name made + increments name made'"
  by (simp_all add: increments_def)

lemma consumerMetrics_SetMetrics [simp]: "consumerMetrics (SetMetrics ms c) = ms"
  by (simp add: consumerMetrics_def SetMetrics_def)

lemma prometheus_increments:
  "increments name (ObserveProcessed prometheus_metrics t outcome elapsed m) =
     increments name m + (if name = processedMessages then 1 else 0)"
  "increments name (IncrementFailed prometheus_metrics t reason m) =
     increments name m + (if name = failedMessages then 1 else 0)"
  "increments name (IncrementRejectedReservation prometheus_metrics m) =
     increments name m + (if name = rejectedReservations then 1 else 0)"
  "increments name (IncrementConfirmedReservation prometheus_metrics m) =
     increments name m + (if name = confirmedReservations then 1 else 0)"
  "increments name (IncrementReleasedReservation prometheus_metrics m) =
     increments name m + (if name = releasedReservations then 1 else 0)"
  "increments name (IncrementIdempotencyHit prometheus_metrics m) =
     increments name m + (if name = idempotencyHits then 1 else 0)"
  by (auto simp: metrics_defs)

lemma observeFailure_increments:
  assumes "observeFailure ops (SetMetrics prometheus_metrics c) t reason startedAt (m, w) = (m', w')"
  shows "increments name m' = increments name m + (if name \<in> {processedMessages, failedMessages} then 1 else 0)"
  using assms by (auto simp: observeFailure_def Let_def prometheus_increments split: prod.splits)

text \<open>
  One delivery: one message is processed, and it fails or, for the decisions there are, is
  counted under its decision.
\<close>

definition decided :: "metric_calls \<Rightarrow> nat" where
  "decided m = increments failedMessages m + increments confirmedReservations m +
     increments rejectedReservations m + increments releasedReservations m"

lemma handleDelivery_increments:
  assumes "handleDelivery ops (SetMetrics prometheus_metrics c) ctx d handler publisher (h, m, w) =
      (err, (h', m', w'))"
  shows "increments processedMessages m' = increments processedMessages m + 1" and "decided m' \<le> decided m + 1"
  using assms unfolding handleDelivery_def
  by (auto simp: Let_def prometheus_increments observeFailure_increments decided_def
      split: prod.splits sum.splits option.splits if_splits)

lemma handleReleaseDelivery_increments:
  assumes "handleReleaseDelivery ops (SetMetrics prometheus_metrics c) ctx d handler publisher (h, m, w) =
      (err, (h', m', w'))"
  shows "increments processedMessages m' = increments processedMessages m + 1" and "decided m' \<le> decided m + 1"
  using assms unfolding handleReleaseDelivery_def
  by (auto simp: Let_def prometheus_increments observeFailure_increments decided_def
      split: prod.splits sum.splits option.splits if_splits)

text \<open>The surplus of counted messages over settled deliveries, which the loop keeps.\<close>

definition balanced :: "('h, metric_calls, 'b) consumer_state \<Rightarrow> ('h, metric_calls, 'b) consumer_state \<Rightarrow> bool" where
  "balanced s s' \<longleftrightarrow> (case (s, s') of ((h, m, w), (h', m', w')) \<Rightarrow>
     increments processedMessages m' + length (settled_tags (history w)) =
       increments processedMessages m + length (settled_tags (history w')))"

lemma balanced_refl [simp]: "balanced s s"
  by (simp add: balanced_def split: prod.split)

lemma balanced_trans: "balanced s s' \<Longrightarrow> balanced s' s'' \<Longrightarrow> balanced s s''"
  by (auto simp: balanced_def)

lemma delivery_balanced:
  assumes "result_publisher publisher"
  shows "handleDelivery ops (SetMetrics prometheus_metrics c) ctx d handler publisher s = (err, s') \<Longrightarrow> balanced s s'"
    and "handleReleaseDelivery ops (SetMetrics prometheus_metrics c) ctx d rhandler publisher s = (err, s') \<Longrightarrow>
      balanced s s'"
proof -
  have handling: "delivery_handling publisher" using assms by (simp add: delivery_handling_def)
  obtain h m w h' m' w' where s: "s = (h, m, w)" "s' = (h', m', w')" by (metis prod_cases3)
  show "balanced s s'" if "handleDelivery ops (SetMetrics prometheus_metrics c) ctx d handler publisher s = (err, s')"
    using delivery_handling.handleDelivery_events [OF handling that [unfolded s]]
      handleDelivery_increments(1) [OF that [unfolded s]]
    by (auto simp: s balanced_def dest: disposed_settles)
  show "balanced s s'"
    if "handleReleaseDelivery ops (SetMetrics prometheus_metrics c) ctx d rhandler publisher s = (err, s')"
    using delivery_handling.handleReleaseDelivery_events [OF handling that [unfolded s]]
      handleReleaseDelivery_increments(1) [OF that [unfolded s]]
    by (auto simp: s balanced_def dest: disposed_settles)
qed

lemma consume_loop_balanced:
  assumes publishers: "\<And>env. result_publisher (publisher env)"
    and "consume_loop ops (SetMetrics prometheus_metrics c) handler releaseHandler publisher rounds s = (status, s')"
  shows "balanced s s'"
  using assms(2)
proof (induction rounds arbitrary: s)
  case (Cons r rounds)
  note step = delivery_balanced [OF publishers] and IH = balanced_trans [OF _ Cons.IH]
  show ?case
  proof (cases r)
    case ContextDone
    obtain h m w where s: "s = (h, m, w)" by (metis prod_cases3)
    show ?thesis using Cons.prems ContextDone s
      by (auto simp: and_then_def Let_def balanced_def dest!: cancel_consumer_settles split: prod.splits option.splits)
  next
    case (DeliveryReceived env ctx od)
    with Cons.prems show ?thesis
      by (cases od) (auto dest!: step(1) intro: IH split: prod.splits option.splits)
  next
    case (ReleaseReceived env ctx od)
    with Cons.prems show ?thesis
      by (cases od) (auto dest!: step(2) intro: IH split: prod.splits option.splits)
  qed
qed simp

text \<open>
  Property C34. The metrics account for the deliveries: over any run of the consumer the number
  of messages counted as processed, over all types and outcomes, grows by exactly the number of
  deliveries settled.
\<close>

theorem processed_equals_settled:
  assumes "consume_loop ops (SetMetrics prometheus_metrics c) handler releaseHandler
      (\<lambda>env. FailureSimulationPublisher (Publisher ops) (failureModes env)) rounds (h, m, w) =
      (status, (h', m', w'))"
  shows "increments processedMessages m' + length (settled_tags (history w)) =
    increments processedMessages m + length (settled_tags (history w'))"
  using consume_loop_balanced [OF wired_publisher.simulated.result_publisher_axioms assms]
  by (simp add: balanced_def)

theorem processed_equals_settled_witness:
  "\<exists>status h m w. consume_loop steady_ops (SetMetrics prometheus_metrics
       \<lparr>consumerTag = ''erp'', maxRetryCount = 3, metrics = None\<rparr>) failing_handler failing_handler
       (\<lambda>env. FailureSimulationPublisher (Publisher steady_ops) (failureModes env))
       [DeliveryReceived sample_simulation Background (Some sample_delivery),
        ReleaseReceived sample_simulation Background (Some sample_release_delivery)]
       ((), [], steady_world) = (status, (h, m, w)) \<and>
     increments processedMessages m = length (settled_tags (history w))"
proof -
  let ?run = "consume_loop steady_ops (SetMetrics prometheus_metrics
       \<lparr>consumerTag = ''erp'', maxRetryCount = 3, metrics = None\<rparr>) failing_handler failing_handler
       (\<lambda>env. FailureSimulationPublisher (Publisher steady_ops) (failureModes env))
       [DeliveryReceived sample_simulation Background (Some sample_delivery),
        ReleaseReceived sample_simulation Background (Some sample_release_delivery)] ((), [], steady_world)"
  obtain status h m w where run: "?run = (status, (h, m, w))" by (metis prod_cases3)
  from processed_equals_settled [OF run] have "increments processedMessages m = length (settled_tags (history w))"
    by (simp add: steady_world_def)
  with run show ?thesis by blast
qed

section \<open>What is collected\<close>

fun sample_desc :: "sample \<Rightarrow> string" where
  "sample_desc (ConstMetric d v labels) = d"
| "sample_desc (InvalidMetric d err) = d"

lemma count_active_eq:
  "count_active vs n = n + of_nat (length (filter (\<lambda>v. Status v = ReservationStatusActive) vs))"
  by (induction vs arbitrary: n) (simp_all add: algebra_simps)

text \<open>
  Property C35. A scrape reports the repository as it is, for any order in which the maps are
  ranged over: one sample per SKU with its available units, exact below 2 to the 53, and the
  number of active reservations, exact as long as there are fewer than 2 to the 53.
\<close>

theorem collect_reports_state:
  assumes "range_order (stock r) ks" and "range_order (reservations r) rs" and "repo_wf r"
    and "\<And>sku i. fmlookup (stock r) sku = Some i \<Longrightarrow> \<bar>sint (AvailableQuantity i)\<bar> < 2 ^ 53"
    and "card (fmdom' (reservations r)) < 2 ^ 53"
    and "runtimeCollector_Collect dlq_depth Background ks rs qs r s = (samples, s')"
  shows "(\<forall>v labels. ConstMetric currentStock v labels \<in> set samples \<longleftrightarrow>
      (\<exists>sku i. fmlookup (stock r) sku = Some i \<and> labels = [sku] \<and> v = Finite (of_int (sint (AvailableQuantity i))))) \<and>
    ConstMetric active_desc (Finite (of_nat (card {rid. \<exists>v. fmlookup (reservations r) rid = Some v \<and>
      Status v = ReservationStatusActive}))) [] \<in> set samples"
proof -
  let ?active = "\<lambda>v. Status v = ReservationStatusActive"
  let ?as = "{rid. \<exists>v. fmlookup (reservations r) rid = Some v \<and> ?active v}"
  have held: "length (filter ?active (sort_key ID (range_values (reservations r) rs))) = card ?as"
  proof -
    have ks: "distinct rs" "set rs = fmdom' (reservations r)" using assms(2) by (simp_all add: range_order_def)
    have "length (filter ?active (sort_key ID (range_values (reservations r) rs))) =
        length (filter ?active (range_values (reservations r) rs))"
      by (simp add: filter_sort)
    also have "\<dots> = length (filter (\<lambda>k. ?active (the (fmlookup (reservations r) k))) rs)"
      by (simp add: range_values_map [OF assms(2)] filter_map comp_def)
    also have "\<dots> = card (set (filter (\<lambda>k. ?active (the (fmlookup (reservations r) k))) rs))"
      using ks(1) by (intro distinct_card [symmetric]) simp
    also have "set (filter (\<lambda>k. ?active (the (fmlookup (reservations r) k))) rs) = ?as"
      using ks(2) by (auto simp: fmlookup_dom'_iff)
    finally show ?thesis .
  qed
  have "?as \<subseteq> fmdom' (reservations r)" by (auto simp: fmlookup_dom'_iff)
  then have "card ?as \<le> card (fmdom' (reservations r))" by (intro card_mono) simp_all
  then have small: "int (card ?as) < 2 ^ 53" using assms(5) by simp
  have "sint (of_nat (card ?as) :: go_int) = int (card ?as)"
    using small sint_word_of_int [of "int (card ?as)"] by (simp add: fits_int64_def)
  with small have active: "float64_of_int (of_nat (card ?as)) = Finite (of_nat (card ?as))"
    using float_of_rat_exact [of "int (card ?as)"] by (simp add: float64_of_int_def)
  have item: "float64_of_int (AvailableQuantity i) = Finite (of_int (sint (AvailableQuantity i))) \<and> item_SKU i = sku"
    if "fmlookup (stock r) sku = Some i" for sku i
    using float_of_rat_exact [OF assms(4) [OF that]] repo_wf_stockD [OF assms(3) that]
    by (simp add: float64_of_int_def stock_entry_ok_def)
  let ?items = "map (\<lambda>i. ConstMetric currentStock (float64_of_int (AvailableQuantity i)) [item_SKU i])
      (sort_key item_SKU (range_values (stock r) ks))"
  have "\<exists>tail. samples = ?items @ ConstMetric active_desc (float64_of_int (of_nat (card ?as))) [] # tail \<and>
      list_all (\<lambda>x. sample_desc x = dlqDepth) tail"
    using assms(6)
    by (auto simp: runtimeCollector_Collect_def InventoryRepository_ListStock_def Let_def list_all_iff
        InventoryRepository_ListReservations_def count_active_eq held split: prod.splits sum.splits)
  then obtain tail where samples: "samples = ?items @
      ConstMetric active_desc (float64_of_int (of_nat (card ?as))) [] # tail"
    and tail: "list_all (\<lambda>x. sample_desc x = dlqDepth) tail" by blast
  have "ConstMetric currentStock v labels \<in> set samples \<longleftrightarrow> ConstMetric currentStock v labels \<in> set ?items"
    for v labels using tail by (auto simp: samples list_all_iff)
  moreover have "ConstMetric currentStock v labels \<in> set ?items \<longleftrightarrow> (\<exists>sku i. fmlookup (stock r) sku = Some i \<and>
      labels = [sku] \<and> v = Finite (of_int (sint (AvailableQuantity i))))" for v labels
    unfolding set_map set_sort set_range_values [OF assms(1)] using item by (auto simp: image_iff)
  moreover have "ConstMetric active_desc (Finite (of_nat (card ?as))) [] \<in> set samples"
    by (simp add: samples active)
  ultimately show ?thesis by simp
qed

theorem collect_reports_state_witness:
  "\<exists>samples s. runtimeCollector_Collect (\<lambda>_ s. (Inr fmempty, s)) Background [''sku-1''] [''res-1''] []
       sample_reserved () = (samples, s) \<and>
     ConstMetric currentStock (Finite 6) [''sku-1''] \<in> set samples \<and>
     ConstMetric active_desc (Finite 1) [] \<in> set samples"
proof -
  have orders: "range_order (stock sample_reserved) [''sku-1'']"
    "range_order (reservations sample_reserved) [''res-1'']"
    by (simp_all add: range_order_def sample_reserved_eq fmdom'_fmupd)
  have wf: "repo_wf sample_reserved" using sample_reserved_ok by (simp add: repo_ok_def)
  have small: "\<bar>sint (AvailableQuantity i)\<bar> < 2 ^ 53" if "fmlookup (stock sample_reserved) sku = Some i" for sku i
    using that by (auto simp: sample_reserved_eq split: if_splits)
  have few: "card (fmdom' (reservations sample_reserved)) < 2 ^ 53" by (simp add: sample_reserved_eq fmdom'_fmupd)
  have one: "{rid. \<exists>v. fmlookup (reservations sample_reserved) rid = Some v \<and>
      Status v = ReservationStatusActive} = {''res-1''}" by (auto simp: sample_reserved_eq)
  obtain samples s where run: "runtimeCollector_Collect (\<lambda>_ s. (Inr fmempty, s)) Background [''sku-1'']
      [''res-1''] [] sample_reserved () = (samples, s)" by (metis surj_pair)
  have item: "fmlookup (stock sample_reserved) ''sku-1'' =
      Some \<lparr>item_SKU = ''sku-1'', AvailableQuantity = 6, ReservedQuantity = 4\<rparr>" by (simp add: sample_reserved_eq)
  note reported = collect_reports_state [OF orders wf small few run]
  then have "ConstMetric active_desc (Finite 1) [] \<in> set samples" by (simp add: one)
  moreover from reported item have "ConstMetric currentStock (Finite 6) [''sku-1''] \<in> set samples" by simp
  ultimately show ?thesis using run by blast
qed

end
