(* ===== verification/Amqp_Clients.thy ===== *)
theory Amqp_Clients
  imports Delivery_Handling
begin

text \<open>
  Opening and closing the three AMQP clients: \<open>NewConsumer\<close>, \<open>NewPublisher\<close>, \<open>NewAdmin\<close> and their
  \<open>Close\<close> methods (consumer.go, publisher.go, admin.go). The field \<open>closeOnce\<close> is a flag that says
  whether \<open>Close\<close> has run. It is shown where the declared topology sends messages, and that a
  constructor that fails leaves no connection open.
\<close>

section \<open>Closing\<close>

definition close_error :: "string \<Rightarrow> go_error option \<Rightarrow> go_error option" where
  "close_error what e =
     (case e of
        None \<Rightarrow> None
      | Some err \<Rightarrow> if errors_Is err AmqpErrClosed then None else Some (Wrapf [Lit what] err []))"

definition close_client ::
  "'b world_ops \<Rightarrow> client \<Rightarrow> string \<Rightarrow> string \<Rightarrow> bool \<times> 'b world \<Rightarrow> go_error option \<times> (bool \<times> 'b world)" where
  "close_client ops c channel_text connection_text = (\<lambda>(once, w).
     if once then (None, (once, w))
     else
       (let (e1, w1) = call_amqp ops c CloseChannel w;
            closeError = close_error channel_text e1;
            (e2, w2) = call_amqp ops c CloseConnection w1;
            closeError = (if closeError = None then close_error connection_text e2 else closeError)
        in (closeError, (True, w2))))"

definition Consumer_Close :: "'b world_ops \<Rightarrow> bool \<times> 'b world \<Rightarrow> go_error option \<times> (bool \<times> 'b world)" where
  "Consumer_Close ops = close_client ops ConsumerClient
     ''close RabbitMQ channel: '' ''close RabbitMQ connection: ''"

definition Publisher_Close :: "'b world_ops \<Rightarrow> bool \<times> 'b world \<Rightarrow> go_error option \<times> (bool \<times> 'b world)" where
  "Publisher_Close ops = close_client ops PublisherClient
     ''close RabbitMQ publisher channel: '' ''close RabbitMQ publisher connection: ''"

definition Admin_Close :: "'b world_ops \<Rightarrow> bool \<times> 'b world \<Rightarrow> go_error option \<times> (bool \<times> 'b world)" where
  "Admin_Close ops = close_client ops AdminClient
     ''close RabbitMQ admin channel: '' ''close RabbitMQ admin connection: ''"

section \<open>Opening\<close>

text \<open>
  The three constructors have one shape: dial, open a channel (closing the connection when that
  fails), set the channel up (calling \<open>Close\<close> when that fails).
\<close>

definition open_client ::
  "'b world_ops \<Rightarrow> client \<Rightarrow> string \<Rightarrow> string \<Rightarrow> string \<Rightarrow>
   (bool \<times> 'b world \<Rightarrow> go_error option \<times> (bool \<times> 'b world)) \<Rightarrow> 'b step \<Rightarrow> 'b step" where
  "open_client ops c url dial_text channel_text close set_up w =
     (case call_amqp ops c (Dial url) w of
        (Some err, w1) \<Rightarrow> (Some (Wrapf [Lit dial_text] err []), w1)
      | (None, w1) \<Rightarrow>
     (case call_amqp ops c OpenChannel w1 of
        (Some err, w2) \<Rightarrow>
          (let (_, w3) = call_amqp ops c CloseConnection w2
           in (Some (Wrapf [Lit channel_text] err []), w3))
      | (None, w2) \<Rightarrow>
     (case set_up w2 of
        (Some err, w3) \<Rightarrow> (let (_, (_, w4)) = close (False, w3) in (Some err, w4))
      | (None, w3) \<Rightarrow> (None, w3))))"

definition NewConsumer :: "'b world_ops \<Rightarrow> ConsumerConfig \<Rightarrow> 'b world \<Rightarrow> 'm Consumer result \<times> 'b world" where
  "NewConsumer ops config w =
     (case open_client ops ConsumerClient (con_URL config) ''dial RabbitMQ: '' ''open RabbitMQ channel: ''
             (Consumer_Close ops)
             (Consumer_declareTopology ops (con_PrefetchCount config) (con_RetryDelay config)) w of
        (Some err, w') \<Rightarrow> (Inl err, w')
      | (None, w') \<Rightarrow>
          (Inr \<lparr>consumerTag = con_ConsumerTag config, maxRetryCount = con_MaxRetryCount config,
                metrics = None\<rparr>, w'))"

definition Publisher_declareTopology :: "'b world_ops \<Rightarrow> 'b step" where
  "Publisher_declareTopology ops = in_order (map (\<lambda>exchangeName.
       wrapping [Lit ''declare exchange '', Quoted exchangeName, Lit '' for publisher: '']
         (call_amqp ops PublisherClient (DeclareExchange exchangeName ''topic'' True)))
     [InventoryExchangeName, InventoryRetryExchangeName, InventoryDeadLetterExchangeName])"

definition NewPublisher :: "'b world_ops \<Rightarrow> string \<Rightarrow> 'b step" where
  "NewPublisher ops url =
     open_client ops PublisherClient url ''dial RabbitMQ publisher: '' ''open RabbitMQ publisher channel: ''
       (Publisher_Close ops)
       (and_then (Publisher_declareTopology ops)
          (wrapping [Lit ''enable RabbitMQ publisher confirms: ''] (call_amqp ops PublisherClient ConfirmMode)))"

definition NewAdmin :: "'b world_ops \<Rightarrow> string \<Rightarrow> 'b step" where
  "NewAdmin ops url =
     open_client ops AdminClient url ''dial RabbitMQ admin: '' ''open RabbitMQ admin channel: ''
       (Admin_Close ops)
       (wrapping [Lit ''enable RabbitMQ admin publisher confirms: ''] (call_amqp ops AdminClient ConfirmMode))"

section \<open>The topology\<close>

definition request_topology :: "string \<Rightarrow> string \<Rightarrow> string \<Rightarrow> string \<Rightarrow> duration \<Rightarrow> amqp_command list" where
  "request_topology queueName retryQueueName deadLetterQueueName routingKey retryDelay =
     [DeclareQueue queueName True (fmap_of_list
        [(''x-dead-letter-exchange'', HString InventoryDeadLetterExchangeName),
         (''x-dead-letter-routing-key'', HString routingKey)]),
      BindQueue queueName routingKey InventoryExchangeName,
      DeclareQueue retryQueueName True (fmap_of_list
        [(''x-dead-letter-exchange'', HString InventoryExchangeName),
         (''x-dead-letter-routing-key'', HString routingKey),
         (''x-message-ttl'', HInt64 (Milliseconds retryDelay))]),
      BindQueue retryQueueName routingKey InventoryRetryExchangeName,
      DeclareQueue deadLetterQueueName True fmempty,
      BindQueue deadLetterQueueName routingKey InventoryDeadLetterExchangeName]"

definition consumer_topology :: "go_int \<Rightarrow> duration \<Rightarrow> amqp_command list" where
  "consumer_topology prefetchCount retryDelay =
     [DeclareExchange InventoryExchangeName ''topic'' True,
      DeclareExchange InventoryRetryExchangeName ''topic'' True,
      DeclareExchange InventoryDeadLetterExchangeName ''topic'' True] @
     request_topology ReservationRequestedQueueName ReservationRequestedRetryQueueName
       ReservationRequestedDeadLetterQueueName ReservationRequestedRoutingKey retryDelay @
     request_topology ReservationReleaseRequestedQueueName ReservationReleaseRequestedRetryQueueName
       ReservationReleaseRequestedDeadLetterQueueName ReservationReleaseRequestedRoutingKey retryDelay @
     [SetQos prefetchCount]"

lemma calls_request_topology:
  "calls ConsumerClient (request_topology q r dl key delay) (declareRequestTopology ops q r dl key delay)"
proof -
  have "calls ConsumerClient (concat (map (\<lambda>cmd. [cmd]) (request_topology q r dl key delay)))
      (declareRequestTopology ops q r dl key delay)"
    unfolding declareRequestTopology_def
    by (rule calls_in_order) (simp add: request_topology_def calls_intros)
  then show ?thesis by (simp add: request_topology_def)
qed

lemma calls_consumer_topology:
  "calls ConsumerClient (consumer_topology prefetch delay) (Consumer_declareTopology ops prefetch delay)"
proof -
  let ?topology = "\<lambda>q r dl key. request_topology q r dl key delay"
  have "calls ConsumerClient (concat
     [[DeclareExchange InventoryExchangeName ''topic'' True],
      [DeclareExchange InventoryRetryExchangeName ''topic'' True],
      [DeclareExchange InventoryDeadLetterExchangeName ''topic'' True],
      ?topology ReservationRequestedQueueName ReservationRequestedRetryQueueName
        ReservationRequestedDeadLetterQueueName ReservationRequestedRoutingKey,
      ?topology ReservationReleaseRequestedQueueName ReservationReleaseRequestedRetryQueueName
        ReservationReleaseRequestedDeadLetterQueueName ReservationReleaseRequestedRoutingKey,
      [SetQos prefetch]]) (Consumer_declareTopology ops prefetch delay)"
    unfolding Consumer_declareTopology_def
    by (rule calls_in_order) (simp add: calls_intros calls_request_topology)
  then show ?thesis by (simp add: consumer_topology_def)
qed

text \<open>
  Where the declared bindings and queue arguments send a message with a literal routing key: to
  the queues bound to its exchange with that key, and from a queue, when the message is rejected
  without requeue or its time to live is over, to where the queue's dead-letter arguments say.
\<close>

definition bound_queues :: "amqp_command list \<Rightarrow> string \<Rightarrow> string \<Rightarrow> string list" where
  "bound_queues cmds exchange key =
     List.map_filter (\<lambda>cmd. case cmd of
        BindQueue q k e \<Rightarrow> if e = exchange \<and> k = key then Some q else None | _ \<Rightarrow> None) cmds"

definition dead_letter_queues :: "amqp_command list \<Rightarrow> string \<Rightarrow> string list" where
  "dead_letter_queues cmds queue = concat (List.map_filter (\<lambda>cmd. case cmd of
     DeclareQueue q durable args \<Rightarrow>
       (if q \<noteq> queue then None
        else case (fmlookup args ''x-dead-letter-exchange'', fmlookup args ''x-dead-letter-routing-key'') of
          (Some (HString exchange), Some (HString key)) \<Rightarrow> Some (bound_queues cmds exchange key)
        | _ \<Rightarrow> None)
   | _ \<Rightarrow> None) cmds)"

definition declared :: "client \<Rightarrow> amqp_event list \<Rightarrow> amqp_command list" where
  "declared c evs = List.map_filter (\<lambda>ev. case ev of
     Called c' cmd None \<Rightarrow> if c' = c then Some cmd else None | _ \<Rightarrow> None) evs"

lemma declared_calls: "declared c (map (\<lambda>cmd. Called c cmd None) cmds) = cmds"
  by (induction cmds) (simp_all add: declared_def List.map_filter_simps)

lemma declared_append: "declared c (xs @ ys) = declared c xs @ declared c ys"
  by (induction xs) (simp_all add: declared_def List.map_filter_simps split: option.split)

lemma NewConsumer_declares:
  assumes "NewConsumer ops config w = (Inr c, w')" and "declared ConsumerClient (history w) = []"
  shows "declared ConsumerClient (history w') = [Dial (con_URL config), OpenChannel] @
    consumer_topology (con_PrefetchCount config) (con_RetryDelay config)"
proof -
  from assms(1) obtain w1 w2 where w1: "call_amqp ops ConsumerClient (Dial (con_URL config)) w = (None, w1)"
    and w2: "call_amqp ops ConsumerClient OpenChannel w1 = (None, w2)"
    and w3: "Consumer_declareTopology ops (con_PrefetchCount config) (con_RetryDelay config) w2 = (None, w')"
    by (auto simp: NewConsumer_def open_client_def Let_def split: prod.splits option.splits)
  note h = calls_success [OF calls_call_amqp w1] calls_success [OF calls_call_amqp w2]
    calls_success [OF calls_consumer_topology w3]
  have "history w' = history w @ map (\<lambda>cmd. Called ConsumerClient cmd None) ([Dial (con_URL config), OpenChannel] @
      consumer_topology (con_PrefetchCount config) (con_RetryDelay config))" using h by simp
  then show ?thesis using assms(2) by (simp only: declared_append declared_calls) simp
qed

text \<open>
  Property C26. The topology that \<open>NewConsumer\<close> has declared when it succeeds routes as the retry
  scheme needs, for both kinds of request: a request goes to its queue and to no other; a copy
  on the retry exchange goes to the retry queue, from which it falls back, when its time is
  over, into the request queue; a copy on the dead-letter exchange, and a delivery refused
  without requeue, goes to the dead-letter queue; and a dead-letter queue passes nothing on.
\<close>

theorem topology_routes:
  assumes "NewConsumer ops config w = (Inr c, w')" and "declared ConsumerClient (history w) = []"
  shows "let cmds = declared ConsumerClient (history w') in
    bound_queues cmds InventoryExchangeName ReservationRequestedRoutingKey = [ReservationRequestedQueueName] \<and>
    bound_queues cmds InventoryRetryExchangeName ReservationRequestedRoutingKey =
      [ReservationRequestedRetryQueueName] \<and>
    dead_letter_queues cmds ReservationRequestedRetryQueueName = [ReservationRequestedQueueName] \<and>
    bound_queues cmds InventoryDeadLetterExchangeName ReservationRequestedRoutingKey =
      [ReservationRequestedDeadLetterQueueName] \<and>
    dead_letter_queues cmds ReservationRequestedQueueName = [ReservationRequestedDeadLetterQueueName] \<and>
    dead_letter_queues cmds ReservationRequestedDeadLetterQueueName = [] \<and>
    bound_queues cmds InventoryExchangeName ReservationReleaseRequestedRoutingKey =
      [ReservationReleaseRequestedQueueName] \<and>
    bound_queues cmds InventoryRetryExchangeName ReservationReleaseRequestedRoutingKey =
      [ReservationReleaseRequestedRetryQueueName] \<and>
    dead_letter_queues cmds ReservationReleaseRequestedRetryQueueName = [ReservationReleaseRequestedQueueName] \<and>
    bound_queues cmds InventoryDeadLetterExchangeName ReservationReleaseRequestedRoutingKey =
      [ReservationReleaseRequestedDeadLetterQueueName] \<and>
    dead_letter_queues cmds ReservationReleaseRequestedQueueName =
      [ReservationReleaseRequestedDeadLetterQueueName] \<and>
    dead_letter_queues cmds ReservationReleaseRequestedDeadLetterQueueName = []"
  unfolding NewConsumer_declares [OF assms] Let_def consumer_topology_def request_topology_def
  by (intro conjI) (simp_all add: bound_queues_def dead_letter_queues_def List.map_filter_simps)

lemma steady_call: "call_amqp steady_ops c cmd w = (None, w\<lparr>history := history w @ [Called c cmd None]\<rparr>)"
  by (simp add: call_amqp_def perform_def steady_ops_def)

definition sample_config :: ConsumerConfig where
  "sample_config = \<lparr>con_URL = ''amqp://localhost'', con_ConsumerTag = ''erp'', con_MaxRetryCount = 3,
     con_PrefetchCount = 10, con_RetryDelay = 2000000000\<rparr>"

theorem topology_routes_witness:
  "\<exists>c w. (NewConsumer steady_ops sample_config steady_world :: unit Consumer result \<times> unit world) = (Inr c, w) \<and>
     dead_letter_queues (declared ConsumerClient (history w)) ReservationRequestedQueueName =
       [ReservationRequestedDeadLetterQueueName]"
proof -
  have "\<exists>c w. (NewConsumer steady_ops sample_config steady_world :: unit Consumer result \<times> unit world) = (Inr c, w)"
    by (simp add: NewConsumer_def open_client_def steady_call Consumer_declareTopology_def
        declareRequestTopology_def and_then_def wrapping_def no_step_def)
  then obtain c :: "unit Consumer" and w where run: "NewConsumer steady_ops sample_config steady_world = (Inr c, w)"
    by blast
  have "declared ConsumerClient (history steady_world) = []"
    by (simp add: steady_world_def declared_def List.map_filter_simps)
  from topology_routes [OF run this] run show ?thesis by (auto simp: Let_def)
qed

section \<open>Open connections\<close>

text \<open>Whether a history leaves the connection of a client open.\<close>

fun connection_after :: "client \<Rightarrow> bool \<Rightarrow> amqp_event \<Rightarrow> bool" where
  "connection_after c isopen (Called c' cmd e) =
     (if c' \<noteq> c then isopen
      else case cmd of
        Dial url \<Rightarrow> isopen \<or> e = None
      | CloseConnection \<Rightarrow> False
      | _ \<Rightarrow> isopen)"
| "connection_after c isopen _ = isopen"

definition connection_open :: "client \<Rightarrow> 'b world \<Rightarrow> bool" where
  "connection_open c w = foldl (connection_after c) False (history w)"

fun connection_command :: "amqp_command \<Rightarrow> bool" where
  "connection_command (Dial url) = True"
| "connection_command CloseConnection = True"
| "connection_command _ = False"

definition keeps_connections :: "('b world \<Rightarrow> 'a \<times> 'b world) \<Rightarrow> bool" where
  "keeps_connections f \<longleftrightarrow> (\<forall>c w. connection_open c (snd (f w)) = connection_open c w)"

lemma connection_call:
  assumes "call_amqp ops c cmd w = (e, w')"
  shows "connection_open c' w' = connection_after c' (connection_open c' w) (Called c cmd e)"
  using perform_history [OF assms [unfolded call_amqp_def]] by (simp add: connection_open_def)

lemma connection_after_quiet:
  "\<not> connection_command cmd \<Longrightarrow> connection_after c' isopen (Called c cmd e) = isopen"
  by (cases cmd) simp_all

lemma keeps_connections_calls:
  assumes "calls c cmds f" and "\<not> list_ex connection_command cmds"
  shows "keeps_connections f"
proof -
  have quiet: "foldl (connection_after c') isopen (map (\<lambda>cmd. Called c cmd None) done) = isopen"
    if "set done \<subseteq> set cmds" for c' isopen "done"
    using that assms(2)
    by (induction "done") (auto simp: connection_after_quiet list_ex_iff simp del: connection_after.simps)
  have "connection_open c' (snd (f w)) = connection_open c' w" for c' w
  proof (cases "f w")
    case (Pair e w')
    with assms(1) have "called c cmds w (e, w')" by (metis calls_def)
    then show ?thesis
    proof (cases e)
      case None
      with \<open>called c cmds w (e, w')\<close> Pair show ?thesis by (simp add: connection_open_def quiet)
    next
      case (Some err)
      with \<open>called c cmds w (e, w')\<close> obtain "done" cmd rest e' where "cmds = done @ cmd # rest"
        "history w' = history w @ map (\<lambda>cmd. Called c cmd None) done @ [Called c cmd (Some e')]" by auto
      moreover from this(1) have "foldl (connection_after c') isopen (map (\<lambda>cmd. Called c cmd None) done) = isopen"
        for isopen by (intro quiet) auto
      ultimately show ?thesis using Pair assms(2)
        by (simp add: connection_open_def connection_after_quiet del: connection_after.simps)
    qed
  qed
  then show ?thesis by (simp add: keeps_connections_def)
qed

lemma close_client_connection:
  assumes "close_client ops c t t' (once, w) = (e, (once', w'))"
  shows "once' \<and> connection_open c' w' = (connection_open c' w \<and> (once \<or> c' \<noteq> c))"
  using assms unfolding close_client_def
  by (auto simp: Let_def dest!: connection_call [of _ _ _ _ _ _ c'] split: if_splits prod.splits)

lemma open_client_connection:
  assumes run: "open_client ops c url t t' (close_client ops c s s') set_up w = (e, w')"
    and set_up: "keeps_connections set_up" and closed: "\<not> connection_open c w"
  shows "connection_open c' w' = (if c' = c then e = None else connection_open c' w)"
proof -
  obtain e1 w1 where dial: "call_amqp ops c (Dial url) w = (e1, w1)" by fastforce
  obtain e2 w2 where channel: "call_amqp ops c OpenChannel w1 = (e2, w2)" by fastforce
  obtain e3 w3 where prepared: "set_up w2 = (e3, w3)" by fastforce
  note facts = connection_call [OF dial, of c'] connection_call [OF channel, of c']
  have w3: "connection_open c' w3 = connection_open c' w2"
    using set_up prepared by (metis keeps_connections_def snd_conv)
  consider "e1 \<noteq> None" | "e1 = None" "e2 \<noteq> None" | "e1 = None" "e2 = None" "e3 \<noteq> None"
    | "e1 = None" "e2 = None" "e3 = None" by blast
  then show ?thesis
  proof cases
    case 1
    with run dial facts closed show ?thesis by (auto simp: open_client_def)
  next
    case 2
    with run dial channel facts show ?thesis
      by (auto simp: open_client_def Let_def dest!: connection_call [of _ _ _ _ _ _ c'] split: prod.splits)
  next
    case 3
    with run dial channel prepared obtain e4 once where "close_client ops c s s' (False, w3) = (e4, (once, w'))"
      and "e = e3" by (auto simp: open_client_def Let_def split: prod.splits)
    from close_client_connection [OF this(1), of c'] \<open>e = e3\<close> 3 facts w3 show ?thesis by auto
  next
    case 4
    with run dial channel prepared facts w3 show ?thesis by (auto simp: open_client_def)
  qed
qed

text \<open>
  The three constructors: the connection is open afterwards exactly if the constructor
  succeeded, and the other clients' connections are left alone.
\<close>

lemma NewConsumer_connection:
  assumes "NewConsumer ops config w = (r, w')" and "\<not> connection_open ConsumerClient w"
  shows "connection_open c' w' = (if c' = ConsumerClient then \<exists>c. r = Inr c else connection_open c' w)"
proof -
  let ?set_up = "Consumer_declareTopology ops (con_PrefetchCount config) (con_RetryDelay config)"
  have "keeps_connections ?set_up"
    by (rule keeps_connections_calls [OF calls_consumer_topology])
      (simp add: consumer_topology_def request_topology_def)
  moreover obtain e where "open_client ops ConsumerClient (con_URL config) ''dial RabbitMQ: ''
      ''open RabbitMQ channel: '' (Consumer_Close ops) ?set_up w = (e, w')" "(e = None) = (\<exists>c. r = Inr c)"
    using assms(1) by (auto simp: NewConsumer_def split: prod.splits option.splits)
  ultimately show ?thesis
    using open_client_connection [OF _ _ assms(2)] by (simp add: Consumer_Close_def)
qed

lemma NewPublisher_connection:
  assumes "NewPublisher ops url w = (e, w')" and "\<not> connection_open PublisherClient w"
  shows "connection_open c' w' = (if c' = PublisherClient then e = None else connection_open c' w)"
proof -
  have "calls PublisherClient (concat (map (\<lambda>x. [DeclareExchange x ''topic'' True])
      [InventoryExchangeName, InventoryRetryExchangeName, InventoryDeadLetterExchangeName]))
      (Publisher_declareTopology ops)"
    unfolding Publisher_declareTopology_def by (rule calls_in_order) (simp add: calls_intros)
  from calls_and_then [OF this calls_wrapping [OF calls_call_amqp]]
  have "keeps_connections (and_then (Publisher_declareTopology ops)
      (wrapping [Lit ''enable RabbitMQ publisher confirms: ''] (call_amqp ops PublisherClient ConfirmMode)))"
    by (rule keeps_connections_calls) simp
  with assms show ?thesis
    unfolding NewPublisher_def Publisher_Close_def by (intro open_client_connection)
qed

lemma NewAdmin_connection:
  assumes "NewAdmin ops url w = (e, w')" and "\<not> connection_open AdminClient w"
  shows "connection_open c' w' = (if c' = AdminClient then e = None else connection_open c' w)"
proof -
  have "keeps_connections (wrapping [Lit ''enable RabbitMQ admin publisher confirms: '']
      (call_amqp ops AdminClient ConfirmMode))"
    by (rule keeps_connections_calls [OF calls_wrapping [OF calls_call_amqp]]) simp
  with assms show ?thesis
    unfolding NewAdmin_def Admin_Close_def by (intro open_client_connection)
qed

lemmas Close_connection =
  close_client_connection [of _ ConsumerClient "''close RabbitMQ channel: ''" "''close RabbitMQ connection: ''",
    folded Consumer_Close_def]
  close_client_connection [of _ PublisherClient "''close RabbitMQ publisher channel: ''"
    "''close RabbitMQ publisher connection: ''", folded Publisher_Close_def]
  close_client_connection [of _ AdminClient "''close RabbitMQ admin channel: ''"
    "''close RabbitMQ admin connection: ''", folded Admin_Close_def]

end
