(* ===== verification/Erp_System.thy ===== *)
theory Erp_System
  imports Reservation_Service Http_Server Metrics Amqp_Clients
begin

text \<open>
  The running program as a whole (the wiring in cmd/erp-mock/main.go): the two idempotency
  stores of the reservation handlers, the one of the release handler, the repository, the
  failure-mode controller, the metrics and the outside world are one state, which the consumer
  goroutine and the HTTP server share. An event is one round of the consumer's loop or one HTTP
  request. The controller may be set while a delivery is between its handler and its answer, so
  a round comes with the \<open>Set\<close> calls that fall there. It is shown that everything the program
  confirms is on record.
\<close>

section \<open>The state\<close>

record 'b erp =
  simulationStore :: "ReservationResult IdempotencyStore"
  reservationStore :: "ReservationResult IdempotencyStore"
  releaseStore :: "ReservationReleaseResult IdempotencyStore"
  erpRepository :: InventoryRepository
  erpModes :: FailureModeController
  erpMetrics :: metric_calls
  erpReady :: bool
  erpWorld :: "'b world"

text \<open>
  What the wiring is surrounded by: the AMQP client with clock and random source, the consumer
  with its configuration, the answers of calls in flight (there are none, with one consumer
  goroutine), and the text format of the metrics.
\<close>

record 'b surroundings =
  sur_ops :: "'b world_ops"
  sur_consumer :: "metric_calls Consumer"
  sur_await_outer :: "ReservationResult awaiting"
  sur_await :: "ReservationResult awaiting"
  sur_await_release :: "ReservationReleaseResult awaiting"
  sur_expose :: "metric_calls \<Rightarrow> sample list \<Rightarrow> http_response"

section \<open>The consumer's side\<close>

text \<open>Both handlers work on the one repository.\<close>

type_synonym handlers_state =
  "ReservationResult IdempotencyStore \<times> ReservationResult IdempotencyStore \<times>
   ReservationReleaseResult IdempotencyStore \<times> InventoryRepository"

definition wired_reservations ::
  "'b surroundings \<Rightarrow> FailureModeController \<Rightarrow> (go_time simulation, handlers_state) reservation_handler" where
  "wired_reservations sur modes env ctx request = (\<lambda>(outer, inner, released, r).
     (case reservationHandler (sur_await_outer sur) (sur_await sur) (env\<lparr>simulation.failureModes := modes\<rparr>)
             ctx request (outer, inner, r) of
        (result, (outer', inner', r')) \<Rightarrow> (result, (outer', inner', released, r'))))"

definition wired_releases ::
  "'b surroundings \<Rightarrow> FailureModeController \<Rightarrow> (go_time simulation, handlers_state) release_handler" where
  "wired_releases sur modes env ctx request = (\<lambda>(outer, inner, released, r).
     (case releaseHandler (sur_await_release sur) (env\<lparr>simulation.failureModes := modes\<rparr>) ctx request (released, r) of
        (result, (released', r')) \<Rightarrow> (result, (outer, inner, released', r'))))"

definition set_modes :: "FailureModeSettings list \<Rightarrow> FailureModeController \<Rightarrow> FailureModeController" where
  "set_modes = fold (\<lambda>s c. snd (FailureModeController_Set s c))"

definition handlers_of :: "'b erp \<Rightarrow> handlers_state" where
  "handlers_of s = (simulationStore s, reservationStore s, releaseStore s, erpRepository s)"

definition put_consumer ::
  "(handlers_state, metric_calls, 'b) consumer_state \<Rightarrow> FailureModeController \<Rightarrow> 'b erp \<Rightarrow> 'b erp" where
  "put_consumer t modes s = (case t of ((outer, inner, released, r), m, w) \<Rightarrow>
     s\<lparr>simulationStore := outer, reservationStore := inner, releaseStore := released, erpRepository := r,
       erpModes := modes, erpMetrics := m, erpWorld := w\<rparr>)"

section \<open>The HTTP side\<close>

record scrape =
  scrape_ctx :: go_context
  scrape_stock :: "string list"
  scrape_reservations :: "string list"
  scrape_queues :: "DeadLetterQueue list"

text \<open>The Prometheus handler collects and renders; rendering is outside.\<close>

definition Metrics_Handler :: "'b surroundings \<Rightarrow> scrape \<Rightarrow> metric_calls \<Rightarrow> 'b world handler" where
  "Metrics_Handler sur scr made r s =
     (let (samples, w) = runtimeCollector_Collect (Admin_DLQDepth (sur_ops sur)) (scrape_ctx scr)
            (scrape_stock scr) (scrape_reservations scr) (scrape_queues scr)
            (inventoryRepository s) (deadLetterAdmin s)
      in (sur_expose sur made samples, s\<lparr>deadLetterAdmin := w\<rparr>))"

definition server_of :: "'b erp \<Rightarrow> 'b world Server" where
  "server_of s = \<lparr>inventoryRepository = erpRepository s, failureModes = erpModes s,
     deadLetterAdmin = erpWorld s, ready = erpReady s\<rparr>"

definition put_server :: "'b world Server \<Rightarrow> 'b erp \<Rightarrow> 'b erp" where
  "put_server v s = s\<lparr>erpRepository := inventoryRepository v, erpModes := Server.failureModes v,
     erpWorld := deadLetterAdmin v, erpReady := ready v\<rparr>"

section \<open>Events\<close>

datatype erp_event =
    ConsumerStarts
  | ConsumerRound "go_time simulation round" "FailureModeSettings list"
  | HttpServed http_request scrape

datatype erp_output = ConsumerStatus consume_status | HttpReply http_response

fun erp_handle :: "'b surroundings \<Rightarrow> erp_event \<Rightarrow> 'b erp \<Rightarrow> erp_output \<times> 'b erp" where
  "erp_handle sur ConsumerStarts s =
     (case Consume (sur_ops sur) (sur_consumer sur) (wired_reservations sur (erpModes s))
             (wired_releases sur (erpModes s))
             (\<lambda>_. FailureSimulationPublisher (Publisher (sur_ops sur)) (erpModes s))
             [] (handlers_of s, erpMetrics s, erpWorld s) of
        (status, t) \<Rightarrow> (ConsumerStatus status, put_consumer t (erpModes s) s))"
| "erp_handle sur (ConsumerRound rnd sets) s =
     (let modes = set_modes sets (erpModes s) in
      case consume_loop (sur_ops sur) (sur_consumer sur) (wired_reservations sur (erpModes s))
             (wired_releases sur (erpModes s))
             (\<lambda>_. FailureSimulationPublisher (Publisher (sur_ops sur)) modes)
             [rnd] (handlers_of s, erpMetrics s, erpWorld s) of
        (status, t) \<Rightarrow> (ConsumerStatus status, put_consumer t modes s))"
| "erp_handle sur (HttpServed r scr) s =
     (case ServeHTTP (Admin_RequeueDeadLetters (sur_ops sur)) (Metrics_Handler sur scr (erpMetrics s)) r (server_of s) of
        (answer, v) \<Rightarrow> (HttpReply answer, put_server v s))"

definition erp_start :: "InventoryRepository \<Rightarrow> 'b world \<Rightarrow> 'b erp" where
  "erp_start r w = \<lparr>simulationStore = NewIdempotencyStore, reservationStore = NewIdempotencyStore,
     releaseStore = NewIdempotencyStore, erpRepository = r, erpModes = NewFailureModeController,
     erpMetrics = [], erpReady = False, erpWorld = w\<rparr>"

fun erp_run :: "'b surroundings \<Rightarrow> erp_event list \<Rightarrow> 'b erp \<Rightarrow> 'b erp" where
  "erp_run sur [] s = s"
| "erp_run sur (ev # evs) s = erp_run sur evs (snd (erp_handle sur ev s))"

text \<open>The loop of the consumer is its rounds, taken one at a time until one returns.\<close>

lemma consume_loop_rounds:
  "consume_loop ops c handler release publisher (rnd # rounds) s =
     (case consume_loop ops c handler release publisher [rnd] s of
        (Waiting, s') \<Rightarrow> consume_loop ops c handler release publisher rounds s'
      | (Returned e, s') \<Rightarrow> (Returned e, s'))"
proof (cases rnd)
  case ContextDone
  then show ?thesis by (cases s) (simp add: Let_def split: prod.split)
next
  case (DeliveryReceived env ctx d)
  then show ?thesis by (cases d) (simp_all split: prod.split option.split)
next
  case (ReleaseReceived env ctx d)
  then show ?thesis by (cases d) (simp_all split: prod.split option.split)
qed

section \<open>Results and what is on record\<close>

text \<open>A confirmation is supported by the reservation it speaks of, active or released.\<close>

definition supported :: "InventoryRepository \<Rightarrow> ReservationResult \<Rightarrow> bool" where
  "supported r res \<longleftrightarrow> (Decision res = ReservationDecisionConfirmed \<longrightarrow>
     (\<exists>v. fmlookup (reservations r) (TrimSpace (ReservationID (Request res))) = Some v \<and>
        res_SKU v = TrimSpace (req_SKU (Request res)) \<and> Quantity v = req_Quantity (Request res) \<and>
        CreatedAt v = CreatedAt (result_Reservation res)))"

definition backed :: "InventoryRepository \<Rightarrow> ReservationResult IdempotencyStore \<Rightarrow> bool" where
  "backed r st \<longleftrightarrow> (\<forall>k res. fmlookup (entries st) k = Some res \<longrightarrow> supported r res)"

text \<open>Reservations stay on record: only their status and release time change.\<close>

definition keeps_records :: "InventoryRepository \<Rightarrow> InventoryRepository \<Rightarrow> bool" where
  "keeps_records r r' \<longleftrightarrow> (\<forall>rid v. fmlookup (reservations r) rid = Some v \<longrightarrow>
     (\<exists>v'. fmlookup (reservations r') rid = Some v' \<and> res_SKU v' = res_SKU v \<and> Quantity v' = Quantity v \<and>
        CreatedAt v' = CreatedAt v))"

lemma keeps_records_refl [simp]: "keeps_records r r"
  by (simp add: keeps_records_def)

lemma keeps_records_same: "reservations r' = reservations r \<Longrightarrow> keeps_records r r'"
  by (simp add: keeps_records_def)

lemma supported_kept: "keeps_records r r' \<Longrightarrow> supported r res \<Longrightarrow> supported r' res"
  unfolding supported_def keeps_records_def by metis

lemma backed_kept: "keeps_records r r' \<Longrightarrow> backed r st \<Longrightarrow> backed r' st"
  unfolding backed_def using supported_kept by blast

lemma backed_update:
  "backed r st \<Longrightarrow> supported r res \<Longrightarrow> fmlookup (entries st') = (fmlookup (entries st))(k \<mapsto> res) \<Longrightarrow>
     backed r st'"
  by (auto simp: backed_def)

lemma Reserve_keeps_records:
  assumes "InventoryRepository_Reserve ctx now rid sku q r = (out, r')" and "repo_wf r"
  shows "keeps_records r r' \<and> (\<forall>v. out = Inr v \<longrightarrow> fmlookup (reservations r') (TrimSpace rid) = Some v \<and>
    res_SKU v = TrimSpace sku \<and> Quantity v = q)"
proof (cases out)
  case (Inl e)
  with Reserve_Inl [OF assms(1) [unfolded Inl]] show ?thesis by simp
next
  case (Inr v)
  with assms repo_wf_stockD [OF assms(2)] show ?thesis
    by (fastforce simp: Reserve_Inr Service_Reserve_Inr keeps_records_def stock_entry_ok_def
        simp del: StockItem_validate.simps)
qed

lemma Release_keeps_records:
  assumes "InventoryRepository_Release ctx now rid r = (out, r')"
  shows "keeps_records r r'"
proof (cases out)
  case (Inl e)
  from Release_Inl [OF assms [unfolded Inl]] show ?thesis by simp
next
  case (Inr v)
  with assms show ?thesis
    by (auto simp: Release_Inr Service_Release_Inr keeps_records_def
        simp del: StockItem_validate.simps Reservation_validate.simps)
qed

lemma SetStock_keeps_reservations:
  "reservations (snd (InventoryRepository_SetStock ctx sku q r)) = reservations r"
  by (simp add: InventoryRepository_SetStock_def Let_def split: option.split sum.split)

section \<open>The handlers\<close>

lemma supported_answer:
  "supported r v \<Longrightarrow> sameReservationRequest (Request v) q \<Longrightarrow>
     supported r (v\<lparr>IdempotencyHit := b, Request := q\<rparr>)"
  by (simp add: supported_def sameReservationRequest_def)

lemma inventory_handler_supported:
  assumes "inFlight inner = {||}" and "repo_ok r" and "backed r inner"
    and "InventoryReservationHandler_HandleReservationRequested (IdempotencyStore_Execute await)
      InventoryRepository_Reserve now ctx q (inner, r) = (Inr res, (inner', r'))"
  shows "keeps_records r r' \<and> backed r' inner' \<and> supported r' res"
  using assms(1,2,4)
proof (cases rule: inventory_service.handle_value_cases)
  case (remembered v)
  with assms(3) show ?thesis by (auto simp: backed_def intro!: supported_answer)
next
  case (computed v)
  from inventory_service.reserve_decision [OF assms(2) computed(3)]
  consider (confirmed) "Request v = q" "InventoryRepository_Reserve (ctx_next ctx) now (ReservationID q) (req_SKU q)
      (req_Quantity q) r = (Inr (result_Reservation v), r')"
    | (rejected) "Request v = q" "Decision v = ReservationDecisionRejected" "r' = r" by blast
  then have "keeps_records r r' \<and> supported r' v \<and> Request v = q"
  proof cases
    case confirmed
    with Reserve_keeps_records [OF confirmed(2)] assms(2) show ?thesis
      by (auto simp: supported_def repo_ok_def)
  next
    case rejected
    then show ?thesis by (simp add: supported_def)
  qed
  then show ?thesis
    using computed assms(3) by (auto intro!: supported_answer intro: backed_update backed_kept)
qed

lemma reservation_handler_supported:
  assumes ok: "reservation_state_ok (outer, inner, r)" and backed: "backed r outer" "backed r inner"
    and run: "reservationHandler await_outer await env ctx q (outer, inner, r) = (out, (outer', inner', r'))"
  shows "reservation_state_ok (outer', inner', r') \<and> backed r' outer' \<and> backed r' inner' \<and> keeps_records r r' \<and>
    (\<forall>res. out = Inr res \<longrightarrow> supported r' res)"
proof (cases out)
  case (Inl e)
  with reservations.handle_failed [OF ok run [unfolded Inl]] ok backed show ?thesis by auto
next
  case (Inr res)
  have flight: "inFlight outer = {||}" "inFlight inner = {||} \<and> repo_ok r"
    using ok by (simp_all add: reservation_state_ok_def)
  have kept: "reservation_state_ok (outer', inner', r')" by (rule reservations.handle_keeps [OF ok run])
  have inv: "(\<lambda>(st, s). inFlight st = {||} \<and> repo_ok s) (inner, r)" using flight(2) by simp
  from flight(1) inv run [unfolded Inr reservationHandler_def inventoryReservationHandler_def]
  have "backed r' outer' \<and> backed r' inner' \<and> keeps_records r r' \<and> supported r' res"
  proof (cases rule: simulated_service.simulated_value_cases)
    case (remembered v)
    with backed show ?thesis by (auto simp: backed_def intro!: supported_answer)
  next
    case computed
    show ?thesis
    proof (cases "shouldReject (randomFloat env) (FailureModeController_Get (simulation.failureModes env))")
      case True
      with computed(3) have "Decision res = ReservationDecisionRejected" "r' = r" "inner' = inner" by auto
      moreover from this(1) have "supported r res" by (simp add: supported_def)
      ultimately show ?thesis using computed(5) backed by (auto intro: backed_update)
    next
      case False
      with computed(3) have "InventoryReservationHandler_HandleReservationRequested (IdempotencyStore_Execute await)
          InventoryRepository_Reserve (inner_env env) (ctx_next ctx) q (inner, r) = (Inr res, (inner', r'))" by simp
      from inventory_handler_supported [OF _ _ backed(2) this] flight(2)
      have "keeps_records r r' \<and> backed r' inner' \<and> supported r' res" by blast
      with computed(5) backed(1) show ?thesis by (auto intro: backed_update backed_kept)
    qed
  qed
  with kept Inr show ?thesis by simp
qed

lemma release_handler_keeps_records:
  assumes "release_state_ok (st, r)" and "releaseHandler await env ctx q (st, r) = (out, (st', r'))"
  shows "release_state_ok (st', r') \<and> keeps_records r r'"
proof -
  have kept: "release_state_ok (st', r')" by (rule releases.handle_keeps [OF assms])
  have idle: "inFlight st = {||}" using assms(1) by (simp add: release_state_ok_def)
  have "keeps_records r r'"
  proof (cases out)
    case (Inl e)
    from releases.handle_failed [OF assms(1) assms(2) [unfolded Inl]] show ?thesis by simp
  next
    case (Inr res)
    from assms(2) [unfolded releaseHandler_def Inr] show ?thesis
    proof (cases rule: delayed_release_service.delayed_cases)
      case passed
      from idle this show ?thesis
      proof (cases rule: release_service.release_value_cases)
        case (computed v)
        from release_service.release_op_decision [OF computed(3)] show ?thesis
          using Release_keeps_records by fastforce
      qed simp
    qed simp
  qed
  with kept show ?thesis by simp
qed

section \<open>The invariant\<close>

text \<open>A confirmation that was published speaks of a reservation on record.\<close>

definition truthful :: "InventoryRepository \<Rightarrow> Publishing \<Rightarrow> bool" where
  "truthful r p \<longleftrightarrow> (\<exists>res messageID occurredAt.
     newReservationResultMessage res messageID occurredAt = Inr (ReservationConfirmedRoutingKey, p) \<and>
     Decision res = ReservationDecisionConfirmed \<and> supported r res)"

definition truthful_events :: "InventoryRepository \<Rightarrow> amqp_event list \<Rightarrow> bool" where
  "truthful_events r evs \<longleftrightarrow> (\<forall>p e. Published PublisherClient InventoryExchangeName
     ReservationConfirmedRoutingKey p e \<in> set evs \<longrightarrow> truthful r p)"

definition handlers_ok :: "handlers_state \<Rightarrow> bool" where
  "handlers_ok = (\<lambda>(outer, inner, released, r). reservation_state_ok (outer, inner, r) \<and>
     release_state_ok (released, r) \<and> backed r outer \<and> backed r inner)"

definition repository_of :: "handlers_state \<Rightarrow> InventoryRepository" where
  "repository_of h = snd (snd (snd h))"

definition erp_ok :: "'b erp \<Rightarrow> bool" where
  "erp_ok s \<longleftrightarrow> handlers_ok (handlers_of s) \<and> truthful_events (erpRepository s) (history (erpWorld s))"

lemma truthful_kept: "keeps_records r r' \<Longrightarrow> truthful r p \<Longrightarrow> truthful r' p"
  unfolding truthful_def using supported_kept by blast

lemma truthful_events_kept: "keeps_records r r' \<Longrightarrow> truthful_events r evs \<Longrightarrow> truthful_events r' evs"
  unfolding truthful_events_def using truthful_kept by blast

lemma truthful_events_append [simp]:
  "truthful_events r (evs @ evs') \<longleftrightarrow> truthful_events r evs \<and> truthful_events r evs'"
  by (auto simp: truthful_events_def)

lemma publication_truthful:
  assumes "publication what err evs"
    and "\<And>p. what InventoryExchangeName ReservationConfirmedRoutingKey p \<Longrightarrow> truthful r p"
  shows "truthful_events r evs"
  using assms unfolding truthful_events_def by (metis publicationD)

lemma forwarded_truthful: "forwarded_delivery n d key m err evs \<Longrightarrow> truthful_events r evs"
  by (auto simp: forwarded_delivery_def truthful_events_def forwarded_copy_def dest!: publicationD
      split: if_splits)

lemma disposed_truthful:
  assumes "disposed n d key proc err evs"
    and "\<And>m answer p. proc = Decided m answer \<Longrightarrow>
      answer InventoryExchangeName ReservationConfirmedRoutingKey p \<Longrightarrow> truthful r p"
  shows "truthful_events r evs"
proof (cases proc)
  case (Decided m answer)
  have acked: "truthful_events r [Acked c t e]" for c t e by (simp add: truthful_events_def)
  from assms(1) Decided consider pre e where "evs = pre @ [Acked ConsumerClient (del_DeliveryTag d) e]"
      "publication answer None pre"
    | pre post e where "evs = pre @ post" "publication answer (Some e) pre" "forwarded_delivery n d key m err post"
    by (auto simp: answered_delivery_def)
  then show ?thesis
    by cases (use acked publication_truthful [OF _ assms(2) [OF Decided]] forwarded_truthful in auto)
qed (use assms(1) forwarded_truthful in \<open>auto simp: refused_delivery_def truthful_events_def split: if_splits\<close>)

lemma reservation_answer_truthful:
  assumes "reservation_answer res InventoryExchangeName ReservationConfirmedRoutingKey p" and "supported r res"
  shows "truthful r p"
proof -
  from assms(1) obtain i t where msg: "newReservationResultMessage res i t = Inr (ReservationConfirmedRoutingKey, p)"
    by (auto simp: reservation_answer_def)
  then have "Decision res = ReservationDecisionConfirmed"
    by (auto simp: newReservationResultMessage_def reservationResultPayload_def split: if_splits sum.splits)
  with msg assms(2) show ?thesis unfolding truthful_def by blast
qed

lemma release_answer_other_key:
  "\<not> release_answer res InventoryExchangeName ReservationConfirmedRoutingKey p"
  by (auto simp: release_answer_def newReservationReleaseResultMessage_def reservationReleaseResultPayload_def
      split: if_splits sum.splits option.splits)

section \<open>Rounds of the consumer\<close>

lemma wired_reservations_ok:
  assumes "handlers_ok h" and "wired_reservations sur modes env ctx q h = (out, h')"
  shows "handlers_ok h' \<and> keeps_records (repository_of h) (repository_of h') \<and>
    (\<forall>res. out = Inr res \<longrightarrow> supported (repository_of h') res)"
proof -
  obtain outer inner released r where h: "h = (outer, inner, released, r)" by (metis prod_cases4)
  from assms(2) h obtain outer' inner' r' where h': "h' = (outer', inner', released, r')"
    and run: "reservationHandler (sur_await_outer sur) (sur_await sur) (env\<lparr>simulation.failureModes := modes\<rparr>)
      ctx q (outer, inner, r) = (out, (outer', inner', r'))"
    by (auto simp: wired_reservations_def split: prod.splits)
  from assms(1) h reservation_handler_supported [OF _ _ _ run] show ?thesis
    by (auto simp: h' handlers_ok_def repository_of_def release_state_ok_def reservation_state_ok_def)
qed

lemma wired_releases_ok:
  assumes "handlers_ok h" and "wired_releases sur modes env ctx q h = (out, h')"
  shows "handlers_ok h' \<and> keeps_records (repository_of h) (repository_of h')"
proof -
  obtain outer inner released r where h: "h = (outer, inner, released, r)" by (metis prod_cases4)
  from assms(2) h obtain released' r' where h': "h' = (outer, inner, released', r')"
    and run: "releaseHandler (sur_await_release sur) (env\<lparr>simulation.failureModes := modes\<rparr>) ctx q (released, r) =
      (out, (released', r'))"
    by (auto simp: wired_releases_def split: prod.splits)
  from assms(1) h release_handler_keeps_records [OF _ run] show ?thesis
    by (auto simp: h' handlers_ok_def repository_of_def release_state_ok_def reservation_state_ok_def
        intro: backed_kept)
qed

lemma handled_state_ok:
  assumes "handlers_ok h"
    and "\<And>q out h'. handle q h = (out, h') \<Longrightarrow> handlers_ok h' \<and> keeps_records (repository_of h) (repository_of h')"
  shows "handlers_ok (handled_state decoded handle h) \<and>
    keeps_records (repository_of h) (repository_of (handled_state decoded handle h))"
proof (cases decoded)
  case (Inr q)
  with assms(2) [of q "fst (handle q h)" "snd (handle q h)"] show ?thesis by (simp add: handled_state_def)
qed (use assms(1) in \<open>simp add: handled_state_def\<close>)

definition consumer_ok :: "(handlers_state, 'm, 'b) consumer_state \<Rightarrow> bool" where
  "consumer_ok = (\<lambda>(h, m, w). handlers_ok h \<and> truthful_events (repository_of h) (history w))"

lemma truthful_Called [simp]: "truthful_events r [Called c cmd e]"
  by (simp add: truthful_events_def)

lemma call_amqp_truthful:
  "call_amqp ops c cmd w = (e, w') \<Longrightarrow> truthful_events r (history w) \<Longrightarrow> truthful_events r (history w')"
  by (auto simp: call_amqp_def dest!: perform_history)

lemma cancel_consumer_truthful:
  "cancel_consumer ops tag fs w = (e, w') \<Longrightarrow> truthful_events r (history w) \<Longrightarrow> truthful_events r (history w')"
  by (auto simp: cancel_consumer_def intro: call_amqp_truthful split: prod.splits option.splits if_splits)

lemma delivery_ok:
  assumes "consumer_ok (h, m, w)"
    and run: "handleDelivery ops c ctx d (wired_reservations sur modes env)
      (FailureSimulationPublisher (Publisher ops) modes') (h, m, w) = (err, (h', m', w'))"
  shows "consumer_ok (h', m', w') \<and> keeps_records (repository_of h) (repository_of h')"
proof -
  let ?handle = "wired_reservations sur modes env ctx"
  have ok: "handlers_ok h" "truthful_events (repository_of h) (history w)"
    using assms(1) by (simp_all add: consumer_ok_def)
  from wired_delivery.handleDelivery_events [OF run] obtain evs where
    h': "h' = handled_state (decodeReservationRequested d) ?handle h" and w': "history w' = history w @ evs"
    and evs: "disposed (maxRetryCount c) d ReservationRequestedRoutingKey (reservation_processing ?handle d h) err evs"
    by blast
  have kept: "handlers_ok h' \<and> keeps_records (repository_of h) (repository_of h')"
    unfolding h' using ok(1) wired_reservations_ok by (intro handled_state_ok) blast+
  have "truthful_events (repository_of h') evs"
  proof (rule disposed_truthful [OF evs])
    fix k answer p
    assume decided: "reservation_processing ?handle d h = Decided k answer"
      and p: "answer InventoryExchangeName ReservationConfirmedRoutingKey p"
    from decided obtain q res where q: "decodeReservationRequested d = Inr q" "fst (?handle q h) = Inr res"
      "answer = reservation_answer res"
      by (auto simp: reservation_processing_def split: sum.splits)
    then have "?handle q h = (Inr res, h')" by (simp add: h' handled_state_def prod_eq_iff)
    with wired_reservations_ok [OF ok(1)] have "supported (repository_of h') res" by blast
    with p q(3) show "truthful (repository_of h') p" by (auto intro: reservation_answer_truthful)
  qed
  with kept ok(2) w' show ?thesis by (auto simp: consumer_ok_def intro: truthful_events_kept)
qed

lemma release_delivery_ok:
  assumes "consumer_ok (h, m, w)"
    and run: "handleReleaseDelivery ops c ctx d (wired_releases sur modes env)
      (FailureSimulationPublisher (Publisher ops) modes') (h, m, w) = (err, (h', m', w'))"
  shows "consumer_ok (h', m', w') \<and> keeps_records (repository_of h) (repository_of h')"
proof -
  let ?handle = "wired_releases sur modes env ctx"
  have ok: "handlers_ok h" "truthful_events (repository_of h) (history w)"
    using assms(1) by (simp_all add: consumer_ok_def)
  from wired_delivery.handleReleaseDelivery_events [OF run] obtain evs where
    h': "h' = handled_state (decodeReservationReleaseRequested d) ?handle h" and w': "history w' = history w @ evs"
    and evs: "disposed (maxRetryCount c) d ReservationReleaseRequestedRoutingKey (release_processing ?handle d h) err evs"
    by blast
  have kept: "handlers_ok h' \<and> keeps_records (repository_of h) (repository_of h')"
    unfolding h' using ok(1) wired_releases_ok by (intro handled_state_ok) blast+
  have "truthful_events (repository_of h') evs"
    by (rule disposed_truthful [OF evs])
      (auto simp: release_processing_def release_answer_other_key split: sum.splits)
  with kept ok(2) w' show ?thesis by (auto simp: consumer_ok_def intro: truthful_events_kept)
qed

lemma round_ok:
  assumes "consumer_ok (h, m, w)"
    and run: "consume_loop ops c (wired_reservations sur modes) (wired_releases sur modes)
      (\<lambda>_. FailureSimulationPublisher (Publisher ops) modes') [rnd] (h, m, w) = (status, (h', m', w'))"
  shows "consumer_ok (h', m', w') \<and> keeps_records (repository_of h) (repository_of h')"
proof (cases rnd)
  case ContextDone
  with run have "h' = h" "and_then (cancel_consumer ops (consumerTag c @ ''-reservation-requested'')
      [Lit ''cancel RabbitMQ reservation requested consumer: ''])
    (cancel_consumer ops (consumerTag c @ ''-reservation-release-requested'')
      [Lit ''cancel RabbitMQ reservation release requested consumer: '']) w = (case status of Returned e \<Rightarrow> e, w')"
    by (auto simp: Let_def split: prod.splits)
  with assms(1) show ?thesis
    by (auto simp: consumer_ok_def and_then_def intro: cancel_consumer_truthful split: prod.splits option.splits)
next
  case (DeliveryReceived env ctx d)
  with run assms(1) show ?thesis
    by (cases d) (auto split: prod.splits option.splits dest!: delivery_ok [OF assms(1)])
next
  case (ReleaseReceived env ctx d)
  with run assms(1) show ?thesis
    by (cases d) (auto split: prod.splits option.splits dest!: release_delivery_ok [OF assms(1)])
qed

section \<open>Requests\<close>

text \<open>The administration leaves events of its own client only, and opens and closes nothing.\<close>

fun admin_event :: "amqp_event \<Rightarrow> bool" where
  "admin_event (Called c cmd e) \<longleftrightarrow> False"
| "admin_event (Published c exchange key p e) \<longleftrightarrow> c = AdminClient"
| "admin_event (Awaited c ev) \<longleftrightarrow> c = AdminClient"
| "admin_event (Fetched c q d) \<longleftrightarrow> c = AdminClient"
| "admin_event (Acked c tag e) \<longleftrightarrow> c = AdminClient"
| "admin_event (Nacked c tag requeue e) \<longleftrightarrow> c = AdminClient"

lemma admin_events_truthful:
  assumes "extends admin_event w w'" and "truthful_events r (history w)"
  shows "truthful_events r (history w')"
proof -
  have "truthful_events r evs" if "list_all admin_event evs" for evs
    using that by (auto simp: truthful_events_def list_all_iff)
  with assms show ?thesis by (auto simp: extends_def)
qed

lemma Admin_publish_events:
  assumes "Admin_publishWithConfirmation ops ctx key p w = (e, w')"
  shows "extends admin_event w w'"
proof -
  obtain perr w1 where pub: "perform (amqp_Publish ops AdminClient ctx InventoryExchangeName key p)
      (Published AdminClient InventoryExchangeName key p) w = (perr, w1)" by fastforce
  have w1: "extends admin_event w w1" by (rule extends_perform [OF pub]) simp
  obtain ev w2 where wait: "perform (amqp_Confirmation ops AdminClient ctx) (Awaited AdminClient) w1 = (ev, w2)"
    by fastforce
  have w2: "extends admin_event w1 w2" by (rule extends_perform [OF wait]) simp
  from assms pub wait w1 extends_trans [OF w1 w2] show ?thesis
    by (auto simp: Admin_publishWithConfirmation_def split: option.splits confirmation_event.splits if_splits)
qed

lemma requeue_loop_events_admin:
  "requeue_loop ops config limit ctx requeued w = (out, w') \<Longrightarrow> extends admin_event w w'"
proof (induction ops config limit ctx requeued w rule: requeue_loop.induct)
  case (1 ops config limit ctx requeued w)
  obtain got w1 where got: "perform (amqp_Get ops AdminClient (dlq_name config))
      (Fetched AdminClient (dlq_name config)) w = (got, w1)" by fastforce
  have w1: "extends admin_event w w1" by (rule extends_perform [OF got]) simp
  show ?case
  proof (cases "sint requeued < sint limit \<and> ctx_Err ctx = None \<and> (\<exists>d. got = Inr (Some d))")
    case False
    with 1(2) got w1 show ?thesis
      by (auto simp: requeue_loop.simps [of ops config limit ctx] split: if_splits option.splits sum.splits)
  next
    case True
    then obtain d where d: "got = Inr (Some d)" by blast
    obtain perr w2 where pub: "Admin_publishWithConfirmation ops ctx (dlq_routingKey config)
        (newForwardedDelivery d 0) w1 = (perr, w2)" by fastforce
    note w2 = extends_trans [OF w1 Admin_publish_events [OF pub]]
    obtain aerr w3 where ack: "perform (amqp_Ack ops AdminClient (del_DeliveryTag d))
        (Acked AdminClient (del_DeliveryTag d)) w2 = (aerr, w3)" by fastforce
    have w3: "extends admin_event w w3" by (rule extends_trans [OF w2 extends_perform [OF ack]]) simp
    obtain nerr w4 where nack: "perform (amqp_Nack ops AdminClient (del_DeliveryTag d) True)
        (Nacked AdminClient (del_DeliveryTag d) True) w2 = (nerr, w4)" by fastforce
    have w4: "extends admin_event w w4" by (rule extends_trans [OF w2 extends_perform [OF nack]]) simp
    note run = 1(2) [unfolded requeue_loop.simps [of ops config limit ctx]]
    show ?thesis
    proof (cases "perr = None \<and> aerr = None")
      case False
      with run True got d pub ack nack w3 w4 show ?thesis by (auto split: option.splits)
    next
      case again: True
      with run True got d pub ack have "requeue_loop ops config limit (ctx_next ctx) (requeued + 1) w3 = (out, w')"
        by simp
      with 1(1) [OF _ _ got [symmetric] d refl pub [symmetric] _ ack [symmetric]] True again
      have "extends admin_event w3 w'" by simp
      with w3 show ?thesis by (rule extends_trans)
    qed
  qed
qed

lemma RequeueDeadLetters_events_admin:
  "Admin_RequeueDeadLetters ops ctx queue limit w = (out, w') \<Longrightarrow> extends admin_event w w'"
  by (auto simp: Admin_RequeueDeadLetters_def dest: requeue_loop_events_admin split: sum.splits if_splits)

lemma depth_loop_history: "depth_loop ops queues depth w = (out, w') \<Longrightarrow> history w' = history w"
proof (induction ops queues depth w rule: depth_loop.induct)
  case (2 ops queue queues depth w)
  show ?case
  proof (cases "deadLetterConfig queue")
    case (Inl e)
    with 2(2) show ?thesis by simp
  next
    case (Inr config)
    obtain x w1 where look: "observe (amqp_Messages ops AdminClient (dlq_name config) True) w = (x, w1)" by fastforce
    note h1 = observe_history [OF look]
    show ?thesis
    proof (cases x)
      case (Inl e)
      with 2(2) \<open>deadLetterConfig queue = Inr config\<close> look h1 show ?thesis by simp
    next
      case (Inr n)
      with 2(2) \<open>deadLetterConfig queue = Inr config\<close> look
      have "depth_loop ops queues (fmupd queue n depth) w1 = (out, w')" by simp
      with 2(1) [OF \<open>deadLetterConfig queue = Inr config\<close> look [symmetric] Inr] h1 show ?thesis by simp
    qed
  qed
qed simp

lemma Metrics_Handler_reads:
  assumes "Metrics_Handler sur scr made r v = (a, v')"
  shows "inventoryRepository v' = inventoryRepository v \<and>
    history (deadLetterAdmin v') = history (deadLetterAdmin v)"
  using assms
  by (auto simp: Metrics_Handler_def runtimeCollector_Collect_def Admin_DLQDepth_def Let_def
      dest!: depth_loop_history split: prod.splits option.splits simp del: depth_loop.simps)

text \<open>What a request can do to the inventory and to the broker.\<close>

definition request_effect :: "'b world Server \<Rightarrow> 'b world Server \<Rightarrow> bool" where
  "request_effect v v' \<longleftrightarrow>
     reservations (inventoryRepository v') = reservations (inventoryRepository v) \<and>
     (repo_wf (inventoryRepository v) \<longrightarrow> repo_wf (inventoryRepository v')) \<and>
     extends admin_event (deadLetterAdmin v) (deadLetterAdmin v')"

lemma request_effect_refl [simp]: "request_effect v v"
  by (simp add: request_effect_def)

lemma handleSetStock_effect:
  assumes "handleSetStock r v = (a, v')"
  shows "request_effect v v'"
proof (cases "decodeJSON setStockRequest (Body r)")
  case (Inl e)
  with assms show ?thesis by (auto simp: handleSetStock_def)
next
  case (Inr m)
  obtain res repo where set_stock: "InventoryRepository_SetStock (Context r) (string_field m ''sku'')
      (int_field m ''available_quantity'') (inventoryRepository v) = (res, repo)" by fastforce
  have "reservations repo = reservations (inventoryRepository v)"
    using SetStock_keeps_reservations [of "Context r" "string_field m ''sku''"
        "int_field m ''available_quantity''" "inventoryRepository v"] set_stock by simp
  moreover have "repo_wf repo" if "repo_wf (inventoryRepository v)"
    using that set_stock SetStock_wf SetStock_Inl by (cases res) blast+
  moreover have "v' = v\<lparr>inventoryRepository := repo\<rparr>"
    using assms Inr set_stock by (auto simp: handleSetStock_def split: sum.splits)
  ultimately show ?thesis by (simp add: request_effect_def)
qed

lemma handleRequeueDeadLetters_effect:
  assumes "handleRequeueDeadLetters (Admin_RequeueDeadLetters ops) r v = (a, v')"
  shows "request_effect v v'"
proof (cases "decodeJSON requeueDeadLettersRequest (Body r)")
  case (Inl e)
  with assms show ?thesis by (auto simp: handleRequeueDeadLetters_def)
next
  case (Inr m)
  obtain out w where run: "Admin_RequeueDeadLetters ops (Context r) (string_field m ''queue'')
      (int_field m ''limit'') (deadLetterAdmin v) = (out, w)" by fastforce
  then have "v' = v\<lparr>deadLetterAdmin := w\<rparr>"
    using assms Inr by (auto simp: handleRequeueDeadLetters_def split: prod.splits option.splits)
  with RequeueDeadLetters_events_admin [OF run] show ?thesis by (simp add: request_effect_def)
qed

lemma handleSetFailureMode_effect:
  "handleSetFailureMode r v = (a, v') \<Longrightarrow> request_effect v v'"
  by (auto simp: handleSetFailureMode_def request_effect_def Let_def split: sum.splits prod.splits option.splits)

lemma Metrics_Handler_effect:
  "Metrics_Handler sur scr made r v = (a, v') \<Longrightarrow> request_effect v v'"
  using Metrics_Handler_reads [of sur scr made r v a v'] by (auto simp: request_effect_def extends_def)

lemma ServeHTTP_effect:
  assumes "ServeHTTP (Admin_RequeueDeadLetters ops) (Metrics_Handler sur scr made) r v = (a, v')"
  shows "request_effect v v'"
proof -
  from serve_mux_cases [OF assms [unfolded ServeHTTP_def]]
  consider m p h vs where "(m, p, h) \<in> set (routes (Admin_RequeueDeadLetters ops) (Metrics_Handler sur scr made))"
      "h (r\<lparr>PathValues := vs\<rparr>) v = (a, v')"
    | "v' = v" by blast
  then show ?thesis
  proof cases
    case 1
    from 1(1) consider "h = handleSetStock" | "h = handleRequeueDeadLetters (Admin_RequeueDeadLetters ops)"
      | "h = handleSetFailureMode" | "h = Metrics_Handler sur scr made"
      | "h \<in> {handleHealth, handleReady, handleListStock, handleListReservations, handleGetReservation}"
      by (auto simp: routes_def)
    then show ?thesis
    proof cases
      case 5
      then have "snd (h (r\<lparr>PathValues := vs\<rparr>) v) = v" by (auto simp: GET_handlers_read_only)
      with 1(2) show ?thesis by simp
    qed (use 1(2) handleSetStock_effect handleRequeueDeadLetters_effect handleSetFailureMode_effect
        Metrics_Handler_effect in blast)+
  qed simp
qed

section \<open>Runs\<close>

text \<open>
  The states that the program goes through, from a fresh repository and with nothing published,
  as long as the units of every SKU fit into an \<open>int\<close>.
\<close>

inductive erp_reachable :: "'b surroundings \<Rightarrow> 'b erp \<Rightarrow> bool" for sur where
  erp_started: "NewInventoryRepository (Some ()) seed = Inr r \<Longrightarrow>
     \<forall>ev \<in> set (history w). \<exists>c cmd e. ev = Called c cmd e \<Longrightarrow> erp_reachable sur (erp_start r w)"
| erp_stepped: "erp_reachable sur s \<Longrightarrow> erp_handle sur ev s = (out, s') \<Longrightarrow>
     repo_bounded (erpRepository s') \<Longrightarrow> erp_reachable sur s'"

lemma erp_start_ok:
  assumes "NewInventoryRepository (Some ()) seed = Inr r" and "\<forall>ev \<in> set (history w). \<exists>c cmd e. ev = Called c cmd e"
  shows "erp_ok (erp_start r w)"
  using NewInventoryRepository_ok [OF assms(1)] assms(2)
  by (auto simp: erp_ok_def erp_start_def handlers_of_def handlers_ok_def reservation_state_ok_def
      release_state_ok_def backed_def truthful_events_def)

lemma consumer_state_of: "consumer_ok (handlers_of s, m, erpWorld s) \<longleftrightarrow> erp_ok s"
  by (simp add: consumer_ok_def erp_ok_def handlers_of_def repository_of_def)

lemma put_consumer_ok: "erp_ok (put_consumer t modes s) \<longleftrightarrow> consumer_ok t"
  by (cases t) (auto simp: put_consumer_def consumer_ok_def erp_ok_def handlers_of_def repository_of_def)

lemma Consume_start_ok:
  assumes "consumer_ok (h, m, w)" and "Consume ops c handler release publisher [] (h, m, w) = (status, t)"
  shows "consumer_ok t"
  using assms
  by (auto simp: Consume_def consumer_ok_def and_then_def wrapping_def no_step_def
      intro: call_amqp_truthful split: prod.splits option.splits)

lemma erp_handle_ok:
  assumes "erp_ok s" and "erp_handle sur ev s = (out, s')" and "repo_bounded (erpRepository s')"
  shows "erp_ok s'"
proof (cases ev)
  case ConsumerStarts
  with assms(1,2) show ?thesis
    by (auto simp: put_consumer_ok consumer_state_of dest!: Consume_start_ok [rotated] split: prod.splits)
next
  case (ConsumerRound rnd sets)
  let ?modes = "set_modes sets (erpModes s)"
  obtain status h' m' w' where run: "consume_loop (sur_ops sur) (sur_consumer sur)
      (wired_reservations sur (erpModes s)) (wired_releases sur (erpModes s))
      (\<lambda>_. FailureSimulationPublisher (Publisher (sur_ops sur)) ?modes) [rnd]
      (handlers_of s, erpMetrics s, erpWorld s) = (status, (h', m', w'))" by (metis prod_cases4)
  with assms(2) ConsumerRound have "s' = put_consumer (h', m', w') ?modes s" by (simp add: Let_def)
  with round_ok [OF _ run] assms(1) show ?thesis by (simp add: put_consumer_ok consumer_state_of)
next
  case (HttpServed r scr)
  obtain a v' where run: "ServeHTTP (Admin_RequeueDeadLetters (sur_ops sur))
      (Metrics_Handler sur scr (erpMetrics s)) r (server_of s) = (a, v')" by fastforce
  with assms(2) HttpServed have s': "s' = put_server v' s" by simp
  note effect = ServeHTTP_effect [OF run, unfolded request_effect_def]
  have kept: "keeps_records (erpRepository s) (erpRepository s')"
    using effect by (intro keeps_records_same) (simp add: s' put_server_def server_of_def)
  have "repo_ok (erpRepository s')"
    using effect assms(1,3) by (simp add: s' put_server_def server_of_def repo_ok_def erp_ok_def handlers_of_def
        handlers_ok_def release_state_ok_def)
  with assms(1) effect kept admin_events_truthful [of "erpWorld s" "erpWorld s'" "erpRepository s"] show ?thesis
    by (auto simp: s' put_server_def server_of_def erp_ok_def handlers_of_def handlers_ok_def
        release_state_ok_def reservation_state_ok_def intro: backed_kept truthful_events_kept)
qed

lemma erp_reachable_ok: "erp_reachable sur s \<Longrightarrow> erp_ok s"
  by (induction rule: erp_reachable.induct) (auto intro: erp_start_ok erp_handle_ok)

text \<open>
  Property C2. What the program confirms is on record. In every state that the whole program
  reaches, with deliveries, redeliveries, releases, stock changes, failure modes and requeues
  in any order, every reservation confirmation ever handed to the broker is the message of a
  result whose reservation is stored, with the SKU, the quantity and the creation time that the
  message states.
\<close>

theorem confirmations_on_record:
  assumes "erp_reachable sur s"
    and "Published PublisherClient InventoryExchangeName ReservationConfirmedRoutingKey p e \<in>
      set (history (erpWorld s))"
  shows "\<exists>res messageID occurredAt v.
    newReservationResultMessage res messageID occurredAt = Inr (ReservationConfirmedRoutingKey, p) \<and>
    fmlookup (reservations (erpRepository s)) (TrimSpace (ReservationID (Request res))) = Some v \<and>
    res_SKU v = TrimSpace (req_SKU (Request res)) \<and> Quantity v = req_Quantity (Request res) \<and>
    CreatedAt v = CreatedAt (result_Reservation res)"
proof -
  have "truthful_events (erpRepository s) (history (erpWorld s))"
    using erp_reachable_ok [OF assms(1)] by (simp add: erp_ok_def)
  with assms(2) have "truthful (erpRepository s) p" by (auto simp: truthful_events_def)
  then show ?thesis unfolding truthful_def supported_def by blast
qed

section \<open>A concrete run\<close>

definition sample_surroundings :: "unit surroundings" where
  "sample_surroundings = \<lparr>sur_ops = steady_ops,
     sur_consumer = \<lparr>consumerTag = ''erp'', maxRetryCount = 3, metrics = Some prometheus_metrics\<rparr>,
     sur_await_outer = never_awaited, sur_await = never_awaited, sur_await_release = never_awaited,
     sur_expose = (\<lambda>_ _. writeJSON StatusOK (PlainText []))\<rparr>"

definition shelf_seed :: "StockSeed list" where
  "shelf_seed = [\<lparr>seed_SKU = ''sku-1'', seed_AvailableQuantity = 10\<rparr>]"

definition sku_shelf :: "go_int \<Rightarrow> go_int \<Rightarrow> (string, Reservation) fmap \<Rightarrow> InventoryRepository" where
  "sku_shelf a b vs = \<lparr>stock = fmupd ''sku-1'' \<lparr>item_SKU = ''sku-1'', AvailableQuantity = a, ReservedQuantity = b\<rparr> fmempty,
     reservations = vs\<rparr>"

lemma shelf_new: "NewInventoryRepository (Some ()) shelf_seed = Inr (sku_shelf 10 0 fmempty)"
  by (simp add: shelf_seed_def sku_shelf_def erp_defs trim_defs)

definition shelf_result :: ReservationResult where
  "shelf_result = \<lparr>Decision = ''confirmed'', IdempotencyHit = False,
     Request = sample_decoded_request sample_decoded_metadata, result_Reservation = sample_reservation,
     RejectionReason = ''''\<rparr>"

lemma shelf_reservation:
  "\<exists>outer inner. wired_reservations sample_surroundings NewFailureModeController sample_env Background
       (sample_decoded_request sample_decoded_metadata)
       (NewIdempotencyStore, NewIdempotencyStore, NewIdempotencyStore, sku_shelf 10 0 fmempty) =
     (Inr shelf_result, (outer, inner, NewIdempotencyStore, sku_shelf 6 4 (fmupd ''res-1'' sample_reservation fmempty)))"
  by (simp add: wired_reservations_def sample_surroundings_def erp_defs sku_shelf_def shelf_result_def
      sample_reservation_def sample_decoded_request_def sample_decoded_metadata_def sample_env_def trim_defs
      normalizedIdentifier_def)

lemma shelf_message:
  "\<exists>p. newReservationResultMessage shelf_result u t = Inr (ReservationConfirmedRoutingKey, p)"
proof -
  have "year_of_time (UTC zero_time) = 1" by code_simp
  then show ?thesis
    by (simp add: newReservationResultMessage_def reservationResultPayload_def reservationConfirmedPayload_def
        json_Marshal_def shelf_result_def sample_reservation_def time_marshals_def)
      (simp add: UTC_def)
qed

lemma shelf_publication:
  "\<exists>p. PublishReservationResult (FailureSimulationPublisher (Publisher steady_ops) NewFailureModeController)
       Background shelf_result w =
     (None, w\<lparr>history := history w @ [Published PublisherClient InventoryExchangeName
        ReservationConfirmedRoutingKey p None, Awaited PublisherClient (Confirmation 1 True)]\<rparr>)"
proof -
  obtain u where u: "newUUID (Inr (replicate 16 0)) = Inr u" by (simp add: newUUID_def Let_def)
  obtain p where "newReservationResultMessage shelf_result u (UTC zero_time) =
      Inr (ReservationConfirmedRoutingKey, p)" using shelf_message by blast
  moreover have "rand_Read steady_ops = (\<lambda>b. (Inr (replicate 16 0), b))" "time_Now steady_ops = (\<lambda>b. (zero_time, b))"
    by (simp_all add: steady_ops_def)
  ultimately show ?thesis using u
    by (cases w) (simp add: FailureSimulationPublisher_def Publisher_def publishResult_eq NewFailureModeController_def
        FailureModeController_Get_def Publisher_PublishReservationResult_def observe_def steady_forward)
qed

lemma shelf_run:
  "\<exists>out s p. erp_handle sample_surroundings (ConsumerRound (DeliveryReceived sample_env Background
       (Some sample_delivery)) []) (erp_start (sku_shelf 10 0 fmempty) steady_world) = (out, s) \<and>
     Published PublisherClient InventoryExchangeName ReservationConfirmedRoutingKey p None \<in>
       set (history (erpWorld s)) \<and>
     erpRepository s = sku_shelf 6 4 (fmupd ''res-1'' sample_reservation fmempty)"
proof -
  from shelf_reservation obtain outer inner where run: "wired_reservations sample_surroundings
      NewFailureModeController sample_env Background (sample_decoded_request sample_decoded_metadata)
      (NewIdempotencyStore, NewIdempotencyStore, NewIdempotencyStore, sku_shelf 10 0 fmempty) =
     (Inr shelf_result, (outer, inner, NewIdempotencyStore, sku_shelf 6 4 (fmupd ''res-1'' sample_reservation fmempty)))"
    by blast
  from shelf_publication obtain p where pub: "PublishReservationResult
      (FailureSimulationPublisher (Publisher steady_ops) NewFailureModeController) Background shelf_result
      steady_world = (None, steady_world\<lparr>history := history steady_world @ [Published PublisherClient
        InventoryExchangeName ReservationConfirmedRoutingKey p None, Awaited PublisherClient (Confirmation 1 True)]\<rparr>)"
    by blast
  have now: "observe (time_Now steady_ops) w = (zero_time, w)" "observe (time_Since steady_ops t) w = (0, w)" for t w
    by (simp_all add: steady_ops_def observe_def)
  have acked: "ack steady_ops d w = (None, w\<lparr>history := history w @ [Acked ConsumerClient (del_DeliveryTag d) None]\<rparr>)"
    for d w by (simp add: ack_def wrapping_def perform_def steady_ops_def)
  have "\<not> IdempotencyHit shelf_result" by (simp add: shelf_result_def)
  show ?thesis
    using run pub \<open>\<not> IdempotencyHit shelf_result\<close>
    by (simp add: Let_def split_beta erp_start_def handlers_of_def set_modes_def sample_surroundings_def [THEN arg_cong, of sur_ops]
        sample_surroundings_def [THEN arg_cong, of sur_consumer] handleDelivery_def sample_delivery_decodes now
        acked put_consumer_def) blast
qed

lemma shelf_bounded: "repo_bounded (sku_shelf 6 4 (fmupd ''res-1'' sample_reservation fmempty))"
  by (auto simp: repo_bounded_def sku_shelf_def stock_fits_def active_units_int_def held_units_def sample_reservation_def fmsum_upd
      split: if_splits)

theorem confirmations_on_record_witness:
  "\<exists>s p res messageID occurredAt. erp_reachable sample_surroundings s \<and>
     Published PublisherClient InventoryExchangeName ReservationConfirmedRoutingKey p None \<in>
       set (history (erpWorld s)) \<and>
     newReservationResultMessage res messageID occurredAt = Inr (ReservationConfirmedRoutingKey, p)"
proof -
  from shelf_run obtain out s p where run: "erp_handle sample_surroundings (ConsumerRound (DeliveryReceived
      sample_env Background (Some sample_delivery)) []) (erp_start (sku_shelf 10 0 fmempty) steady_world) = (out, s)"
    and p: "Published PublisherClient InventoryExchangeName ReservationConfirmedRoutingKey p None \<in>
       set (history (erpWorld s))" "erpRepository s = sku_shelf 6 4 (fmupd ''res-1'' sample_reservation fmempty)"
    by blast
  have "erp_reachable sample_surroundings (erp_start (sku_shelf 10 0 fmempty) steady_world)"
    by (rule erp_started [OF shelf_new]) (simp add: steady_world_def)
  from erp_stepped [OF this run] have reach: "erp_reachable sample_surroundings s"
    using p(2) shelf_bounded by simp
  from confirmations_on_record [OF reach p(1)] reach p(1) show ?thesis by blast
qed

section \<open>Rounds as events\<close>

lemma put_consumer_simps:
  "put_consumer (handlers_of s, erpMetrics s, erpWorld s) (erpModes s) s = s"
  "(handlers_of (put_consumer t modes s), erpMetrics (put_consumer t modes s), erpWorld (put_consumer t modes s)) = t"
  "erpModes (put_consumer t modes s) = modes"
  "put_consumer t' modes' (put_consumer t modes s) = put_consumer t' modes' s"
  by (cases t; cases t'; simp add: put_consumer_def handlers_of_def split: prod.split)+

definition loop_of ::
  "'b surroundings \<Rightarrow> FailureModeController \<Rightarrow> go_time simulation round list \<Rightarrow>
   (handlers_state, metric_calls, 'b) consumer_state \<Rightarrow>
   consume_status \<times> (handlers_state, metric_calls, 'b) consumer_state" where
  "loop_of sur modes = consume_loop (sur_ops sur) (sur_consumer sur) (wired_reservations sur modes)
     (wired_releases sur modes) (\<lambda>_. FailureSimulationPublisher (Publisher (sur_ops sur)) modes)"



end
