(* ===== verification/Erp_Run.thy ===== *)
theory Erp_Run
  imports Erp_System Config
begin

text \<open>
  The program from start to exit (\<open>run\<close> in cmd/erp-mock/main.go): configuration, repository, the
  three AMQP clients, metrics, the running phase and the shutdown, with the deferred calls of
  \<open>Close\<close>. The running phase is a schedule of events; since goroutines go on while \<open>run\<close> shuts
  down, there is a stretch of events before each of its calls. Which channel of the select is
  ready first, and what the HTTP server's \<open>Shutdown\<close> answers, are inputs. It is shown that no
  AMQP connection outlives \<open>run\<close>, and when the exit code is 0.
\<close>

section \<open>Definitions\<close>

text \<open>\<open>launch_sur\<close> has no say in the consumer, which \<open>run\<close> opens itself.\<close>

datatype stop_reason = SignalReceived | ServerStopped go_error | ConsumerStopped "go_error option"

record ('b, 'p) launch =
  launch_env :: environment
  launch_register :: "string list \<Rightarrow> 'p \<Rightarrow> go_error option \<times> 'p"
  launch_registry :: 'p
  launch_sur :: "'b surroundings"
  launch_running :: "erp_event list"
  launch_stop :: stop_reason
  launch_closing :: "client \<Rightarrow> erp_event list"
  launch_shutdown :: "go_error option"

fun client_Close :: "'b world_ops \<Rightarrow> client \<Rightarrow> bool \<times> 'b world \<Rightarrow> go_error option \<times> (bool \<times> 'b world)" where
  "client_Close ops ConsumerClient = Consumer_Close ops"
| "client_Close ops PublisherClient = Publisher_Close ops"
| "client_Close ops AdminClient = Admin_Close ops"

type_synonym 'b closing = "(client \<Rightarrow> bool) \<times> 'b world"

text \<open>Each client has its own \<open>closeOnce\<close>.\<close>

definition close_once :: "'b world_ops \<Rightarrow> client \<Rightarrow> 'b closing \<Rightarrow> go_error option \<times> 'b closing" where
  "close_once ops c = (\<lambda>(once, w).
     (case client_Close ops c (once c, w) of (e, (b, w')) \<Rightarrow> (e, (once(c := b), w'))))"

text \<open>A deferred \<open>Close\<close> runs after the rest of \<open>run\<close>; its error is logged only.\<close>

definition deferred_close :: "'b world_ops \<Rightarrow> client \<Rightarrow> int \<times> 'b closing \<Rightarrow> int \<times> 'b closing" where
  "deferred_close ops c = (\<lambda>(exit, st). (exit, snd (close_once ops c st)))"

definition stop_code :: "stop_reason \<Rightarrow> int" where
  "stop_code reason =
     (case reason of
        SignalReceived \<Rightarrow> 0
      | ServerStopped err \<Rightarrow> if errors_Is err HttpErrServerClosed then 0 else 1
      | ConsumerStopped err \<Rightarrow> if err = None then 0 else 1)"

fun close_clients ::
  "('b, 'p) launch \<Rightarrow> 'b surroundings \<Rightarrow> client list \<Rightarrow> (client \<Rightarrow> bool) \<Rightarrow> 'b erp \<Rightarrow> int \<times> 'b closing" where
  "close_clients l sur [] once s =
     (case launch_shutdown l of
        Some err \<Rightarrow> (1, (once, erpWorld s))
      | None \<Rightarrow> (stop_code (launch_stop l), (once, erpWorld s)))"
| "close_clients l sur (c # cs) once s =
     (let s = erp_run sur (launch_closing l c) s in
      case close_once (sur_ops sur) c (once, erpWorld s) of
        (Some err, st) \<Rightarrow> (1, st)
      | (None, (once', w)) \<Rightarrow> close_clients l sur cs once' (s\<lparr>erpWorld := w\<rparr>))"

definition serve ::
  "('b, 'p) launch \<Rightarrow> metric_calls Consumer \<Rightarrow> InventoryRepository \<Rightarrow> 'b world \<Rightarrow> int \<times> 'b closing" where
  "serve l consumer repository w =
     (let sur = (launch_sur l)\<lparr>sur_consumer := consumer\<rparr>;
          s = (erp_start repository w)\<lparr>erpReady := True\<rparr>;
          s = erp_run sur (launch_running l) s;
          s = s\<lparr>erpReady := False\<rparr>
      in close_clients l sur [ConsumerClient, PublisherClient, AdminClient] (\<lambda>_. False) s)"

text \<open>The steps of \<open>run\<close>, each with the \<open>Close\<close> it defers around the rest.\<close>

definition run_metrics ::
  "('b, 'p) launch \<Rightarrow> metric_calls Consumer \<Rightarrow> InventoryRepository \<Rightarrow> 'b world \<Rightarrow> int \<times> 'b closing" where
  "run_metrics l consumer repository w =
     (case fst (Metrics_New (launch_register l) (launch_registry l)) of
        Inl err \<Rightarrow> (1, (\<lambda>_. False, w))
      | Inr counters \<Rightarrow> serve l (SetMetrics counters consumer) repository w)"

definition run_admin ::
  "('b, 'p) launch \<Rightarrow> Config \<Rightarrow> metric_calls Consumer \<Rightarrow> InventoryRepository \<Rightarrow> 'b world \<Rightarrow> int \<times> 'b closing" where
  "run_admin l cfg consumer repository w =
     (case NewAdmin (sur_ops (launch_sur l)) (RabbitMQURL cfg) w of
        (Some err, w') \<Rightarrow> (1, (\<lambda>_. False, w'))
      | (None, w') \<Rightarrow>
          deferred_close (sur_ops (launch_sur l)) AdminClient (run_metrics l consumer repository w'))"

definition run_publisher ::
  "('b, 'p) launch \<Rightarrow> Config \<Rightarrow> metric_calls Consumer \<Rightarrow> InventoryRepository \<Rightarrow> 'b world \<Rightarrow> int \<times> 'b closing" where
  "run_publisher l cfg consumer repository w =
     (case NewPublisher (sur_ops (launch_sur l)) (RabbitMQURL cfg) w of
        (Some err, w') \<Rightarrow> (1, (\<lambda>_. False, w'))
      | (None, w') \<Rightarrow>
          deferred_close (sur_ops (launch_sur l)) PublisherClient (run_admin l cfg consumer repository w'))"

definition consumer_config :: "Config \<Rightarrow> ConsumerConfig" where
  "consumer_config cfg =
     \<lparr>con_URL = RabbitMQURL cfg, con_ConsumerTag = RabbitMQConsumerTag cfg,
      con_MaxRetryCount = RabbitMQMaxRetryCount cfg, con_PrefetchCount = RabbitMQPrefetchCount cfg,
      con_RetryDelay = RabbitMQRetryDelay cfg\<rparr>"

definition run :: "('b, 'p) launch \<Rightarrow> 'b world \<Rightarrow> int \<times> 'b world" where
  "run l w =
     (case Load (launch_env l) of
        Inl err \<Rightarrow> (1, w)
      | Inr cfg \<Rightarrow>
     (case NewInventoryRepository (Some ()) DefaultStockSeed of
        Inl err \<Rightarrow> (1, w)
      | Inr repository \<Rightarrow>
     (case NewConsumer (sur_ops (launch_sur l)) (consumer_config cfg) w of
        (Inl err, w') \<Rightarrow> (1, w')
      | (Inr consumer, w') \<Rightarrow>
          apsnd snd (deferred_close (sur_ops (launch_sur l)) ConsumerClient
            (run_publisher l cfg consumer repository w')))))"

section \<open>The running phase opens and closes no connection\<close>

fun quiet_event :: "amqp_event \<Rightarrow> bool" where
  "quiet_event (Called c cmd e) \<longleftrightarrow> \<not> connection_command cmd"
| "quiet_event _ \<longleftrightarrow> True"

lemma connection_quiet:
  assumes "extends quiet_event w w'"
  shows "connection_open c w' = connection_open c w"
proof -
  have step: "connection_after c b ev = b" if "quiet_event ev" for b ev
    using that connection_after_quiet by (cases ev) auto
  have "foldl (connection_after c) b evs = b" if "list_all quiet_event evs" for b evs
    using that by (induction evs) (simp_all add: step)
  with assms show ?thesis by (auto simp: extends_def connection_open_def)
qed

lemma call_amqp_quiet:
  "call_amqp ops c cmd w = (e, w') \<Longrightarrow> \<not> connection_command cmd \<Longrightarrow> extends quiet_event w w'"
  unfolding call_amqp_def by (erule extends_perform) simp

lemma and_then_quiet:
  assumes "and_then f g w = (e, w')"
    and "\<And>w e w'. f w = (e, w') \<Longrightarrow> extends quiet_event w w'"
    and "\<And>w e w'. g w = (e, w') \<Longrightarrow> extends quiet_event w w'"
  shows "extends quiet_event w w'"
proof -
  obtain e1 w1 where f: "f w = (e1, w1)" by fastforce
  show ?thesis
  proof (cases e1)
    case None
    with assms(1) f have "g w1 = (e, w')" by (simp add: and_then_def)
    with assms(2) [OF f] assms(3) show ?thesis by (blast intro: extends_trans)
  next
    case (Some x)
    with assms(1) f assms(2) show ?thesis by (auto simp: and_then_def)
  qed
qed

lemma no_step_quiet: "no_step w = (e, w') \<Longrightarrow> extends quiet_event w w'"
  by (simp add: no_step_def)

lemma wrapping_call_quiet:
  "wrapping fs (call_amqp ops c cmd) w = (e, w') \<Longrightarrow> \<not> connection_command cmd \<Longrightarrow> extends quiet_event w w'"
  by (auto simp: wrapping_def intro: call_amqp_quiet split: prod.splits option.splits)

lemma cancel_consumer_quiet: "cancel_consumer ops tag fs w = (e, w') \<Longrightarrow> extends quiet_event w w'"
  by (auto simp: cancel_consumer_def intro: call_amqp_quiet split: prod.splits option.splits if_splits)

lemma publication_quiet: "publication what err evs \<Longrightarrow> list_all quiet_event evs"
proof -
  have "quiet_event ev" if "publish_event ev" for ev using that by (cases ev) simp_all
  then show "publication what err evs \<Longrightarrow> list_all quiet_event evs" by (auto simp: publication_def list_all_iff)
qed

lemma forwarded_quiet: "forwarded_delivery n d key m err evs \<Longrightarrow> list_all quiet_event evs"
  by (auto simp: forwarded_delivery_def dest!: publication_quiet split: if_splits)

lemma disposed_quiet: "disposed n d key proc err evs \<Longrightarrow> list_all quiet_event evs"
  by (cases proc) (auto simp: refused_delivery_def answered_delivery_def dest!: publication_quiet forwarded_quiet
      split: if_splits)

lemma round_quiet:
  assumes "consume_loop ops c handler release (\<lambda>_. FailureSimulationPublisher (Publisher ops) modes) [rnd] (h, m, w) =
      (status, (h', m', w'))"
  shows "extends quiet_event w w'"
proof (cases rnd)
  case ContextDone
  with assms show ?thesis
    by (auto simp: Let_def split: prod.splits intro: and_then_quiet cancel_consumer_quiet)
next
  case (DeliveryReceived env ctx d)
  show ?thesis
  proof (cases d)
    case (Some delivery)
    with assms DeliveryReceived obtain err where "handleDelivery ops c ctx delivery (handler env)
        (FailureSimulationPublisher (Publisher ops) modes) (h, m, w) = (err, (h', m', w'))"
      by (auto split: prod.splits option.splits)
    from wired_delivery.handleDelivery_events [OF this] show ?thesis
      using disposed_quiet by (auto simp: extends_def)
  qed (use assms DeliveryReceived in simp)
next
  case (ReleaseReceived env ctx d)
  show ?thesis
  proof (cases d)
    case (Some delivery)
    with assms ReleaseReceived obtain err where "handleReleaseDelivery ops c ctx delivery (release env)
        (FailureSimulationPublisher (Publisher ops) modes) (h, m, w) = (err, (h', m', w'))"
      by (auto split: prod.splits option.splits)
    from wired_delivery.handleReleaseDelivery_events [OF this] show ?thesis
      using disposed_quiet by (auto simp: extends_def)
  qed (use assms ReleaseReceived in simp)
qed

lemma Consume_start_quiet:
  assumes "Consume ops c handler release publisher [] (h, m, w) = (status, (h', m', w'))"
  shows "extends quiet_event w w'"
proof -
  let ?start = "\<lambda>fs queue suffix. wrapping fs (call_amqp ops ConsumerClient
    (StartConsume queue (consumerTag c @ suffix) False))"
  from assms obtain e where "in_order
      [?start [Lit ''start RabbitMQ reservation requested consumer: ''] ReservationRequestedQueueName
         ''-reservation-requested'',
       ?start [Lit ''start RabbitMQ reservation release requested consumer: ''] ReservationReleaseRequestedQueueName
         ''-reservation-release-requested''] w = (e, w')"
    by (auto simp: Consume_def simp del: in_order.simps split: prod.splits option.splits)
  then show ?thesis
    by (auto elim!: and_then_quiet intro: wrapping_call_quiet no_step_quiet)
qed

lemma admin_event_quiet: "admin_event ev \<Longrightarrow> quiet_event ev"
  by (cases ev) simp_all

lemma erp_handle_quiet:
  assumes "erp_handle sur ev s = (out, s')"
  shows "extends quiet_event (erpWorld s) (erpWorld s')"
proof (cases ev)
  case ConsumerStarts
  with assms show ?thesis
    by (auto simp: put_consumer_def dest!: Consume_start_quiet split: prod.splits)
next
  case (ConsumerRound rnd sets)
  with assms show ?thesis
    by (auto simp: put_consumer_def Let_def dest!: round_quiet simp del: consume_loop.simps split: prod.splits)
next
  case (HttpServed r scr)
  with assms show ?thesis
    using ServeHTTP_effect
    by (fastforce simp: put_server_def server_of_def request_effect_def split: prod.splits
        intro: extends_mono admin_event_quiet)
qed

lemma erp_run_quiet: "extends quiet_event (erpWorld s) (erpWorld (erp_run sur evs s))"
proof (induction evs arbitrary: s)
  case (Cons ev evs)
  obtain out s' where "erp_handle sur ev s = (out, s')" by fastforce
  with erp_handle_quiet [OF this] Cons.IH [of s'] show ?case by (auto intro: extends_trans)
qed simp

section \<open>Closing\<close>

text \<open>A client that has been closed has no connection.\<close>

definition tidy :: "'b closing \<Rightarrow> bool" where
  "tidy = (\<lambda>(once, w). \<forall>c. once c \<longrightarrow> \<not> connection_open c w)"

lemma client_Close_connection:
  assumes "client_Close ops c (once, w) = (e, (once', w'))"
  shows "once' \<and> connection_open c' w' = (connection_open c' w \<and> (once \<or> c' \<noteq> c))"
  using assms by (cases c) (auto dest!: Close_connection [where c' = c'])

lemma close_once_connection:
  assumes "close_once ops c (once, w) = (e, (once', w'))"
  shows "once' = once(c := True) \<and> connection_open c' w' = (connection_open c' w \<and> (once c \<or> c' \<noteq> c))"
  using assms by (auto simp: close_once_def dest!: client_Close_connection [where c' = c'] split: prod.splits)

lemma close_once_tidy:
  assumes "tidy (once, w)" and "close_once ops c (once, w) = (e, (once', w'))"
  shows "tidy (once', w') \<and> \<not> connection_open c w' \<and>
    (\<forall>c'. connection_open c' w' \<longrightarrow> connection_open c' w)"
  using assms(1) close_once_connection [OF assms(2)] by (auto simp: tidy_def)

lemma close_clients_tidy:
  "close_clients l sur cs once s = (exit, (once', w')) \<Longrightarrow> tidy (once, erpWorld s) \<Longrightarrow>
     tidy (once', w') \<and> exit \<in> {0, 1} \<and>
     (exit = 0 \<longrightarrow> stop_code (launch_stop l) = 0 \<and> launch_shutdown l = None)"
proof (induction l sur cs once s rule: close_clients.induct)
  case (1 l sur once s)
  then show ?case by (auto simp: stop_code_def split: option.splits stop_reason.splits if_splits)
next
  case (2 l sur c cs once s)
  let ?s = "erp_run sur (launch_closing l c) s"
  have tidy: "tidy (once, erpWorld ?s)"
    using 2(3) by (simp add: tidy_def connection_quiet [OF erp_run_quiet])
  obtain e once1 w1 where close: "close_once (sur_ops sur) c (once, erpWorld ?s) = (e, (once1, w1))"
    by (metis prod_cases3)
  note closed = close_once_tidy [OF tidy close]
  show ?case
  proof (cases e)
    case (Some err)
    with 2(2) close closed show ?thesis by (simp add: Let_def)
  next
    case None
    with 2(2) close have "close_clients l sur cs once1 (?s\<lparr>erpWorld := w1\<rparr>) = (exit, (once', w'))"
      by (simp add: Let_def)
    with 2(1) [OF refl close [symmetric] None refl] closed show ?thesis by simp
  qed
qed

lemma deferred_close_tidy:
  assumes "tidy st"
  obtains st' where "deferred_close ops c (exit, st) = (exit, st')" "tidy st'" "\<not> connection_open c (snd st')"
    "\<forall>c'. connection_open c' (snd st') \<longrightarrow> connection_open c' (snd st)"
proof -
  obtain once w where st: "st = (once, w)" by fastforce
  obtain e once' w' where close: "close_once ops c (once, w) = (e, (once', w'))" by (metis prod_cases3)
  from close_once_tidy [OF assms [unfolded st] close] close show ?thesis
    by (intro that [of "(once', w')"]) (simp_all add: deferred_close_def st)
qed

definition exit_ok :: "('b, 'p) launch \<Rightarrow> int \<Rightarrow> bool" where
  "exit_ok l exit \<longleftrightarrow> exit \<in> {0, 1} \<and> (exit = 0 \<longrightarrow> stop_code (launch_stop l) = 0 \<and> launch_shutdown l = None)"

lemma serve_tidy:
  assumes "serve l consumer repository w = (exit, st)"
  shows "tidy st \<and> exit_ok l exit"
  using assms
  by (cases st) (auto simp: serve_def exit_ok_def Let_def tidy_def dest!: close_clients_tidy
      simp del: close_clients.simps)

lemma failed_start: "tidy (\<lambda>_. False, w) \<and> exit_ok l 1"
  by (simp add: tidy_def exit_ok_def)

lemma run_metrics_tidy:
  "run_metrics l consumer repository w = (exit, st) \<Longrightarrow> tidy st \<and> exit_ok l exit"
  by (auto simp: run_metrics_def failed_start dest: serve_tidy split: sum.splits)

lemma run_admin_tidy:
  assumes run: "run_admin l cfg consumer repository w = (exit, st)" and closed: "\<not> connection_open AdminClient w"
  shows "tidy st \<and> exit_ok l exit \<and> \<not> connection_open AdminClient (snd st)"
proof -
  let ?ops = "sur_ops (launch_sur l)"
  obtain e w1 where new: "NewAdmin ?ops (RabbitMQURL cfg) w = (e, w1)" by fastforce
  show ?thesis
  proof (cases e)
    case (Some err)
    with run new NewAdmin_connection [OF new closed, of AdminClient] show ?thesis
      by (auto simp: run_admin_def failed_start)
  next
    case None
    obtain y st1 where body: "run_metrics l consumer repository w1 = (y, st1)" by (metis prod.exhaust)
    obtain st2 where "deferred_close ?ops AdminClient (y, st1) = (y, st2)" "tidy st2"
      "\<not> connection_open AdminClient (snd st2)" using run_metrics_tidy [OF body] by (blast elim: deferred_close_tidy)
    with run new body None run_metrics_tidy [OF body] show ?thesis by (simp add: run_admin_def)
  qed
qed

lemma run_publisher_tidy:
  assumes run: "run_publisher l cfg consumer repository w = (exit, st)"
    and closed: "\<not> connection_open AdminClient w" "\<not> connection_open PublisherClient w"
  shows "tidy st \<and> exit_ok l exit \<and> \<not> connection_open AdminClient (snd st) \<and>
    \<not> connection_open PublisherClient (snd st)"
proof -
  let ?ops = "sur_ops (launch_sur l)"
  obtain e w1 where new: "NewPublisher ?ops (RabbitMQURL cfg) w = (e, w1)" by fastforce
  have admin: "\<not> connection_open AdminClient w1" using NewPublisher_connection [OF new closed(2)] closed(1) by simp
  show ?thesis
  proof (cases e)
    case (Some err)
    with run new admin NewPublisher_connection [OF new closed(2), of PublisherClient] show ?thesis
      by (auto simp: run_publisher_def failed_start)
  next
    case None
    obtain y st1 where body: "run_admin l cfg consumer repository w1 = (y, st1)" by (metis prod.exhaust)
    note facts = run_admin_tidy [OF body admin]
    obtain st2 where "deferred_close ?ops PublisherClient (y, st1) = (y, st2)" "tidy st2"
      "\<not> connection_open PublisherClient (snd st2)"
      "\<forall>c'. connection_open c' (snd st2) \<longrightarrow> connection_open c' (snd st1)"
      using facts by (blast elim: deferred_close_tidy)
    with run new body facts None show ?thesis by (auto simp: run_publisher_def)
  qed
qed

text \<open>
  Property C19. No connection outlives the program. Whatever fails on the way (a constructor at
  any of its calls, the metrics, a \<open>Close\<close>, the HTTP server, the consumer) and whatever the
  goroutines do in the meantime, when \<open>run\<close> returns, each of the three AMQP connections has been
  closed if it was opened. The exit code is 0 or 1, and 0 only if the configuration was valid,
  the program was stopped in an orderly way and the HTTP server shut down without an error.
\<close>

theorem run_closes_connections:
  assumes "run l w = (exit, w')" and "\<forall>c. \<not> connection_open c w"
  shows "(\<forall>c. \<not> connection_open c w') \<and> exit \<in> {0, 1} \<and>
    (exit = 0 \<longrightarrow> (\<exists>cfg. Load (launch_env l) = Inr cfg) \<and> stop_code (launch_stop l) = 0 \<and>
      launch_shutdown l = None)"
proof (cases "Load (launch_env l)")
  case (Inl err)
  with assms show ?thesis by (simp add: run_def)
next
  case loaded: (Inr cfg)
  let ?ops = "sur_ops (launch_sur l)"
  obtain r :: "metric_calls Consumer result" and w1 where new: "NewConsumer ?ops (consumer_config cfg) w = (r, w1)" by fastforce
  note opened = NewConsumer_connection [OF new]
  have others: "\<not> connection_open AdminClient w1" "\<not> connection_open PublisherClient w1"
    using opened assms(2) by simp_all
  show ?thesis
  proof (cases r)
    case (Inl err)
    with opened assms new loaded show ?thesis by (auto simp: run_def default_repository_new)
  next
    case (Inr consumer)
    obtain y st1 where body: "run_publisher l cfg consumer default_repository w1 = (y, st1)" by (metis prod.exhaust)
    note facts = run_publisher_tidy [OF body others]
    obtain st2 where st2: "deferred_close ?ops ConsumerClient (y, st1) = (y, st2)"
      "\<not> connection_open ConsumerClient (snd st2)"
      "\<forall>c'. connection_open c' (snd st2) \<longrightarrow> connection_open c' (snd st1)"
      using facts by (blast elim: deferred_close_tidy)
    have "exit = y" "w' = snd st2"
      using assms(1) loaded new Inr body st2(1) by (simp_all add: run_def default_repository_new)
    moreover have "\<not> connection_open c (snd st2)" for c using st2(2,3) facts by (cases c) auto
    ultimately show ?thesis using facts loaded by (auto simp: exit_ok_def)
  qed
qed

section \<open>A concrete launch\<close>

definition sample_launch :: "(unit, unit) launch" where
  "sample_launch = \<lparr>launch_env = (\<lambda>_. []), launch_register = (\<lambda>_ p. (None, p)), launch_registry = (),
     launch_sur = sample_surroundings, launch_running = [ConsumerStarts], launch_stop = SignalReceived,
     launch_closing = (\<lambda>_. []), launch_shutdown = None\<rparr>"

theorem run_closes_connections_witness:
  "\<exists>exit w. run sample_launch steady_world = (exit, w) \<and> (\<forall>c. \<not> connection_open c w)"
proof -
  obtain exit w where go: "run sample_launch steady_world = (exit, w)" by fastforce
  have "\<forall>c. \<not> connection_open c steady_world" by (simp add: connection_open_def steady_world_def)
  from run_closes_connections [OF go this] go show ?thesis by blast
qed

end
