(* ===== verification/Spec2Isabelle.thy ===== *)
theory Spec2Isabelle
  imports Idempotency_Concurrent Retry_Limits Erp_Run
begin

text \<open>
  Verification of the StockFlow ERP mock, a Go service that keeps an inventory in memory. It
  takes reservation and release requests from RabbitMQ, decides each one once per idempotency
  key, publishes the decision, and answers HTTP requests for stock, reservations, failure modes,
  dead letters and metrics. Every Go package of the program is modelled, from the byte level of
  messages and requests to \<^emph>\<open>run\<close> in cmd/erp-mock/main.go.

  \<^bold>\<open>The program and how its parts interact.\<close> The consumer takes a delivery, decodes it and calls a
  request handler. A handler wraps another one: the outer simulates failures (rejections and
  delays, as the failure-mode controller says), the inner works on the repository, and both
  remember their answers in an idempotency store. The consumer hands the answer to the publisher,
  again a simulating one around the real one, which publishes and waits for the broker's
  confirmation; then the delivery is acknowledged. What fails is forwarded to the retry exchange
  with a higher count and in the end to the dead-letter exchange. The HTTP server works on the
  same repository and controller from its own goroutines and can move dead letters back. Metrics
  are fed by the consumer and read the repository when they are scraped.

  \<^bold>\<open>The theories\<close>, with the files under src/internal that they model.

  \<^descr> \<open>Erp_Prelude\<close>, \<open>Erp_Errors\<close>: machine integers, byte strings, \<open>strings.TrimSpace\<close>, times, sums
  over maps; Go errors with \<open>fmt.Errorf\<close> wrapping and \<open>errors.Is\<close>, the sentinels of all packages
  (domain/inventory/errors.go and others), contexts, and the type \<open>op\<close> of fallible operations
  on a state.

  \<^descr> \<open>Go_Strconv\<close>, \<open>Go_Float\<close>, \<open>Go_Duration\<close>, \<open>Go_Time\<close>, \<open>Go_Json\<close>: the parts of the standard library
  whose behaviour on bytes the sources rely on, as executable functions, with the round trips
  between printing and parsing of numbers, times and JSON structs.

  \<^descr> \<open>Inventory_Domain\<close> (domain/inventory/model.go and service.go), \<open>Inventory_Repository\<close>
  (storage/memory/inventory_repository.go): one definition per function or method, each method
  one atomic step because it holds the repository's lock; the well-formedness \<open>repo_wf\<close>, the
  bound \<open>repo_bounded\<close>, and \<open>repo_reachable\<close>.

  \<^descr> \<open>Inventory_Ledger\<close>: the abstract specification, a ledger over unbounded integers with no
  reserved counter, and the refinement of the ledger by the repository; conservation of units,
  and the failure when the reserved counter overflows.

  \<^descr> \<open>Idempotency_Store\<close>, \<open>Idempotency_Concurrent\<close> (storage/memory/idempotency_store.go): \<open>Execute\<close>
  as one caller sees it, and as a step relation over any number of goroutines whose steps are the
  critical sections; at most one success per key, agreement of all callers, no caller forgotten.

  \<^descr> \<open>Failure_Mode\<close> (app/failure_mode.go), \<open>Reservation_Handlers\<close> and \<open>Release_Handlers\<close>
  (app/inventory_reservation.go, inventory_reservation_release.go, failure_simulation.go),
  \<open>Reservation_Service\<close>: the handlers over any store and repository that meet their contracts, then
  wired as the program wires them; what is decided, that a redelivery is answered alike, that a
  failure has no effect.

  \<^descr> \<open>Message_Decode\<close> (messaging/rabbitmq/reservation_requested.go,
  reservation_release_requested.go), \<open>Message_Publish\<close> (publisher.go,
  failure_simulation_publisher.go): headers, UUIDs, payloads, forwarded deliveries and
  confirmations; what is published decodes to what was meant.

  \<^descr> \<open>Amqp_World\<close>, \<open>Publish_Contract\<close>, \<open>Consumer\<close>, \<open>Delivery_Handling\<close>, \<open>Retry_Limits\<close>, \<open>Amqp_Clients\<close>
  (messaging/rabbitmq/consumer.go and the constructors of publisher.go and admin.go): the
  events that the handling of a delivery leaves at the broker, against a specification
  \<open>disposed\<close> of what they must be; acknowledgement only of what is answered or forwarded; the
  bound on retries; the declared topology; connections closed when a constructor fails.

  \<^descr> \<open>Dlq_Admin\<close> (messaging/rabbitmq/admin.go, app/dead_letter.go), \<open>Metrics\<close>
  (observability/metrics.go), \<open>Config\<close> (config/config.go), \<open>Http_Server\<close> (http/server.go): one
  definition per function; every fetched dead letter is accounted for, counters equal the events
  they count, a loaded configuration is valid, requests are answered with the right status.

  \<^descr> \<open>Erp_System\<close>, \<open>Erp_Run\<close> (cmd/erp-mock/main.go): the whole program as one state with the events
  of the consumer and of the HTTP server in any order, its invariant, and the life of the process
  from configuration to exit.

  \<^bold>\<open>Interfaces.\<close> Each Go interface, and each reliance of one component on another, is a locale, and
  the clients' lemmas are proved in it: \<open>inventory_contract\<close> (interpreted on the in-memory
  repository as \<open>memory_repository\<close>), \<open>idempotent_execution\<close> (\<open>memory_store\<close>),
  \<open>reservation_request_handler\<close> and \<open>release_request_handler\<close>, which the locales \<open>reservation_handling\<close>,
  \<open>failure_simulation\<close>, \<open>release_handling\<close> and \<open>delayed_release\<close> give by \<open>sublocale\<close> and
  \<open>Reservation_Service\<close> interprets on the wired handlers, \<open>result_publisher\<close> (\<open>amqp_publisher\<close>) with
  \<open>simulated_publisher\<close> (\<open>wired_publisher\<close>), \<open>delivery_handling\<close> and \<open>consuming\<close> (\<open>wired_delivery\<close>,
  \<open>wired_consumer\<close>), and \<open>dead_letter_admin\<close> (\<open>amqp_admin\<close>), on which HTTP server and metrics rely.

  \<^bold>\<open>Integers, loops and bounds.\<close> Go's \<open>int\<close>, \<open>int32\<close>, \<open>int64\<close>, \<open>byte\<close> and \<open>time.Duration\<close> are words of
  their width and every operation wraps as in Go; where exactness matters it is a hypothesis
  (\<open>repo_bounded\<close>: the units of every SKU fit into an \<open>int\<close>; \<open>erp_reachable\<close> speaks of runs that stay
  so) and the theorems on overflow show what happens without it. No function has fuel. Loops over
  messages take the sequence of what the select delivers as a list, so every finite part of an
  endless run is covered; the requeue loop and the parsers end by a measure or structurally.

  \<^bold>\<open>Outside the program.\<close> The AMQP client, the clock and the random source are the functions of the
  record \<open>world_ops\<close> on a state of any type, with no assumption on them; calls on channels are
  also kept in a history that the code does not read and the theorems speak of. Registration with
  Prometheus and the rendering of metrics are the arguments \<open>register\<close> and \<open>sur_expose\<close>. What
  an in-flight call of another goroutine answers is \<open>await\<close>. The order in which Go ranges over a
  map is an argument. A context is the list of the answers of its \<open>Err\<close> calls. The order of events
  and the reason for stopping are the record \<open>launch\<close>.

  \<^bold>\<open>Not modelled.\<close> Log output (slog and the request logger), which no result depends on; the
  delivery of signals and the inside of net/http below the handlers (connections, timeouts, the
  bytes of a response, panics and cleaning of paths); the text of errors as one string (an error
  keeps the pieces it is made from); the memory layout of maps and pointers, since no pointer is
  shared with a caller. The contracts, documents, tests and deployment files hold no program code.
\<close>

end
